theory Spec2Isabelle
  imports Complex_Main "HOL-Library.Sublist" "HOL-Library.Char_ord" "HOL-Library.List_Lexorder"
begin

section \<open>The data-access layer of the store monitor (\<^verbatim>\<open>database_fixed.py\<close>)\<close>

text \<open>
  The class \<^verbatim>\<open>DatabaseManager\<close> talks to one of two storage engines: PostgreSQL through a
  connection pool, or a local SQLite file. This theory embeds its methods as functions on
  an explicit state. The state holds the attributes of the manager object and, next to
  them, the part of the outside world the methods act on: the committed contents of both
  engines, the failures the engines are going to report, and the clock.

  Conventions.
  \<^item> A Python call that may raise returns \<open>exn + 'a\<close> (\<open>Inl\<close> the exception) together with
    the state it leaves behind.
  \<^item> Every call that reaches an engine (or the file system) asks the state's \<open>faults\<close>
    for its outcome: \<open>faults s e n\<close> is the exception the \<open>n\<close>-th call to engine \<open>e\<close>
    raises, or \<open>None\<close> when that call goes through. The schedule is arbitrary, so a theorem
    about all states covers every way an engine can fail.
  \<^item> Calls to the logger have no effect on control flow or on the stored data and are left
    out.
  \<^item> Python floats are idealised as real numbers.
\<close>

subsection \<open>Exceptions\<close>

datatype exn =
    ValueError string
  | OperationalError string
  | FileNotFoundError string
  | AttributeError string
  | IntegrityError string
  | DataError string
  | PoolError string
  | TypeError string
  | ZeroDivisionError string
  | OverflowError string
  | ProgrammingError string
  | PyException string

text \<open>\<^verbatim>\<open>str(e)\<close>: the message of an exception.\<close>

fun str_of :: "exn \<Rightarrow> string" where
  "str_of (ValueError m) = m"
| "str_of (OperationalError m) = m"
| "str_of (FileNotFoundError m) = m"
| "str_of (AttributeError m) = m"
| "str_of (IntegrityError m) = m"
| "str_of (DataError m) = m"
| "str_of (PoolError m) = m"
| "str_of (TypeError m) = m"
| "str_of (ZeroDivisionError m) = m"
| "str_of (OverflowError m) = m"
| "str_of (ProgrammingError m) = m"
| "str_of (PyException m) = m"

definition is_space :: "char \<Rightarrow> bool" where
  "is_space c = (c \<in> set [CHR '' '', CHR 0x09, CHR 0x0A, CHR 0x0B, CHR 0x0C, CHR 0x0D])"

text \<open>\<^verbatim>\<open>s.strip()\<close>\<close>

definition strip :: "string \<Rightarrow> string" where
  "strip m = rev (dropWhile is_space (rev (dropWhile is_space m)))"

subsection \<open>Configuration\<close>

text \<open>
  The module \<^verbatim>\<open>config\<close> is imported, not defined, by the file; its three settings are a
  parameter of the model.
\<close>

record config =
  USE_SQLITE :: bool
  DATABASE_URL :: string
  SQLITE_PATH :: string

subsection \<open>Tables\<close>

text \<open>
  Timestamps are seconds since the epoch, as integers. A \<^verbatim>\<open>TIMESTAMP\<close> column holds a
  wall-clock reading without a zone: SQLite's \<^verbatim>\<open>CURRENT_TIMESTAMP\<close> is the reading in UTC,
  PostgreSQL's is the reading in the session's time zone.
\<close>

record store_row =
  s_id :: int
  s_name :: string
  s_url :: string
  s_platform :: string
  s_created_at :: int

record check_row =
  sc_id :: int
  sc_store_id :: int
  sc_is_online :: bool
  sc_checked_at :: int
  sc_response_time_ms :: "int option"
  sc_error_message :: "string option"

record summary_row =
  sr_id :: int
  sr_total_stores :: int
  sr_online_stores :: int
  sr_offline_stores :: int
  sr_online_percentage :: real
  sr_report_time :: int

text \<open>A database: which of the three tables exist, and their rows in insertion order.\<close>

record database =
  has_stores :: bool
  has_status_checks :: bool
  has_summary_reports :: bool
  stores :: "store_row list"
  status_checks :: "check_row list"
  summary_reports :: "summary_row list"

definition empty_database :: database where
  "empty_database =
     \<lparr>has_stores = False, has_status_checks = False, has_summary_reports = False,
      stores = [], status_checks = [], summary_reports = []\<rparr>"

text \<open>
  \<^verbatim>\<open>SERIAL\<close> and \<^verbatim>\<open>AUTOINCREMENT\<close> keys: the next key lies above every key in the table.
\<close>

definition next_id :: "int list \<Rightarrow> int" where
  "next_id ids = fold max ids 0 + 1"

subsection \<open>The state\<close>

datatype engine = Primary | Embedded

datatype pool = Pool (pool_dsn: string) (pool_closed: bool)

text \<open>
  The first five fields are the attributes of the \<^verbatim>\<open>DatabaseManager\<close> object
  (\<open>sqlite_path\<close> is \<open>None\<close> while the attribute has not been assigned). The others are
  the world: \<open>faults\<close> and \<open>calls\<close> as described above, \<open>data\<close> the committed contents of
  each engine, \<open>txn\<close> what the connection in use sees (the committed contents plus its own
  uncommitted statements), \<open>clock\<close> the time in UTC, \<open>session_tz\<close> the offset of the
  PostgreSQL session's time zone from UTC, and \<open>slept\<close> the arguments of the calls to
  \<^verbatim>\<open>time.sleep\<close> so far.
\<close>

record state =
  connection_pool :: "pool option"
  db_type :: string
  max_retries :: nat
  retry_delay :: nat
  sqlite_path :: "string option"
  faults :: "engine \<Rightarrow> nat \<Rightarrow> exn option"
  calls :: "engine \<Rightarrow> nat"
  data :: "engine \<Rightarrow> database"
  txn :: database
  clock :: int
  session_tz :: int
  slept :: "nat list"

type_synonym 'a prog = "state \<Rightarrow> (exn + 'a) \<times> state"

definition ret :: "'a \<Rightarrow> 'a prog" where
  "ret v s = (Inr v, s)"

definition raise_exn :: "exn \<Rightarrow> 'a prog" where
  "raise_exn e s = (Inl e, s)"

text \<open>Sequencing: an exception of the first part skips the second.\<close>

definition bind_prog :: "'a prog \<Rightarrow> ('a \<Rightarrow> 'b prog) \<Rightarrow> 'b prog" where
  "bind_prog m k s = (case m s of (Inl e, s') \<Rightarrow> (Inl e, s') | (Inr v, s') \<Rightarrow> k v s')"

text \<open>One call to an engine: its outcome is the next entry of the engine's schedule.\<close>

definition engine_op :: "engine \<Rightarrow> unit prog" where
  "engine_op e s =
     (let s' = s\<lparr>calls := (calls s)(e := Suc (calls s e))\<rparr>
      in case faults s e (calls s e) of Some x \<Rightarrow> (Inl x, s') | None \<Rightarrow> (Inr (), s'))"

text \<open>\<^verbatim>\<open>time.sleep(d)\<close>\<close>

definition sleep :: "nat \<Rightarrow> state \<Rightarrow> state" where
  "sleep d s = s\<lparr>clock := clock s + int d, slept := slept s @ [d]\<rparr>"

text \<open>\<^verbatim>\<open>CURRENT_TIMESTAMP\<close> as stored in a \<^verbatim>\<open>TIMESTAMP\<close> column of engine \<open>e\<close>.\<close>

definition current_timestamp :: "engine \<Rightarrow> state \<Rightarrow> int" where
  "current_timestamp e s = (case e of Primary \<Rightarrow> clock s + session_tz s | Embedded \<Rightarrow> clock s)"

subsection \<open>Bringing up an engine\<close>

text \<open>
  \<^verbatim>\<open>_init_postgresql\<close>: the scheme of the URL is checked before anything is sent; then a
  test connection is opened and closed, and the pool is created. Both handlers of the
  method log and re-raise the exception they caught, so the method raises what its body
  raises.
\<close>

definition init_postgresql :: "config \<Rightarrow> unit prog" where
  "init_postgresql c =
     (if \<not> prefix ''postgresql://'' (DATABASE_URL c)
      then raise_exn (ValueError (''Invalid PostgreSQL URL format: '' @ DATABASE_URL c))
      else bind_prog (engine_op Primary) (\<lambda>_.
           bind_prog (engine_op Primary) (\<lambda>_ s.
             (Inr (), s\<lparr>connection_pool := Some (Pool (DATABASE_URL c) False)\<rparr>))))"

text \<open>
  \<^verbatim>\<open>os.path.dirname\<close> (POSIX): everything up to the last slash, without trailing slashes
  unless it consists of slashes only. A path without a slash has the empty directory name.
\<close>

definition dirname :: "string \<Rightarrow> string" where
  "dirname p =
     (let head = rev (dropWhile (\<lambda>c. c \<noteq> CHR ''/'') (rev p))
      in if head \<noteq> [] \<and> \<not> list_all (\<lambda>c. c = CHR ''/'') head
         then rev (dropWhile (\<lambda>c. c = CHR ''/'') (rev head)) else head)"

text \<open>
  \<^verbatim>\<open>os.makedirs(d, exist_ok=True)\<close>: the empty path is refused with \<^verbatim>\<open>FileNotFoundError\<close>
  whatever the file system holds; any other path is a call to the file system of the
  embedded engine.
\<close>

definition makedirs :: "string \<Rightarrow> unit prog" where
  "makedirs d =
     (if d = [] then raise_exn (FileNotFoundError ''[Errno 2] No such file or directory'')
      else engine_op Embedded)"

text \<open>
  \<^verbatim>\<open>_init_sqlite\<close>: the path is stored first; then the directory is created, a connection
  is opened and a test query is run. The handler logs and re-raises.
\<close>

definition init_sqlite :: "config \<Rightarrow> unit prog" where
  "init_sqlite c s =
     bind_prog (makedirs (dirname (SQLITE_PATH c))) (\<lambda>_.
     bind_prog (engine_op Embedded) (\<lambda>_.
     engine_op Embedded))
       (s\<lparr>sqlite_path := Some (SQLITE_PATH c)\<rparr>)"

subsection \<open>Scoped connections\<close>

text \<open>
  The message \<^verbatim>\<open>get_connection\<close> wraps around whatever went wrong inside its scope.
\<close>

definition wrap_pg :: "exn \<Rightarrow> exn" where
  "wrap_pg e = PyException (''Database connection failed: '' @ strip (str_of e))"

definition wrap_sqlite :: "exn \<Rightarrow> exn" where
  "wrap_sqlite e = PyException (''SQLite error: '' @ strip (str_of e))"

text \<open>
  The part of \<^verbatim>\<open>get_connection\<close> before its \<^verbatim>\<open>yield\<close>. On PostgreSQL: the pool must
  exist, \<^verbatim>\<open>getconn\<close> must hand out a connection (a closed pool raises; the driver never
  returns \<^verbatim>\<open>None\<close>), and the probe \<^verbatim>\<open>SELECT 1\<close> must go through. On SQLite: a connection
  to \<open>sqlite_path\<close> is opened and probed. A connection starts from the committed
  contents of its engine: a fresh SQLite connection has no open transaction, and the
  pool rolls back a connection that is returned inside one. Whatever fails here is
  wrapped and raised; rollback and release in the handler cannot raise (their errors
  are discarded) and change nothing that is committed.
\<close>

definition connect :: "unit prog" where
  "connect s =
     (if db_type s = ''postgresql'' then
        (case connection_pool s of
           None \<Rightarrow> (Inl (wrap_pg (PyException ''Connection pool not initialized'')), s)
         | Some p \<Rightarrow>
             if pool_closed p then (Inl (wrap_pg (PoolError ''connection pool is closed'')), s)
             else (case engine_op Primary s of
                     (Inl e, s1) \<Rightarrow> (Inl (wrap_pg e), s1)
                   | (Inr _, s1) \<Rightarrow>
                       (case engine_op Primary (s1\<lparr>txn := data s1 Primary\<rparr>) of
                          (Inl e, s2) \<Rightarrow> (Inl (wrap_pg e), s2)
                        | (Inr _, s2) \<Rightarrow> (Inr (), s2))))
      else
        (case sqlite_path s of
           None \<Rightarrow>
             (Inl (wrap_sqlite (AttributeError ''object has no attribute sqlite_path'')), s)
         | Some p \<Rightarrow>
             (case engine_op Embedded s of
                (Inl e, s1) \<Rightarrow> (Inl (wrap_sqlite e), s1)
              | (Inr _, s1) \<Rightarrow>
                  (case engine_op Embedded (s1\<lparr>txn := data s1 Embedded\<rparr>) of
                     (Inl e, s2) \<Rightarrow> (Inl (wrap_sqlite e), s2)
                   | (Inr _, s2) \<Rightarrow> (Inr (), s2)))))"

text \<open>
  \<^verbatim>\<open>with self.get_connection() as conn: body\<close>. An exception of the body is thrown into
  the generator at its \<^verbatim>\<open>yield\<close>, where the handler of the branch that was entered wraps
  it; the connection is released on every path, and what was not committed is lost.
\<close>

definition get_connection :: "'a prog \<Rightarrow> 'a prog" where
  "get_connection body s =
     (case connect s of
        (Inl e, s1) \<Rightarrow> (Inl e, s1)
      | (Inr _, s1) \<Rightarrow>
          (case body s1 of
             (Inl e, s2) \<Rightarrow>
               (Inl (if db_type s = ''postgresql'' then wrap_pg e else wrap_sqlite e), s2)
           | (Inr v, s2) \<Rightarrow> (Inr v, s2)))"

text \<open>\<^verbatim>\<open>conn.commit()\<close>: what the connection sees becomes the committed contents.\<close>

definition commit :: "engine \<Rightarrow> unit prog" where
  "commit e = bind_prog (engine_op e) (\<lambda>_ s. (Inr (), s\<lparr>data := (data s)(e := txn s)\<rparr>))"

subsection \<open>The schema\<close>

datatype table = Stores | StatusChecks | SummaryReports

fun create_if_absent :: "table \<Rightarrow> database \<Rightarrow> database" where
  "create_if_absent Stores db = db\<lparr>has_stores := True\<rparr>"
| "create_if_absent StatusChecks db = db\<lparr>has_status_checks := True\<rparr>"
| "create_if_absent SummaryReports db = db\<lparr>has_summary_reports := True\<rparr>"

text \<open>\<^verbatim>\<open>cursor.execute("CREATE TABLE IF NOT EXISTS ...")\<close>\<close>

definition create_table :: "engine \<Rightarrow> table \<Rightarrow> unit prog" where
  "create_table e t =
     bind_prog (engine_op e) (\<lambda>_ s. (Inr (), s\<lparr>txn := create_if_absent t (txn s)\<rparr>))"

definition create_tables :: "unit prog" where
  "create_tables s =
     get_connection
       (if db_type s = ''postgresql'' then
          bind_prog (create_table Primary Stores) (\<lambda>_.
          bind_prog (create_table Primary StatusChecks) (\<lambda>_.
          bind_prog (create_table Primary SummaryReports) (\<lambda>_.
          commit Primary)))
        else
          bind_prog (create_table Embedded Stores) (\<lambda>_.
          bind_prog (create_table Embedded StatusChecks) (\<lambda>_.
          bind_prog (create_table Embedded SummaryReports) (\<lambda>_.
          commit Embedded)))) s"

subsection \<open>Initialisation with retries and fallback\<close>

text \<open>
  The loop of \<^verbatim>\<open>_initialize_database\<close> over \<^verbatim>\<open>range(self.max_retries)\<close>. An attempt that
  succeeds returns. A failed attempt that is not the last one sleeps; the last one
  switches \<open>db_type\<close> to SQLite and initialises that inside the handler, so an exception
  of the fallback leaves the method.
\<close>

fun initialize_attempts :: "config \<Rightarrow> nat list \<Rightarrow> unit prog" where
  "initialize_attempts c [] s = (Inr (), s)"
| "initialize_attempts c (attempt # rest) s =
     (case bind_prog (if db_type s = ''postgresql'' then init_postgresql c else init_sqlite c)
             (\<lambda>_. create_tables) s of
        (Inr _, s1) \<Rightarrow> (Inr (), s1)
      | (Inl e, s1) \<Rightarrow>
          if int attempt < int (max_retries s1) - 1
          then initialize_attempts c rest (sleep (retry_delay s1) s1)
          else (case bind_prog (init_sqlite c) (\<lambda>_. create_tables)
                       (s1\<lparr>db_type := ''sqlite''\<rparr>) of
                  (Inl e', s2) \<Rightarrow> (Inl e', s2)
                | (Inr _, s2) \<Rightarrow> initialize_attempts c rest s2))"

definition initialize_database :: "config \<Rightarrow> unit prog" where
  "initialize_database c s = initialize_attempts c [0..<max_retries s] s"

text \<open>
  \<^verbatim>\<open>DatabaseManager.__init__\<close>: a new object, built in the world of \<open>s\<close>.
\<close>

definition init :: "config \<Rightarrow> unit prog" where
  "init c s =
     initialize_database c
       (s\<lparr>connection_pool := None,
          db_type := (if USE_SQLITE c then ''sqlite'' else ''postgresql''),
          max_retries := 3, retry_delay := 5, sqlite_path := None\<rparr>)"

subsection \<open>Statements of the write path\<close>

text \<open>What each engine answers when a statement names a table that does not exist.\<close>

definition missing_table :: "engine \<Rightarrow> string \<Rightarrow> exn" where
  "missing_table e name =
     (case e of Primary \<Rightarrow> ProgrammingError (''relation does not exist: '' @ name)
              | Embedded \<Rightarrow> OperationalError (''no such table: '' @ name))"

text \<open>
  An \<^verbatim>\<open>INTEGER\<close> column holds 32 bits on PostgreSQL; the SQLite driver refuses a Python
  integer beyond 64 bits.
\<close>

definition int_fits :: "engine \<Rightarrow> int \<Rightarrow> bool" where
  "int_fits e i =
     (case e of Primary \<Rightarrow> - (2 ^ 31) \<le> i \<and> i < 2 ^ 31
              | Embedded \<Rightarrow> - (2 ^ 63) \<le> i \<and> i < 2 ^ 63)"

definition int_error :: "engine \<Rightarrow> exn" where
  "int_error e =
     (case e of Primary \<Rightarrow> DataError ''integer out of range''
              | Embedded \<Rightarrow> OverflowError ''Python int too large to convert to SQLite INTEGER'')"

text \<open>
  \<^verbatim>\<open>SELECT id FROM stores WHERE url = ...\<close> followed by \<^verbatim>\<open>fetchone()\<close>: the id of the first
  row with exactly this url, if there is one.
\<close>

definition select_store_id :: "engine \<Rightarrow> string \<Rightarrow> int option prog" where
  "select_store_id e url =
     bind_prog (engine_op e) (\<lambda>_ s.
       if \<not> has_stores (txn s) then (Inl (missing_table e ''stores''), s)
       else (Inr (map_option s_id (find (\<lambda>r. s_url r = url) (stores (txn s)))), s))"

text \<open>
  \<^verbatim>\<open>INSERT INTO stores (name, url, platform)\<close>, answering the new id (\<^verbatim>\<open>RETURNING id\<close> on
  PostgreSQL, \<^verbatim>\<open>lastrowid\<close> on SQLite). The column \<^verbatim>\<open>url\<close> is \<^verbatim>\<open>UNIQUE\<close> on both engines;
  PostgreSQL bounds \<^verbatim>\<open>name\<close> by 255 and \<^verbatim>\<open>platform\<close> by 50 characters.
\<close>

definition insert_store :: "engine \<Rightarrow> string \<Rightarrow> string \<Rightarrow> string \<Rightarrow> int prog" where
  "insert_store e name url platform =
     bind_prog (engine_op e) (\<lambda>_ s.
       if \<not> has_stores (txn s) then (Inl (missing_table e ''stores''), s)
       else if e = Primary \<and> (255 < length name \<or> 50 < length platform)
         then (Inl (DataError ''value too long for type character varying''), s)
       else if url \<in> set (map s_url (stores (txn s)))
         then (Inl (IntegrityError ''UNIQUE constraint failed: stores.url''), s)
       else
         (let i = next_id (map s_id (stores (txn s)));
              row = \<lparr>s_id = i, s_name = name, s_url = url, s_platform = platform,
                     s_created_at = current_timestamp e s\<rparr>
          in (Inr i, s\<lparr>txn := (txn s)\<lparr>stores := stores (txn s) @ [row]\<rparr>\<rparr>)))"

text \<open>
  \<^verbatim>\<open>INSERT INTO status_checks (store_id, is_online, response_time_ms, error_message)\<close>.
  PostgreSQL enforces the reference to \<^verbatim>\<open>stores\<close>; SQLite, whose foreign keys are off
  unless switched on per connection, does not.
\<close>

definition insert_status_check ::
    "engine \<Rightarrow> int \<Rightarrow> bool \<Rightarrow> int option \<Rightarrow> string option \<Rightarrow> unit prog" where
  "insert_status_check e store_id is_online response_time_ms error_message =
     bind_prog (engine_op e) (\<lambda>_ s.
       if \<not> has_status_checks (txn s) then (Inl (missing_table e ''status_checks''), s)
       else if \<not> int_fits e store_id
               \<or> (case response_time_ms of None \<Rightarrow> False | Some r \<Rightarrow> \<not> int_fits e r)
         then (Inl (int_error e), s)
       else if e = Primary \<and> store_id \<notin> set (map s_id (stores (txn s)))
         then (Inl (IntegrityError ''violates foreign key constraint''), s)
       else
         (let row = \<lparr>sc_id = next_id (map sc_id (status_checks (txn s))),
                     sc_store_id = store_id, sc_is_online = is_online,
                     sc_checked_at = current_timestamp e s,
                     sc_response_time_ms = response_time_ms,
                     sc_error_message = error_message\<rparr>
          in (Inr (), s\<lparr>txn := (txn s)\<lparr>status_checks := status_checks (txn s) @ [row]\<rparr>\<rparr>)))"

text \<open>
  \<^verbatim>\<open>INSERT INTO summary_reports (total_stores, online_stores, offline_stores,
  online_percentage)\<close>
\<close>

definition insert_summary_report :: "engine \<Rightarrow> int \<Rightarrow> int \<Rightarrow> int \<Rightarrow> real \<Rightarrow> unit prog" where
  "insert_summary_report e total_stores online_stores offline_stores online_percentage =
     bind_prog (engine_op e) (\<lambda>_ s.
       if \<not> has_summary_reports (txn s) then (Inl (missing_table e ''summary_reports''), s)
       else if \<not> (int_fits e total_stores \<and> int_fits e online_stores \<and> int_fits e offline_stores)
         then (Inl (int_error e), s)
       else
         (let row = \<lparr>sr_id = next_id (map sr_id (summary_reports (txn s))),
                     sr_total_stores = total_stores, sr_online_stores = online_stores,
                     sr_offline_stores = offline_stores,
                     sr_online_percentage = online_percentage,
                     sr_report_time = current_timestamp e s\<rparr>
          in (Inr (), s\<lparr>txn := (txn s)\<lparr>summary_reports := summary_reports (txn s) @ [row]\<rparr>\<rparr>)))"

subsection \<open>\<^verbatim>\<open>get_or_create_store\<close>\<close>

text \<open>\<^verbatim>\<open>"foodpanda" if "foodpanda.ph" in url else "grabfood"\<close>\<close>

definition platform_of :: "string \<Rightarrow> string" where
  "platform_of url = (if sublist ''foodpanda.ph'' url then ''foodpanda'' else ''grabfood'')"

text \<open>
  One attempt, inside the connection's scope: look the url up and return the id that is
  found; otherwise insert, commit and return the new id.
\<close>

definition get_or_create_store_body :: "string \<Rightarrow> string \<Rightarrow> string \<Rightarrow> int prog" where
  "get_or_create_store_body name url platform s =
     (if db_type s = ''postgresql'' then
        bind_prog (select_store_id Primary url) (\<lambda>result.
          case result of
            Some i \<Rightarrow> ret i
          | None \<Rightarrow>
              bind_prog (insert_store Primary name url platform) (\<lambda>store_id.
              bind_prog (commit Primary) (\<lambda>_. ret store_id)))
      else
        bind_prog (select_store_id Embedded url) (\<lambda>result.
          case result of
            Some i \<Rightarrow> ret i
          | None \<Rightarrow>
              bind_prog (insert_store Embedded name url platform) (\<lambda>store_id.
              bind_prog (commit Embedded) (\<lambda>_. ret store_id)))) s"

text \<open>
  The retry loop over \<^verbatim>\<open>range(self.max_retries)\<close>. When the last attempt fails the method
  raises (the message is shortened here: the source also names the number of attempts).
  A loop that runs out without returning leaves the method with Python's \<^verbatim>\<open>None\<close>, the
  \<open>None\<close> of the result.
\<close>

fun get_or_create_store_attempts ::
    "string \<Rightarrow> string \<Rightarrow> string \<Rightarrow> nat list \<Rightarrow> int option prog" where
  "get_or_create_store_attempts name url platform [] s = (Inr None, s)"
| "get_or_create_store_attempts name url platform (attempt # rest) s =
     (case get_connection (get_or_create_store_body name url platform) s of
        (Inr store_id, s1) \<Rightarrow> (Inr (Some store_id), s1)
      | (Inl e, s1) \<Rightarrow>
          if int attempt < int (max_retries s1) - 1
          then get_or_create_store_attempts name url platform rest (sleep (retry_delay s1) s1)
          else (Inl (PyException (''Failed to create store: '' @ strip (str_of e))), s1))"

definition get_or_create_store :: "string \<Rightarrow> string \<Rightarrow> int option prog" where
  "get_or_create_store name url s =
     get_or_create_store_attempts name url (platform_of url) [0..<max_retries s] s"

subsection \<open>\<^verbatim>\<open>save_status_check\<close>\<close>

text \<open>
  \<^verbatim>\<open>if error_message and len(error_message) > 500: error_message = error_message[:500] + "..."\<close>
\<close>

definition truncate_error_message :: "string option \<Rightarrow> string option" where
  "truncate_error_message error_message =
     (case error_message of
        None \<Rightarrow> None
      | Some m \<Rightarrow> if m \<noteq> [] \<and> 500 < length m then Some (take 500 m @ ''...'') else Some m)"

definition save_status_check_body ::
    "int \<Rightarrow> bool \<Rightarrow> int option \<Rightarrow> string option \<Rightarrow> bool prog" where
  "save_status_check_body store_id is_online response_time_ms error_message s =
     (if db_type s = ''postgresql'' then
        bind_prog (insert_status_check Primary store_id is_online response_time_ms error_message)
          (\<lambda>_. bind_prog (commit Primary) (\<lambda>_. ret True))
      else
        bind_prog (insert_status_check Embedded store_id is_online response_time_ms error_message)
          (\<lambda>_. bind_prog (commit Embedded) (\<lambda>_. ret True))) s"

text \<open>
  The retry loop. The arguments arrive with the types of the signature, so \<^verbatim>\<open>bool(...)\<close>
  and \<^verbatim>\<open>int(...)\<close> leave them as they are. The truncation assigns to the parameter, so a
  later attempt starts from the message the earlier one left. When the last attempt fails
  the method returns \<^verbatim>\<open>False\<close>.
\<close>

fun save_status_check_attempts ::
    "int \<Rightarrow> bool \<Rightarrow> int option \<Rightarrow> string option \<Rightarrow> nat list \<Rightarrow> bool option prog" where
  "save_status_check_attempts store_id is_online response_time_ms error_message [] s =
     (Inr None, s)"
| "save_status_check_attempts store_id is_online response_time_ms error_message
       (attempt # rest) s =
     (let error_message' = truncate_error_message error_message in
      case get_connection
             (save_status_check_body store_id is_online response_time_ms error_message') s of
        (Inr b, s1) \<Rightarrow> (Inr (Some b), s1)
      | (Inl e, s1) \<Rightarrow>
          if int attempt < int (max_retries s1) - 1
          then save_status_check_attempts store_id is_online response_time_ms error_message'
                 rest (sleep (retry_delay s1) s1)
          else (Inr (Some False), s1))"

definition save_status_check ::
    "int \<Rightarrow> bool \<Rightarrow> int option \<Rightarrow> string option \<Rightarrow> bool option prog" where
  "save_status_check store_id is_online response_time_ms error_message s =
     save_status_check_attempts store_id is_online response_time_ms error_message
       [0..<max_retries s] s"

subsection \<open>\<^verbatim>\<open>save_summary_report\<close>\<close>

text \<open>Python's \<^verbatim>\<open>a / b\<close> on integers: a float, or \<^verbatim>\<open>ZeroDivisionError\<close>.\<close>

definition py_truediv :: "int \<Rightarrow> int \<Rightarrow> exn + real" where
  "py_truediv a b =
     (if b = 0 then Inl (ZeroDivisionError ''division by zero'') else Inr (real_of_int a / real_of_int b))"

text \<open>\<^verbatim>\<open>(online_stores / total_stores * 100) if total_stores > 0 else 0\<close>\<close>

definition online_percentage_of :: "int \<Rightarrow> int \<Rightarrow> exn + real" where
  "online_percentage_of total_stores online_stores =
     (if 0 < total_stores
      then (case py_truediv online_stores total_stores of Inl e \<Rightarrow> Inl e | Inr q \<Rightarrow> Inr (q * 100))
      else Inr 0)"

definition save_summary_report_body :: "int \<Rightarrow> int \<Rightarrow> int \<Rightarrow> real \<Rightarrow> bool prog" where
  "save_summary_report_body total_stores online_stores offline_stores online_percentage s =
     (if db_type s = ''postgresql'' then
        bind_prog
          (insert_summary_report Primary total_stores online_stores offline_stores online_percentage)
          (\<lambda>_. bind_prog (commit Primary) (\<lambda>_. ret True))
      else
        bind_prog
          (insert_summary_report Embedded total_stores online_stores offline_stores online_percentage)
          (\<lambda>_. bind_prog (commit Embedded) (\<lambda>_. ret True))) s"

text \<open>
  The retry loop: the percentage is computed inside the \<^verbatim>\<open>try\<close> of each attempt, so an
  exception of the computation counts as a failed attempt.
\<close>

fun save_summary_report_attempts :: "int \<Rightarrow> int \<Rightarrow> int \<Rightarrow> nat list \<Rightarrow> bool option prog" where
  "save_summary_report_attempts total_stores online_stores offline_stores [] s = (Inr None, s)"
| "save_summary_report_attempts total_stores online_stores offline_stores (attempt # rest) s =
     (case (case online_percentage_of total_stores online_stores of
              Inl e \<Rightarrow> (Inl e, s)
            | Inr online_percentage \<Rightarrow>
                get_connection
                  (save_summary_report_body total_stores online_stores offline_stores
                     online_percentage) s) of
        (Inr b, s1) \<Rightarrow> (Inr (Some b), s1)
      | (Inl e, s1) \<Rightarrow>
          if int attempt < int (max_retries s1) - 1
          then save_summary_report_attempts total_stores online_stores offline_stores rest
                 (sleep (retry_delay s1) s1)
          else (Inr (Some False), s1))"

definition save_summary_report :: "int \<Rightarrow> int \<Rightarrow> int \<Rightarrow> bool option prog" where
  "save_summary_report total_stores online_stores offline_stores s =
     save_summary_report_attempts total_stores online_stores offline_stores
       [0..<max_retries s] s"

subsection \<open>Days and hours\<close>

text \<open>\<^verbatim>\<open>DATE(t)\<close> and the hour of the day of a wall-clock reading.\<close>

definition day_of :: "int \<Rightarrow> int" where
  "day_of t = t div 86400"

definition hour_of :: "int \<Rightarrow> int" where
  "hour_of t = (t div 3600) mod 24"

text \<open>
  SQLite: \<^verbatim>\<open>DATE(t, '+8 hours') = DATE('now', '+8 hours')\<close>, both sides shifted by eight
  hours from UTC; \<open>now\<close> is the clock in UTC.
\<close>

definition sqlite_today :: "int \<Rightarrow> int \<Rightarrow> bool" where
  "sqlite_today now t = (day_of (t + 8 * 3600) = day_of (now + 8 * 3600))"

text \<open>
  PostgreSQL: \<^verbatim>\<open>t AT TIME ZONE 'Asia/Manila'\<close> reads the zoneless \<open>t\<close> as a wall clock in
  Manila (eight hours ahead of UTC all year) and gives the instant; \<^verbatim>\<open>DATE\<close> and
  \<^verbatim>\<open>EXTRACT(HOUR FROM ...)\<close> of an instant, and \<^verbatim>\<open>CURRENT_DATE\<close>, are taken on the wall
  clock of the session's time zone, whose offset from UTC is \<open>tz\<close>.
\<close>

definition at_time_zone_manila :: "int \<Rightarrow> int" where
  "at_time_zone_manila t = t - 8 * 3600"

definition pg_local :: "int \<Rightarrow> int \<Rightarrow> int" where
  "pg_local tz t = at_time_zone_manila t + tz"

definition pg_today :: "int \<Rightarrow> int \<Rightarrow> int \<Rightarrow> bool" where
  "pg_today tz now t = (day_of (pg_local tz t) = day_of (now + tz))"

subsection \<open>The read path\<close>

text \<open>
  \<^verbatim>\<open>pd.read_sql_query(query, conn)\<close>: one call to the engine, answering the rows of the
  query on what the connection sees. A data frame is the list of its rows, the empty
  frame \<^verbatim>\<open>pd.DataFrame()\<close> the empty list.
\<close>

definition read_sql_query :: "engine \<Rightarrow> (state \<Rightarrow> exn + 'a) \<Rightarrow> 'a prog" where
  "read_sql_query e query = bind_prog (engine_op e) (\<lambda>_ s. (query s, s))"

text \<open>The engine behind the connection that \<^verbatim>\<open>get_connection\<close> hands out.\<close>

definition active_engine :: "state \<Rightarrow> engine" where
  "active_engine s = (if db_type s = ''postgresql'' then Primary else Embedded)"

text \<open>\<^verbatim>\<open>try: ... except Exception: return fallback\<close>\<close>

definition or_else :: "'a prog \<Rightarrow> 'a \<Rightarrow> 'a prog" where
  "or_else body fallback s =
     (case body s of (Inl e, s') \<Rightarrow> (Inr fallback, s') | (Inr v, s') \<Rightarrow> (Inr v, s'))"

paragraph \<open>\<^verbatim>\<open>get_latest_status\<close>\<close>

record latest_row =
  l_name :: string
  l_url :: string
  l_platform :: string
  l_is_online :: bool
  l_checked_at :: int
  l_response_time_ms :: "int option"

text \<open>
  Every store joined with its checks of the latest time, ordered by name (in the order
  of the character codes; rows of equal name keep the order of the join).
\<close>

definition latest_status_query :: "state \<Rightarrow> exn + latest_row list" where
  "latest_status_query s =
     (let db = txn s in
      if \<not> has_stores db then Inl (missing_table (active_engine s) ''stores'')
      else if \<not> has_status_checks db then Inl (missing_table (active_engine s) ''status_checks'')
      else Inr (sort_key l_name
        [\<lparr>l_name = s_name st, l_url = s_url st, l_platform = s_platform st,
          l_is_online = sc_is_online sc, l_checked_at = sc_checked_at sc,
          l_response_time_ms = sc_response_time_ms sc\<rparr>.
           st \<leftarrow> stores db, sc \<leftarrow> status_checks db,
           s_id st = sc_store_id sc,
           sc_checked_at sc =
             Max (set (map sc_checked_at
               (filter (\<lambda>c. sc_store_id c = sc_store_id sc) (status_checks db))))]))"

definition get_latest_status_try :: "latest_row list prog" where
  "get_latest_status_try s =
     get_connection (read_sql_query (active_engine s) latest_status_query) s"

definition get_latest_status :: "latest_row list prog" where
  "get_latest_status = or_else get_latest_status_try []"

paragraph \<open>\<^verbatim>\<open>get_hourly_data\<close>\<close>

record hourly_row =
  h_hour :: int
  h_online_pct :: int
  h_offline_pct :: int
  h_data_points :: nat

definition sql_avg :: "real list \<Rightarrow> real" where
  "sql_avg xs = sum_list xs / real (length xs)"

text \<open>\<^verbatim>\<open>ROUND(x, 0)\<close>: to the nearest whole number, halves away from zero.\<close>

definition sql_round :: "real \<Rightarrow> int" where
  "sql_round x = (if x < 0 then - \<lfloor>1 / 2 - x\<rfloor> else \<lfloor>x + 1 / 2\<rfloor>)"

text \<open>
  \<^verbatim>\<open>SELECT key, ROUND(AVG(online_percentage)), ROUND(AVG(100 - online_percentage)),
  COUNT(*) ... GROUP BY key ORDER BY key\<close> over the given rows.
\<close>

definition hourly_groups :: "(summary_row \<Rightarrow> int) \<Rightarrow> summary_row list \<Rightarrow> hourly_row list" where
  "hourly_groups key rows =
     map (\<lambda>h. let g = filter (\<lambda>r. key r = h) rows in
            \<lparr>h_hour = h,
             h_online_pct = sql_round (sql_avg (map sr_online_percentage g)),
             h_offline_pct = sql_round (sql_avg (map (\<lambda>r. 100 - sr_online_percentage r) g)),
             h_data_points = length g\<rparr>)
       (sort (remdups (map key rows)))"

text \<open>
  The PostgreSQL query: the hour and the day are taken from
  \<^verbatim>\<open>report_time AT TIME ZONE 'Asia/Manila'\<close>, the day compared with \<^verbatim>\<open>CURRENT_DATE\<close>.
\<close>

definition hourly_rows_pg :: "int \<Rightarrow> int \<Rightarrow> summary_row list \<Rightarrow> hourly_row list" where
  "hourly_rows_pg tz now rows =
     hourly_groups (\<lambda>r. hour_of (pg_local tz (sr_report_time r)))
       (filter (\<lambda>r. pg_today tz now (sr_report_time r)) rows)"

definition hourly_query_pg :: "state \<Rightarrow> exn + hourly_row list" where
  "hourly_query_pg s =
     (if \<not> has_summary_reports (txn s) then Inl (missing_table Primary ''summary_reports'')
      else Inr (hourly_rows_pg (session_tz s) (clock s) (summary_reports (txn s))))"

text \<open>
  The SQLite query: the day is taken from \<^verbatim>\<open>DATE(report_time, '+8 hours')\<close>, the hour from
  \<^verbatim>\<open>strftime('%H', report_time)\<close>, the hour of the stored reading itself (a two-digit
  text in the source, its number here).
\<close>

definition hourly_rows_sqlite :: "int \<Rightarrow> summary_row list \<Rightarrow> hourly_row list" where
  "hourly_rows_sqlite now rows =
     hourly_groups (\<lambda>r. hour_of (sr_report_time r))
       (filter (\<lambda>r. sqlite_today now (sr_report_time r)) rows)"

definition hourly_query_sqlite :: "state \<Rightarrow> exn + hourly_row list" where
  "hourly_query_sqlite s =
     (if \<not> has_summary_reports (txn s) then Inl (missing_table Embedded ''summary_reports'')
      else Inr (hourly_rows_sqlite (clock s) (summary_reports (txn s))))"

definition get_hourly_data_try :: "hourly_row list prog" where
  "get_hourly_data_try s =
     get_connection
       (if db_type s = ''postgresql'' then read_sql_query Primary hourly_query_pg
        else read_sql_query Embedded hourly_query_sqlite) s"

definition get_hourly_data :: "hourly_row list prog" where
  "get_hourly_data = or_else get_hourly_data_try []"

paragraph \<open>\<^verbatim>\<open>get_store_logs\<close>\<close>

record log_row =
  g_name :: string
  g_platform :: string
  g_is_online :: bool
  g_checked_at :: int
  g_response_time_ms :: "int option"

text \<open>
  Today's checks joined with their stores, newest first, cut at \<open>limit\<close>. A negative
  \<^verbatim>\<open>LIMIT\<close> is an error on PostgreSQL and no limit on SQLite.
\<close>

definition store_logs_rows :: "(int \<Rightarrow> bool) \<Rightarrow> database \<Rightarrow> log_row list" where
  "store_logs_rows today db =
     rev (sort_key g_checked_at
       [\<lparr>g_name = s_name st, g_platform = s_platform st, g_is_online = sc_is_online sc,
         g_checked_at = sc_checked_at sc, g_response_time_ms = sc_response_time_ms sc\<rparr>.
          st \<leftarrow> stores db, sc \<leftarrow> status_checks db,
          s_id st = sc_store_id sc, today (sc_checked_at sc)])"

definition store_logs_query :: "engine \<Rightarrow> int \<Rightarrow> state \<Rightarrow> exn + log_row list" where
  "store_logs_query e limit s =
     (let db = txn s in
      if \<not> has_stores db then Inl (missing_table e ''stores'')
      else if \<not> has_status_checks db then Inl (missing_table e ''status_checks'')
      else (case e of
              Primary \<Rightarrow>
                if limit < 0 then Inl (DataError ''LIMIT must not be negative'')
                else if 2 ^ 63 \<le> limit then Inl (DataError ''bigint out of range'')
                else Inr (take (nat limit)
                            (store_logs_rows (pg_today (session_tz s) (clock s)) db))
            | Embedded \<Rightarrow>
                if \<not> int_fits Embedded limit then Inl (int_error Embedded)
                else if limit < 0 then Inr (store_logs_rows (sqlite_today (clock s)) db)
                else Inr (take (nat limit) (store_logs_rows (sqlite_today (clock s)) db))))"

definition get_store_logs_try :: "int \<Rightarrow> log_row list prog" where
  "get_store_logs_try limit s =
     get_connection
       (if db_type s = ''postgresql'' then read_sql_query Primary (store_logs_query Primary limit)
        else read_sql_query Embedded (store_logs_query Embedded limit)) s"

definition get_store_logs :: "int \<Rightarrow> log_row list prog" where
  "get_store_logs limit = or_else (get_store_logs_try limit) []"

paragraph \<open>\<^verbatim>\<open>get_daily_uptime\<close>\<close>

record uptime_row =
  u_name :: string
  u_platform :: string
  u_total_checks :: nat
  u_online_checks :: nat
  u_uptime_percentage :: int

text \<open>
  Per store with a check today: the number of today's checks, of those online, and the
  rounded share; highest share first.
\<close>

definition daily_uptime_rows :: "(int \<Rightarrow> bool) \<Rightarrow> database \<Rightarrow> uptime_row list" where
  "daily_uptime_rows today db =
     rev (sort_key u_uptime_percentage
       [(let cs = filter (\<lambda>sc. sc_store_id sc = s_id st \<and> today (sc_checked_at sc))
                    (status_checks db);
             n = length cs;
             k = length (filter sc_is_online cs)
         in \<lparr>u_name = s_name st, u_platform = s_platform st, u_total_checks = n,
             u_online_checks = k,
             u_uptime_percentage = sql_round (real k * 100 / real n)\<rparr>).
          st \<leftarrow> stores db,
          \<exists>sc \<in> set (status_checks db). sc_store_id sc = s_id st \<and> today (sc_checked_at sc)])"

definition daily_uptime_query :: "engine \<Rightarrow> state \<Rightarrow> exn + uptime_row list" where
  "daily_uptime_query e s =
     (let db = txn s in
      if \<not> has_stores db then Inl (missing_table e ''stores'')
      else if \<not> has_status_checks db then Inl (missing_table e ''status_checks'')
      else Inr (daily_uptime_rows
                  (case e of Primary \<Rightarrow> pg_today (session_tz s) (clock s)
                           | Embedded \<Rightarrow> sqlite_today (clock s)) db))"

definition get_daily_uptime_try :: "uptime_row list prog" where
  "get_daily_uptime_try s =
     get_connection
       (if db_type s = ''postgresql'' then read_sql_query Primary (daily_uptime_query Primary)
        else read_sql_query Embedded (daily_uptime_query Embedded)) s"

definition get_daily_uptime :: "uptime_row list prog" where
  "get_daily_uptime = or_else get_daily_uptime_try []"

paragraph \<open>\<^verbatim>\<open>get_database_stats\<close>\<close>

record stats =
  store_count :: nat
  platforms :: "(string \<times> nat) list"
  total_checks :: nat
  latest_summary :: "summary_row option"
  stats_db_type :: string

text \<open>The four statements of the method, each a call to the engine.\<close>

definition count_stores :: "engine \<Rightarrow> nat prog" where
  "count_stores e =
     bind_prog (engine_op e) (\<lambda>_ s.
       if \<not> has_stores (txn s) then (Inl (missing_table e ''stores''), s)
       else (Inr (length (stores (txn s))), s))"

definition count_by_platform :: "engine \<Rightarrow> (string \<times> nat) list prog" where
  "count_by_platform e =
     bind_prog (engine_op e) (\<lambda>_ s.
       if \<not> has_stores (txn s) then (Inl (missing_table e ''stores''), s)
       else (Inr (map (\<lambda>p. (p, length (filter (\<lambda>r. s_platform r = p) (stores (txn s)))))
                    (sort (remdups (map s_platform (stores (txn s)))))), s))"

definition count_checks :: "engine \<Rightarrow> nat prog" where
  "count_checks e =
     bind_prog (engine_op e) (\<lambda>_ s.
       if \<not> has_status_checks (txn s) then (Inl (missing_table e ''status_checks''), s)
       else (Inr (length (status_checks (txn s))), s))"

text \<open>\<^verbatim>\<open>SELECT * FROM summary_reports ORDER BY report_time DESC LIMIT 1\<close>\<close>

definition select_latest_summary :: "engine \<Rightarrow> summary_row option prog" where
  "select_latest_summary e =
     bind_prog (engine_op e) (\<lambda>_ s.
       if \<not> has_summary_reports (txn s) then (Inl (missing_table e ''summary_reports''), s)
       else (Inr (case rev (sort_key sr_report_time (summary_reports (txn s))) of
                    [] \<Rightarrow> None | r # _ \<Rightarrow> Some r), s))"

text \<open>
  \<^verbatim>\<open>dict(latest_summary) if latest_summary else None\<close>: a row of the SQLite connection is
  a \<^verbatim>\<open>sqlite3.Row\<close>, which \<^verbatim>\<open>dict\<close> accepts; a row of the PostgreSQL connection is a plain
  tuple of column values, which \<^verbatim>\<open>dict\<close> refuses with \<^verbatim>\<open>TypeError\<close>.
\<close>

definition dict_of_row :: "engine \<Rightarrow> summary_row option \<Rightarrow> summary_row option prog" where
  "dict_of_row e latest =
     (case latest of
        None \<Rightarrow> ret None
      | Some r \<Rightarrow>
          (case e of
             Primary \<Rightarrow>
               raise_exn (TypeError ''cannot convert dictionary update sequence element'')
           | Embedded \<Rightarrow> ret (Some r)))"

definition get_database_stats_try :: "stats prog" where
  "get_database_stats_try s =
     get_connection
       (bind_prog (count_stores (active_engine s)) (\<lambda>n.
        bind_prog (count_by_platform (active_engine s)) (\<lambda>ps.
        bind_prog (count_checks (active_engine s)) (\<lambda>k.
        bind_prog (select_latest_summary (active_engine s)) (\<lambda>latest.
        bind_prog (dict_of_row (active_engine s) latest) (\<lambda>d.
        ret \<lparr>store_count = n, platforms = ps, total_checks = k, latest_summary = d,
             stats_db_type = db_type s\<rparr>)))))) s"

definition get_database_stats :: "stats prog" where
  "get_database_stats s =
     or_else get_database_stats_try
       \<lparr>store_count = 0, platforms = [], total_checks = 0, latest_summary = None,
        stats_db_type = db_type s\<rparr> s"

subsection \<open>\<^verbatim>\<open>close\<close>\<close>

text \<open>
  \<^verbatim>\<open>closeall\<close> marks the pool closed; on a pool that is closed already it raises, which
  \<^verbatim>\<open>close\<close> catches and logs.
\<close>

definition close :: "unit prog" where
  "close s =
     (case connection_pool s of
        None \<Rightarrow> (Inr (), s)
      | Some p \<Rightarrow>
          if pool_closed p then (Inr (), s)
          else (Inr (), s\<lparr>connection_pool := Some (Pool (pool_dsn p) True)\<rparr>))"

section \<open>Notions used in the statements and proofs\<close>

text \<open>
  \<open>same_self\<close>: the attributes of the manager, the schedule of failures and the session's
  time zone are the same in both states. \<open>unchanged\<close>: moreover no time has passed.
\<close>

definition same_self :: "state \<Rightarrow> state \<Rightarrow> bool" where
  "same_self s s' \<longleftrightarrow>
     connection_pool s' = connection_pool s \<and> db_type s' = db_type s \<and>
     max_retries s' = max_retries s \<and> retry_delay s' = retry_delay s \<and>
     sqlite_path s' = sqlite_path s \<and> faults s' = faults s \<and> session_tz s' = session_tz s"

definition unchanged :: "state \<Rightarrow> state \<Rightarrow> bool" where
  "unchanged s s' \<longleftrightarrow> same_self s s' \<and> clock s' = clock s \<and> slept s' = slept s"

text \<open>
  What one run of the body of \<^verbatim>\<open>get_or_create_store\<close> does to the committed contents \<open>d\<close>,
  seen from the table \<open>db\<close> of the active engine \<open>e\<close> at time \<open>t\<close>: a failure changes
  nothing; a success returns the id of the row that has the url, or appends a row and
  returns its id.
\<close>

definition store_result ::
    "string \<Rightarrow> string \<Rightarrow> string \<Rightarrow> engine \<Rightarrow> database \<Rightarrow> int \<Rightarrow> exn + int \<Rightarrow>
     (engine \<Rightarrow> database) \<Rightarrow> (engine \<Rightarrow> database) \<Rightarrow> bool" where
  "store_result name url p e db t r d d' =
     (case r of
        Inl _ \<Rightarrow> d' = d
      | Inr i \<Rightarrow>
          (case find (\<lambda>r. s_url r = url) (stores db) of
             Some row \<Rightarrow> i = s_id row \<and> d' = d
           | None \<Rightarrow>
               i = next_id (map s_id (stores db)) \<and>
               d' = d(e := db\<lparr>stores := stores db @
                     [\<lparr>s_id = i, s_name = name, s_url = url, s_platform = p,
                       s_created_at = t\<rparr>]\<rparr>)))"

text \<open>
  Concrete worlds: a database whose schema exists, and a manager on SQLite over it with
  engines that never fail.
\<close>

definition ready_database :: database where
  "ready_database =
     \<lparr>has_stores = True, has_status_checks = True, has_summary_reports = True,
      stores = [], status_checks = [], summary_reports = []\<rparr>"

definition sqlite_world :: state where
  "sqlite_world =
     \<lparr>connection_pool = None, db_type = ''sqlite'', max_retries = 3, retry_delay = 5,
      sqlite_path = Some ''data/store_status.db'',
      faults = (\<lambda>e n. None), calls = (\<lambda>e. 0), data = (\<lambda>e. ready_database),
      txn = ready_database, clock = 0, session_tz = 0, slept = []\<rparr>"

text \<open>
  What one run of the body of \<^verbatim>\<open>save_status_check\<close> and of \<^verbatim>\<open>save_summary_report\<close> does
  to the committed contents: a failure changes nothing, a success returns \<^verbatim>\<open>True\<close> and
  appends the row.
\<close>

definition check_result ::
    "int \<Rightarrow> bool \<Rightarrow> int option \<Rightarrow> string option \<Rightarrow> engine \<Rightarrow> database \<Rightarrow> int \<Rightarrow> exn + bool \<Rightarrow>
     (engine \<Rightarrow> database) \<Rightarrow> (engine \<Rightarrow> database) \<Rightarrow> bool" where
  "check_result store_id is_online response_time_ms error_message e db t r d d' =
     (case r of
        Inl _ \<Rightarrow> d' = d
      | Inr b \<Rightarrow>
          b \<and> d' = d(e := db\<lparr>status_checks := status_checks db @
                 [\<lparr>sc_id = next_id (map sc_id (status_checks db)), sc_store_id = store_id,
                   sc_is_online = is_online, sc_checked_at = t,
                   sc_response_time_ms = response_time_ms,
                   sc_error_message = error_message\<rparr>]\<rparr>))"

definition summary_result ::
    "int \<Rightarrow> int \<Rightarrow> int \<Rightarrow> real \<Rightarrow> engine \<Rightarrow> database \<Rightarrow> int \<Rightarrow> exn + bool \<Rightarrow>
     (engine \<Rightarrow> database) \<Rightarrow> (engine \<Rightarrow> database) \<Rightarrow> bool" where
  "summary_result total_stores online_stores offline_stores online_percentage e db t r d d' =
     (case r of
        Inl _ \<Rightarrow> d' = d
      | Inr b \<Rightarrow>
          b \<and> d' = d(e := db\<lparr>summary_reports := summary_reports db @
                 [\<lparr>sr_id = next_id (map sr_id (summary_reports db)),
                   sr_total_stores = total_stores, sr_online_stores = online_stores,
                   sr_offline_stores = offline_stores,
                   sr_online_percentage = online_percentage, sr_report_time = t\<rparr>]\<rparr>))"

text \<open>
  The three retry loops of the write path follow one pattern: run the attempt; return its
  value; after a failure sleep and go on, unless the attempt was the last, where \<open>final\<close>
  says how the method ends.
\<close>

fun retry :: "'a prog \<Rightarrow> (exn \<Rightarrow> exn + 'a option) \<Rightarrow> nat list \<Rightarrow> 'a option prog" where
  "retry attempt_body final [] s = (Inr None, s)"
| "retry attempt_body final (attempt # rest) s =
     (case attempt_body s of
        (Inr v, s1) \<Rightarrow> (Inr (Some v), s1)
      | (Inl e, s1) \<Rightarrow>
          if int attempt < int (max_retries s1) - 1
          then retry attempt_body final rest (sleep (retry_delay s1) s1)
          else (final e, s1))"

text \<open>A program that leaves the manager's attributes and the schedule as they are.\<close>

definition keeps_self :: "'a prog \<Rightarrow> bool" where
  "keeps_self f \<longleftrightarrow> (\<forall>s. same_self s (snd (f s)))"

text \<open>An engine that refuses every call from now on.\<close>

definition always_failing :: "engine \<Rightarrow> state \<Rightarrow> bool" where
  "always_failing e s \<longleftrightarrow> (\<forall>n. faults s e n \<noteq> None)"

definition broken_world :: state where
  "broken_world =
     \<lparr>connection_pool = None, db_type = ''sqlite'', max_retries = 3, retry_delay = 5,
      sqlite_path = Some ''data/store_status.db'',
      faults = (\<lambda>e n. Some (OperationalError ''disk I/O error'')), calls = (\<lambda>e. 0),
      data = (\<lambda>e. ready_database), txn = ready_database, clock = 0, session_tz = 0,
      slept = []\<rparr>"

text \<open>
  \<open>faulted s s'\<close>: between \<open>s\<close> and \<open>s'\<close> some call to an engine was made and refused.
  \<open>clean f\<close>: \<open>f\<close> only adds calls, leaves the schedule alone, and raises whenever one of
  its calls was refused.
\<close>

definition faulted :: "state \<Rightarrow> state \<Rightarrow> bool" where
  "faulted s s' \<longleftrightarrow> (\<exists>e n. calls s e \<le> n \<and> n < calls s' e \<and> faults s e n \<noteq> None)"

definition clean :: "'a prog \<Rightarrow> bool" where
  "clean f \<longleftrightarrow>
     (\<forall>s. faults (snd (f s)) = faults s \<and> (\<forall>e. calls s e \<le> calls (snd (f s)) e) \<and>
          (faulted s (snd (f s)) \<longrightarrow> (\<exists>x. fst (f s) = Inl x)))"

text \<open>
  The world before the manager is built: two empty engines that never fail, and the same
  world with a PostgreSQL server that cannot be reached. (The attributes are those of no
  manager yet; \<open>init\<close> sets them.)
\<close>

definition fresh_world :: state where
  "fresh_world =
     \<lparr>connection_pool = None, db_type = [], max_retries = 0, retry_delay = 0,
      sqlite_path = None, faults = (\<lambda>e n. None), calls = (\<lambda>e. 0),
      data = (\<lambda>e. empty_database), txn = empty_database, clock = 0, session_tz = 0,
      slept = []\<rparr>"

definition primary_down_world :: state where
  "primary_down_world =
     \<lparr>connection_pool = None, db_type = [], max_retries = 0, retry_delay = 0,
      sqlite_path = None,
      faults = (\<lambda>e n. case e of Primary \<Rightarrow> Some (OperationalError ''could not connect to server'')
                               | Embedded \<Rightarrow> None),
      calls = (\<lambda>e. 0), data = (\<lambda>e. empty_database), txn = empty_database, clock = 0,
      session_tz = 0, slept = []\<rparr>"

text \<open>
  The local calendar day and the local hour of the day, eight hours ahead of UTC, of an
  instant given in seconds of UTC.
\<close>

definition local_day :: "int \<Rightarrow> int" where
  "local_day t = day_of (t + 8 * 3600)"

definition local_hour :: "int \<Rightarrow> int" where
  "local_hour t = hour_of (t + 8 * 3600)"

text \<open>
  Two worlds at 02:00 UTC of day 1 (10:00 local time) that hold the same two summary
  reports, inserted at 01:00:00 and 01:01:00 UTC of that day: a manager on SQLite, and a
  manager on PostgreSQL whose session runs in UTC.
\<close>

definition morning_database :: database where
  "morning_database =
     \<lparr>has_stores = True, has_status_checks = True, has_summary_reports = True,
      stores = [], status_checks = [],
      summary_reports =
        [\<lparr>sr_id = 1, sr_total_stores = 10, sr_online_stores = 8, sr_offline_stores = 2,
          sr_online_percentage = 80, sr_report_time = 90000\<rparr>,
         \<lparr>sr_id = 2, sr_total_stores = 10, sr_online_stores = 7, sr_offline_stores = 3,
          sr_online_percentage = 70, sr_report_time = 90060\<rparr>]\<rparr>"

definition sqlite_morning :: state where
  "sqlite_morning =
     \<lparr>connection_pool = None, db_type = ''sqlite'', max_retries = 3, retry_delay = 5,
      sqlite_path = Some ''data/store_status.db'',
      faults = (\<lambda>e n. None), calls = (\<lambda>e. 0), data = (\<lambda>e. morning_database),
      txn = empty_database, clock = 93600, session_tz = 0, slept = []\<rparr>"

definition postgres_morning :: state where
  "postgres_morning =
     \<lparr>connection_pool = Some (Pool ''postgresql://monitor:secret@db:5432/cocopan'' False),
      db_type = ''postgresql'', max_retries = 3, retry_delay = 5, sqlite_path = None,
      faults = (\<lambda>e n. None), calls = (\<lambda>e. 0), data = (\<lambda>e. morning_database),
      txn = empty_database, clock = 93600, session_tz = 0, slept = []\<rparr>"

text \<open>An engine that accepts every call from now on.\<close>

definition never_failing :: "engine \<Rightarrow> state \<Rightarrow> bool" where
  "never_failing e s \<longleftrightarrow> (\<forall>n. faults s e n = None)"

text \<open>
  A manager on SQLite that has been brought up: the path is known, the loops make at
  least one attempt, the engine accepts every call and the three tables exist.
\<close>

definition sqlite_ready :: "state \<Rightarrow> bool" where
  "sqlite_ready s \<longleftrightarrow>
     db_type s = ''sqlite'' \<and> sqlite_path s \<noteq> None \<and> 0 < max_retries s \<and>
     never_failing Embedded s \<and> has_stores (data s Embedded) \<and>
     has_status_checks (data s Embedded) \<and> has_summary_reports (data s Embedded)"

text \<open>
  The same two reports inserted at 09:00 UTC (17:00 local time) and read at 10:00 UTC by
  a manager on PostgreSQL whose session runs in UTC.
\<close>

definition evening_database :: database where
  "evening_database =
     \<lparr>has_stores = True, has_status_checks = True, has_summary_reports = True,
      stores = [], status_checks = [],
      summary_reports =
        [\<lparr>sr_id = 1, sr_total_stores = 10, sr_online_stores = 8, sr_offline_stores = 2,
          sr_online_percentage = 80, sr_report_time = 118800\<rparr>,
         \<lparr>sr_id = 2, sr_total_stores = 10, sr_online_stores = 7, sr_offline_stores = 3,
          sr_online_percentage = 70, sr_report_time = 118860\<rparr>]\<rparr>"

definition postgres_evening :: state where
  "postgres_evening =
     \<lparr>connection_pool = Some (Pool ''postgresql://monitor:secret@db:5432/cocopan'' False),
      db_type = ''postgresql'', max_retries = 3, retry_delay = 5, sqlite_path = None,
      faults = (\<lambda>e n. None), calls = (\<lambda>e. 0), data = (\<lambda>e. evening_database),
      txn = empty_database, clock = 122400, session_tz = 0, slept = []\<rparr>"

section \<open>Frames and effects of the building blocks\<close>


lemma unchanged_refl: "unchanged s s"
  by (simp add: unchanged_def same_self_def)

lemma unchanged_trans: "unchanged s s1 \<Longrightarrow> unchanged s1 s2 \<Longrightarrow> unchanged s s2"
  by (simp add: unchanged_def same_self_def)

lemma same_self_refl: "same_self s s"
  by (simp add: same_self_def)

lemma same_self_trans: "same_self s s1 \<Longrightarrow> same_self s1 s2 \<Longrightarrow> same_self s s2"
  by (simp add: same_self_def)

lemma unchanged_same_self: "unchanged s s' \<Longrightarrow> same_self s s'"
  by (simp add: unchanged_def)

lemma same_self_sleep: "same_self s (sleep d s)"
  by (simp add: same_self_def sleep_def)

lemma data_sleep: "data (sleep d s) = data s"
  by (simp add: sleep_def)

lemma active_engine_same: "same_self s s' \<Longrightarrow> active_engine s' = active_engine s"
  by (simp add: same_self_def active_engine_def)

lemma current_timestamp_unchanged:
  "unchanged s s' \<Longrightarrow> current_timestamp e s' = current_timestamp e s"
  by (simp add: unchanged_def same_self_def current_timestamp_def split: engine.splits)

lemma bind_prog_cases:
  "bind_prog m k s = (r, s') \<Longrightarrow>
     (\<exists>e. m s = (Inl e, s') \<and> r = Inl e) \<or> (\<exists>v s1. m s = (Inr v, s1) \<and> k v s1 = (r, s'))"
  by (auto simp: bind_prog_def split: prod.splits sum.splits)

lemma ret_spec: "ret v s = (r, s') \<Longrightarrow> r = Inr v \<and> s' = s"
  by (auto simp: ret_def)

lemma engine_op_spec:
  "engine_op e s = (r, s') \<Longrightarrow> unchanged s s' \<and> data s' = data s \<and> txn s' = txn s"
  by (auto simp: engine_op_def unchanged_def same_self_def Let_def split: option.splits)

lemma connect_spec:
  assumes "connect s = (r, s1)"
  shows "unchanged s s1 \<and> data s1 = data s \<and>
         (case r of Inl _ \<Rightarrow> True | Inr _ \<Rightarrow> txn s1 = data s (active_engine s))"
  using assms unfolding connect_def active_engine_def
  by (auto dest!: engine_op_spec simp: unchanged_def same_self_def
           split: if_splits option.splits prod.splits sum.splits)

lemma commit_spec:
  "commit e s = (r, s') \<Longrightarrow> unchanged s s' \<and> txn s' = txn s \<and>
     (case r of Inl _ \<Rightarrow> data s' = data s | Inr _ \<Rightarrow> data s' = (data s)(e := txn s))"
  unfolding commit_def
  by (auto dest!: bind_prog_cases engine_op_spec simp: unchanged_def same_self_def split: sum.splits)


lemma get_connection_cases:
  assumes "get_connection body s = (r, s')"
  shows "(\<exists>x. connect s = (Inl x, s') \<and> r = Inl x) \<or>
         (\<exists>s0 r1. connect s = (Inr (), s0) \<and> body s0 = (r1, s') \<and>
            (case r1 of Inl x \<Rightarrow> \<exists>y. r = Inl y | Inr v \<Rightarrow> r = Inr v))"
  using assms
  by (auto simp: get_connection_def split: prod.splits sum.splits)

lemma select_store_id_spec:
  "select_store_id e url s = (r, s') \<Longrightarrow> unchanged s s' \<and> data s' = data s \<and> txn s' = txn s \<and>
     (case r of Inl _ \<Rightarrow> True
      | Inr v \<Rightarrow> v = map_option s_id (find (\<lambda>r. s_url r = url) (stores (txn s))))"
  unfolding select_store_id_def
  by (auto dest!: bind_prog_cases engine_op_spec split: if_splits)

lemma insert_store_spec:
  "insert_store e name url p s = (r, s') \<Longrightarrow> unchanged s s' \<and> data s' = data s \<and>
     (case r of Inl _ \<Rightarrow> True
      | Inr i \<Rightarrow> i = next_id (map s_id (stores (txn s))) \<and>
        txn s' = (txn s)\<lparr>stores := stores (txn s) @
                     [\<lparr>s_id = i, s_name = name, s_url = url, s_platform = p,
                       s_created_at = current_timestamp e s\<rparr>]\<rparr>)"
  unfolding insert_store_def
  by (auto dest!: bind_prog_cases engine_op_spec simp: unchanged_def same_self_def Let_def current_timestamp_def
           split: if_splits engine.splits)

lemma goc_body_e:
  assumes "bind_prog (select_store_id e url) (\<lambda>result.
          case result of
            Some i \<Rightarrow> ret i
          | None \<Rightarrow>
              bind_prog (insert_store e name url platform) (\<lambda>store_id.
              bind_prog (commit e) (\<lambda>_. ret store_id))) s = (r, s1)"
  shows "unchanged s s1 \<and> store_result name url platform e (txn s) (current_timestamp e s) r (data s) (data s1)"
  using assms unfolding store_result_def
  apply (auto dest!: bind_prog_cases select_store_id_spec split: option.splits)
       apply (auto dest!: bind_prog_cases insert_store_spec commit_spec ret_spec split: option.splits sum.splits
          simp: unchanged_def same_self_def current_timestamp_def split: engine.splits)
  done

lemma goc_body:
  assumes "get_or_create_store_body name url p s = (r, s1)"
  shows "unchanged s s1 \<and>
     store_result name url p (active_engine s) (txn s) (current_timestamp (active_engine s) s) r (data s) (data s1)"
proof (cases "db_type s = ''postgresql''")
  case True
  with assms show ?thesis
    by (simp add: get_or_create_store_body_def active_engine_def goc_body_e)
next
  case False
  with assms show ?thesis
    by (simp add: get_or_create_store_body_def active_engine_def goc_body_e)
qed

lemma store_result_Inl: "store_result name url p e db t (Inl x) d d' \<longleftrightarrow> d' = d"
  by (simp add: store_result_def)

lemma goc_attempt:
  assumes "get_connection (get_or_create_store_body name url p) s = (r, s1)"
  shows "unchanged s s1 \<and>
    store_result name url p (active_engine s) (data s (active_engine s)) (current_timestamp (active_engine s) s) r (data s) (data s1)"
proof -
  from get_connection_cases [OF assms] show ?thesis
  proof (elim disjE exE conjE)
    fix x assume "connect s = (Inl x, s1)" "r = Inl x"
    then show ?thesis by (auto dest!: connect_spec simp: store_result_Inl)
  next
    fix s0 r1
    assume c: "connect s = (Inr (), s0)" and b: "get_or_create_store_body name url p s0 = (r1, s1)"
      and r: "case r1 of Inl x \<Rightarrow> \<exists>y. r = Inl y | Inr v \<Rightarrow> r = Inr v"
    from connect_spec [OF c] have c': "unchanged s s0" "data s0 = data s" "txn s0 = data s (active_engine s)"
      by simp_all
    from goc_body [OF b] have b': "unchanged s0 s1"
      "store_result name url p (active_engine s0) (txn s0) (current_timestamp (active_engine s0) s0) r1 (data s0) (data s1)"
      by simp_all
    from c'(1) have e: "active_engine s0 = active_engine s" "current_timestamp (active_engine s) s0 = current_timestamp (active_engine s) s"
      by (simp_all add: active_engine_same unchanged_same_self current_timestamp_unchanged)
    from c'(1) b'(1) have "unchanged s s1" by (rule unchanged_trans)
    moreover from b'(2) r have "store_result name url p (active_engine s) (data s (active_engine s)) (current_timestamp (active_engine s) s) r (data s) (data s1)"
      by (cases r1) (auto simp: e c' store_result_def)
    ultimately show ?thesis by simp
  qed
qed



lemma goc_attempts_spec:
  "get_or_create_store_attempts name url p xs s = (r, s') \<Longrightarrow>
     same_self s s' \<and>
     (case r of
        Inr (Some i) \<Rightarrow>
          store_result name url p (active_engine s) (data s (active_engine s))
            (current_timestamp (active_engine s) s') (Inr i) (data s) (data s')
      | _ \<Rightarrow> data s' = data s)"
proof (induction xs arbitrary: s)
  case Nil
  then show ?case by (auto simp: same_self_refl)
next
  case (Cons attempt rest)
  obtain r1 s1 where a: "get_connection (get_or_create_store_body name url p) s = (r1, s1)"
    by (cases "get_connection (get_or_create_store_body name url p) s")
  note sp = goc_attempt [OF a]
  then have u: "unchanged s s1" by simp
  show ?case
  proof (cases r1)
    case (Inr i)
    with Cons.prems a have "r = Inr (Some i)" "s' = s1" by simp_all
    with sp Inr current_timestamp_unchanged [of s s1 "active_engine s"] show ?thesis
      by (simp add: unchanged_same_self)
  next
    case (Inl x)
    with sp have d: "data s1 = data s" by (simp add: store_result_Inl)
    show ?thesis
    proof (cases "int attempt < int (max_retries s1) - 1")
      case True
      with Cons.prems a Inl
      have "get_or_create_store_attempts name url p rest (sleep (retry_delay s1) s1) = (r, s')"
        by simp
      from Cons.IH [OF this] u d show ?thesis
        by (auto simp: data_sleep active_engine_same [OF same_self_sleep]
              active_engine_same [OF unchanged_same_self]
              intro: same_self_trans [OF unchanged_same_self [OF u]] same_self_trans [OF same_self_sleep]
              split: sum.splits option.splits)
    next
      case False
      with Cons.prems a Inl have "\<exists>y. r = Inl y" "s' = s1" by auto
      with u d show ?thesis by (auto simp: unchanged_same_self)
    qed
  qed
qed

subsection \<open>One attempt of \<^verbatim>\<open>save_status_check\<close>\<close>

lemma insert_status_check_spec:
  "insert_status_check e store_id is_online response_time_ms error_message s = (r, s') \<Longrightarrow>
     unchanged s s' \<and> data s' = data s \<and>
     (case r of Inl _ \<Rightarrow> True
      | Inr _ \<Rightarrow>
        txn s' = (txn s)\<lparr>status_checks := status_checks (txn s) @
                 [\<lparr>sc_id = next_id (map sc_id (status_checks (txn s))), sc_store_id = store_id,
                   sc_is_online = is_online, sc_checked_at = current_timestamp e s,
                   sc_response_time_ms = response_time_ms,
                   sc_error_message = error_message\<rparr>]\<rparr>)"
  unfolding insert_status_check_def
  by (auto dest!: bind_prog_cases engine_op_spec
           simp: unchanged_def same_self_def Let_def current_timestamp_def
           split: if_splits engine.splits)

lemma check_result_Inl:
  "check_result store_id is_online response_time_ms error_message e db t (Inl x) d d' \<longleftrightarrow> d' = d"
  by (simp add: check_result_def)

lemma save_status_check_body_e:
  assumes "bind_prog (insert_status_check e store_id is_online response_time_ms error_message)
             (\<lambda>_. bind_prog (commit e) (\<lambda>_. ret True)) s = (r, s1)"
  shows "unchanged s s1 \<and>
         check_result store_id is_online response_time_ms error_message e (txn s)
           (current_timestamp e s) r (data s) (data s1)"
  using assms unfolding check_result_def
  by (auto dest!: bind_prog_cases insert_status_check_spec commit_spec ret_spec
           split: sum.splits intro: unchanged_trans)

lemma save_status_check_body_spec:
  assumes "save_status_check_body store_id is_online response_time_ms error_message s = (r, s1)"
  shows "unchanged s s1 \<and>
         check_result store_id is_online response_time_ms error_message (active_engine s) (txn s)
           (current_timestamp (active_engine s) s) r (data s) (data s1)"
proof (cases "db_type s = ''postgresql''")
  case True
  with assms show ?thesis
    by (simp add: save_status_check_body_def active_engine_def save_status_check_body_e)
next
  case False
  with assms show ?thesis
    by (simp add: save_status_check_body_def active_engine_def save_status_check_body_e)
qed

lemma save_status_check_attempt:
  assumes "get_connection
             (save_status_check_body store_id is_online response_time_ms error_message) s = (r, s1)"
  shows "unchanged s s1 \<and>
         check_result store_id is_online response_time_ms error_message (active_engine s)
           (data s (active_engine s)) (current_timestamp (active_engine s) s) r (data s) (data s1)"
proof -
  from get_connection_cases [OF assms] show ?thesis
  proof (elim disjE exE conjE)
    fix x assume "connect s = (Inl x, s1)" "r = Inl x"
    then show ?thesis by (auto dest!: connect_spec simp: check_result_Inl)
  next
    fix s0 r1
    assume c: "connect s = (Inr (), s0)"
      and b: "save_status_check_body store_id is_online response_time_ms error_message s0 = (r1, s1)"
      and r: "case r1 of Inl x \<Rightarrow> \<exists>y. r = Inl y | Inr v \<Rightarrow> r = Inr v"
    from connect_spec [OF c]
    have c': "unchanged s s0" "data s0 = data s" "txn s0 = data s (active_engine s)"
      by simp_all
    from save_status_check_body_spec [OF b]
    have b': "unchanged s0 s1"
      "check_result store_id is_online response_time_ms error_message (active_engine s0) (txn s0)
         (current_timestamp (active_engine s0) s0) r1 (data s0) (data s1)"
      by simp_all
    from c'(1) have e: "active_engine s0 = active_engine s"
      "current_timestamp (active_engine s) s0 = current_timestamp (active_engine s) s"
      by (simp_all add: active_engine_same unchanged_same_self current_timestamp_unchanged)
    from c'(1) b'(1) have "unchanged s s1" by (rule unchanged_trans)
    moreover from b'(2) r
    have "check_result store_id is_online response_time_ms error_message (active_engine s)
            (data s (active_engine s)) (current_timestamp (active_engine s) s) r (data s) (data s1)"
      by (cases r1) (auto simp: e c' check_result_def)
    ultimately show ?thesis by simp
  qed
qed

lemma truncate_error_message_idem:
  "truncate_error_message (truncate_error_message m) = truncate_error_message m"
  by (auto simp: truncate_error_message_def split: option.splits)

lemma save_status_check_attempts_spec:
  "save_status_check_attempts store_id is_online response_time_ms error_message xs s = (r, s') \<Longrightarrow>
     same_self s s' \<and>
     (case r of
        Inr (Some True) \<Rightarrow>
          check_result store_id is_online response_time_ms (truncate_error_message error_message)
            (active_engine s) (data s (active_engine s)) (current_timestamp (active_engine s) s')
            (Inr True) (data s) (data s')
      | _ \<Rightarrow> data s' = data s)"
proof (induction xs arbitrary: s error_message)
  case Nil
  then show ?case by (auto simp: same_self_refl)
next
  case (Cons attempt rest)
  let ?m = "truncate_error_message error_message"
  obtain r1 s1 where a: "get_connection
      (save_status_check_body store_id is_online response_time_ms ?m) s = (r1, s1)"
    by (cases "get_connection (save_status_check_body store_id is_online response_time_ms ?m) s")
  note sp = save_status_check_attempt [OF a]
  then have u: "unchanged s s1" by simp
  show ?case
  proof (cases r1)
    case (Inr b)
    with Cons.prems a have "r = Inr (Some b)" "s' = s1" by (simp_all add: Let_def)
    moreover from sp Inr have "b" by (simp add: check_result_def)
    ultimately show ?thesis
      using sp Inr current_timestamp_unchanged [of s s1 "active_engine s"]
      by (simp add: unchanged_same_self)
  next
    case (Inl x)
    with sp have d: "data s1 = data s" by (simp add: check_result_Inl)
    show ?thesis
    proof (cases "int attempt < int (max_retries s1) - 1")
      case True
      with Cons.prems a Inl
      have "save_status_check_attempts store_id is_online response_time_ms ?m rest
              (sleep (retry_delay s1) s1) = (r, s')"
        by (simp add: Let_def)
      from Cons.IH [OF this] u d show ?thesis
        by (auto simp: data_sleep active_engine_same [OF same_self_sleep]
              active_engine_same [OF unchanged_same_self] truncate_error_message_idem
              intro: same_self_trans [OF unchanged_same_self [OF u]]
                same_self_trans [OF same_self_sleep]
              split: sum.splits option.splits bool.splits)
    next
      case False
      with Cons.prems a Inl have "r = Inr (Some False)" "s' = s1" by (auto simp: Let_def)
      with u d show ?thesis by (auto simp: unchanged_same_self)
    qed
  qed
qed

subsection \<open>One attempt of \<^verbatim>\<open>save_summary_report\<close>\<close>

lemma online_percentage_of_eq:
  "online_percentage_of total_stores online_stores =
     Inr (if 0 < total_stores then real_of_int online_stores / real_of_int total_stores * 100 else 0)"
  by (simp add: online_percentage_of_def py_truediv_def)

lemma insert_summary_report_spec:
  "insert_summary_report e total_stores online_stores offline_stores online_percentage s = (r, s') \<Longrightarrow>
     unchanged s s' \<and> data s' = data s \<and>
     (case r of Inl _ \<Rightarrow> True
      | Inr _ \<Rightarrow>
        txn s' = (txn s)\<lparr>summary_reports := summary_reports (txn s) @
                 [\<lparr>sr_id = next_id (map sr_id (summary_reports (txn s))),
                   sr_total_stores = total_stores, sr_online_stores = online_stores,
                   sr_offline_stores = offline_stores,
                   sr_online_percentage = online_percentage,
                   sr_report_time = current_timestamp e s\<rparr>]\<rparr>)"
  unfolding insert_summary_report_def
  by (auto dest!: bind_prog_cases engine_op_spec
           simp: unchanged_def same_self_def Let_def current_timestamp_def
           split: if_splits engine.splits)

lemma summary_result_Inl:
  "summary_result total_stores online_stores offline_stores online_percentage e db t (Inl x) d d'
     \<longleftrightarrow> d' = d"
  by (simp add: summary_result_def)

lemma save_summary_report_body_e:
  assumes "bind_prog
             (insert_summary_report e total_stores online_stores offline_stores online_percentage)
             (\<lambda>_. bind_prog (commit e) (\<lambda>_. ret True)) s = (r, s1)"
  shows "unchanged s s1 \<and>
         summary_result total_stores online_stores offline_stores online_percentage e (txn s)
           (current_timestamp e s) r (data s) (data s1)"
  using assms unfolding summary_result_def
  by (auto dest!: bind_prog_cases insert_summary_report_spec commit_spec ret_spec
           split: sum.splits intro: unchanged_trans)

lemma save_summary_report_body_spec:
  assumes "save_summary_report_body total_stores online_stores offline_stores online_percentage s
             = (r, s1)"
  shows "unchanged s s1 \<and>
         summary_result total_stores online_stores offline_stores online_percentage
           (active_engine s) (txn s) (current_timestamp (active_engine s) s) r (data s) (data s1)"
proof (cases "db_type s = ''postgresql''")
  case True
  with assms show ?thesis
    by (simp add: save_summary_report_body_def active_engine_def save_summary_report_body_e)
next
  case False
  with assms show ?thesis
    by (simp add: save_summary_report_body_def active_engine_def save_summary_report_body_e)
qed

lemma save_summary_report_attempt:
  assumes "get_connection
             (save_summary_report_body total_stores online_stores offline_stores online_percentage) s
             = (r, s1)"
  shows "unchanged s s1 \<and>
         summary_result total_stores online_stores offline_stores online_percentage
           (active_engine s) (data s (active_engine s)) (current_timestamp (active_engine s) s)
           r (data s) (data s1)"
proof -
  from get_connection_cases [OF assms] show ?thesis
  proof (elim disjE exE conjE)
    fix x assume "connect s = (Inl x, s1)" "r = Inl x"
    then show ?thesis by (auto dest!: connect_spec simp: summary_result_Inl)
  next
    fix s0 r1
    assume c: "connect s = (Inr (), s0)"
      and b: "save_summary_report_body total_stores online_stores offline_stores
                online_percentage s0 = (r1, s1)"
      and r: "case r1 of Inl x \<Rightarrow> \<exists>y. r = Inl y | Inr v \<Rightarrow> r = Inr v"
    from connect_spec [OF c]
    have c': "unchanged s s0" "data s0 = data s" "txn s0 = data s (active_engine s)"
      by simp_all
    from save_summary_report_body_spec [OF b]
    have b': "unchanged s0 s1"
      "summary_result total_stores online_stores offline_stores online_percentage
         (active_engine s0) (txn s0) (current_timestamp (active_engine s0) s0) r1
         (data s0) (data s1)"
      by simp_all
    from c'(1) have e: "active_engine s0 = active_engine s"
      "current_timestamp (active_engine s) s0 = current_timestamp (active_engine s) s"
      by (simp_all add: active_engine_same unchanged_same_self current_timestamp_unchanged)
    from c'(1) b'(1) have "unchanged s s1" by (rule unchanged_trans)
    moreover from b'(2) r
    have "summary_result total_stores online_stores offline_stores online_percentage
            (active_engine s) (data s (active_engine s)) (current_timestamp (active_engine s) s)
            r (data s) (data s1)"
      by (cases r1) (auto simp: e c' summary_result_def)
    ultimately show ?thesis by simp
  qed
qed

lemma save_summary_report_attempts_spec:
  "save_summary_report_attempts total_stores online_stores offline_stores xs s = (r, s') \<Longrightarrow>
     same_self s s' \<and>
     (case r of
        Inr (Some True) \<Rightarrow>
          summary_result total_stores online_stores offline_stores
            (if 0 < total_stores
             then real_of_int online_stores / real_of_int total_stores * 100 else 0)
            (active_engine s) (data s (active_engine s)) (current_timestamp (active_engine s) s')
            (Inr True) (data s) (data s')
      | _ \<Rightarrow> data s' = data s)"
proof (induction xs arbitrary: s)
  case Nil
  then show ?case by (auto simp: same_self_refl)
next
  case (Cons attempt rest)
  let ?p = "if 0 < total_stores
            then real_of_int online_stores / real_of_int total_stores * 100 else 0"
  obtain r1 s1 where a: "get_connection
      (save_summary_report_body total_stores online_stores offline_stores ?p) s = (r1, s1)"
    by (cases "get_connection
      (save_summary_report_body total_stores online_stores offline_stores ?p) s")
  note sp = save_summary_report_attempt [OF a]
  then have u: "unchanged s s1" by simp
  show ?case
  proof (cases r1)
    case (Inr b)
    with Cons.prems a have "r = Inr (Some b)" "s' = s1"
      by (simp_all add: online_percentage_of_eq)
    moreover from sp Inr have "b" by (simp add: summary_result_def)
    ultimately show ?thesis
      using sp Inr current_timestamp_unchanged [of s s1 "active_engine s"]
      by (simp add: unchanged_same_self)
  next
    case (Inl x)
    with sp have d: "data s1 = data s" by (simp add: summary_result_Inl)
    show ?thesis
    proof (cases "int attempt < int (max_retries s1) - 1")
      case True
      with Cons.prems a Inl
      have "save_summary_report_attempts total_stores online_stores offline_stores rest
              (sleep (retry_delay s1) s1) = (r, s')"
        by (simp add: online_percentage_of_eq)
      from Cons.IH [OF this] u d show ?thesis
        by (auto simp: data_sleep active_engine_same [OF same_self_sleep]
              active_engine_same [OF unchanged_same_self]
              intro: same_self_trans [OF unchanged_same_self [OF u]]
                same_self_trans [OF same_self_sleep]
              split: sum.splits option.splits bool.splits)
    next
      case False
      with Cons.prems a Inl have "r = Inr (Some False)" "s' = s1"
        by (auto simp: online_percentage_of_eq)
      with u d show ?thesis by (auto simp: unchanged_same_self)
    qed
  qed
qed

subsection \<open>The retry loops\<close>

lemma get_or_create_store_attempts_retry:
  "get_or_create_store_attempts name url p xs s =
     retry (get_connection (get_or_create_store_body name url p))
       (\<lambda>e. Inl (PyException (''Failed to create store: '' @ strip (str_of e)))) xs s"
  by (induction xs arbitrary: s) (auto split: prod.splits sum.splits)

lemma save_status_check_attempts_retry:
  "save_status_check_attempts store_id is_online response_time_ms error_message xs s =
     retry (get_connection (save_status_check_body store_id is_online response_time_ms
              (truncate_error_message error_message)))
       (\<lambda>e. Inr (Some False)) xs s"
  by (induction xs arbitrary: s error_message)
     (auto simp: Let_def truncate_error_message_idem split: prod.splits sum.splits)

lemma save_summary_report_attempts_retry:
  "save_summary_report_attempts total_stores online_stores offline_stores xs s =
     retry (get_connection (save_summary_report_body total_stores online_stores offline_stores
              (if 0 < total_stores
               then real_of_int online_stores / real_of_int total_stores * 100 else 0)))
       (\<lambda>e. Inr (Some False)) xs s"
  by (induction xs arbitrary: s)
     (auto simp: online_percentage_of_eq split: prod.splits sum.splits)

lemma keeps_selfD: "keeps_self f \<Longrightarrow> f s = (r, s') \<Longrightarrow> same_self s s'"
  by (auto simp: keeps_self_def dest: spec [of _ s])

lemma retry_same_self:
  assumes frame: "keeps_self attempt_body"
  shows "retry attempt_body final xs s = (r, s') \<Longrightarrow> same_self s s'"
proof (induction xs arbitrary: s)
  case Nil
  then show ?case by (simp add: same_self_refl)
next
  case (Cons attempt rest)
  obtain r1 s1 where a: "attempt_body s = (r1, s1)" by (cases "attempt_body s")
  from keeps_selfD [OF frame a] have f: "same_self s s1" .
  show ?case
  proof (cases "\<exists>x. r1 = Inl x \<and> int attempt < int (max_retries s1) - 1")
    case True
    with Cons.prems a
    have "retry attempt_body final rest (sleep (retry_delay s1) s1) = (r, s')" by auto
    from Cons.IH [OF this] f show ?thesis
      by (blast intro: same_self_trans same_self_sleep)
  next
    case False
    with Cons.prems a have "s' = s1" by (cases r1) (auto split: if_splits)
    with f show ?thesis by simp
  qed
qed

text \<open>
  Run over \<^verbatim>\<open>range(max_retries)\<close> with at least one attempt ahead, a loop ends in the value
  of an attempt or in what \<open>final\<close> makes of the last failure: it does not run out.
\<close>

lemma retry_ends:
  assumes frame: "keeps_self attempt_body"
  shows "[k..<max_retries s] = xs \<Longrightarrow> k < max_retries s \<Longrightarrow>
     (\<exists>v s'. retry attempt_body final xs s = (Inr (Some v), s')) \<or>
     (\<exists>e s'. retry attempt_body final xs s = (final e, s'))"
proof (induction xs arbitrary: k s)
  case Nil
  then show ?case by simp
next
  case (Cons attempt rest)
  from Cons.prems have k: "attempt = k" and rest: "[Suc k..<max_retries s] = rest"
    by (auto simp: upt_eq_Cons_conv)
  obtain r1 s1 where a: "attempt_body s = (r1, s1)" by (cases "attempt_body s")
  from keeps_selfD [OF frame a] have m: "max_retries s1 = max_retries s"
    by (simp add: same_self_def)
  show ?case
  proof (cases r1)
    case (Inr v)
    with a show ?thesis by simp
  next
    case (Inl x)
    show ?thesis
    proof (cases "int attempt < int (max_retries s1) - 1")
      case True
      with k m have "Suc k < max_retries (sleep (retry_delay s1) s1)"
        by (simp add: sleep_def)
      moreover from rest m have "[Suc k..<max_retries (sleep (retry_delay s1) s1)] = rest"
        by (simp add: sleep_def)
      ultimately show ?thesis
        using Cons.IH [of "Suc k" "sleep (retry_delay s1) s1"] a Inl True by simp
    next
      case False
      with a Inl show ?thesis by auto
    qed
  qed
qed

text \<open>
  If every attempt fails while the active engine refuses every call, the loop ends with
  \<open>final\<close>.
\<close>

lemma always_failing_same:
  "same_self s s' \<Longrightarrow> always_failing (active_engine s) s \<Longrightarrow>
   always_failing (active_engine s') s'"
  by (simp add: always_failing_def same_self_def active_engine_def)

lemma retry_exhausted:
  assumes frame: "keeps_self attempt_body"
    and fails: "\<forall>s. always_failing (active_engine s) s \<longrightarrow> (\<exists>x s'. attempt_body s = (Inl x, s'))"
  shows "[k..<max_retries s] = xs \<Longrightarrow> k < max_retries s \<Longrightarrow>
     always_failing (active_engine s) s \<Longrightarrow>
     \<exists>e s'. retry attempt_body final xs s = (final e, s')"
proof (induction xs arbitrary: k s)
  case Nil
  then show ?case by simp
next
  case (Cons attempt rest)
  from Cons.prems have k: "attempt = k" and rest: "[Suc k..<max_retries s] = rest"
    by (auto simp: upt_eq_Cons_conv)
  from fails Cons.prems(3) obtain x s1 where a: "attempt_body s = (Inl x, s1)"
    by blast
  from keeps_selfD [OF frame a] have f: "same_self s s1" .
  then have m: "max_retries s1 = max_retries s" by (simp add: same_self_def)
  from f Cons.prems(3) have p: "always_failing (active_engine s1) s1"
    by (rule always_failing_same)
  show ?case
  proof (cases "int attempt < int (max_retries s1) - 1")
    case True
    with k m have "Suc k < max_retries (sleep (retry_delay s1) s1)"
      by (simp add: sleep_def)
    moreover from rest m have "[Suc k..<max_retries (sleep (retry_delay s1) s1)] = rest"
      by (simp add: sleep_def)
    moreover from p have "always_failing (active_engine (sleep (retry_delay s1) s1))
        (sleep (retry_delay s1) s1)"
      by (blast intro: always_failing_same same_self_sleep)
    ultimately show ?thesis
      using Cons.IH [of "Suc k" "sleep (retry_delay s1) s1"] a True by simp
  next
    case False
    with a show ?thesis by auto
  qed
qed

subsection \<open>Attempts against an engine that is down\<close>

lemma connect_always_failing:
  assumes "always_failing (active_engine s) s"
  shows "\<exists>x s1. connect s = (Inl x, s1)"
proof (cases "db_type s = ''postgresql''")
  case True
  with assms obtain x where "faults s Primary (calls s Primary) = Some x"
    by (auto simp: always_failing_def active_engine_def)
  with True show ?thesis
    by (auto simp: connect_def engine_op_def Let_def split: option.splits)
next
  case False
  with assms obtain x where "faults s Embedded (calls s Embedded) = Some x"
    by (auto simp: always_failing_def active_engine_def)
  with False show ?thesis
    by (auto simp: connect_def engine_op_def Let_def split: option.splits)
qed

lemma get_connection_always_failing:
  "\<forall>s. always_failing (active_engine s) s \<longrightarrow> (\<exists>x s1. get_connection body s = (Inl x, s1))"
proof (intro allI impI)
  fix s assume "always_failing (active_engine s) s"
  from connect_always_failing [OF this] obtain x s1 where "connect s = (Inl x, s1)"
    by blast
  then show "\<exists>x s1. get_connection body s = (Inl x, s1)"
    by (auto simp: get_connection_def)
qed

lemma keeps_self_store_attempt:
  "keeps_self (get_connection (get_or_create_store_body name url p))"
  unfolding keeps_self_def
proof
  fix s
  obtain r s' where a: "get_connection (get_or_create_store_body name url p) s = (r, s')"
    by (cases "get_connection (get_or_create_store_body name url p) s")
  from goc_attempt [OF a] a
  show "same_self s (snd (get_connection (get_or_create_store_body name url p) s))"
    by (simp add: unchanged_same_self)
qed

lemma keeps_self_check_attempt:
  "keeps_self (get_connection
     (save_status_check_body store_id is_online response_time_ms error_message))"
  unfolding keeps_self_def
proof
  fix s
  let ?f = "get_connection
     (save_status_check_body store_id is_online response_time_ms error_message)"
  obtain r s' where a: "?f s = (r, s')" by (cases "?f s")
  from save_status_check_attempt [OF a] a show "same_self s (snd (?f s))"
    by (simp add: unchanged_same_self)
qed

lemma keeps_self_summary_attempt:
  "keeps_self (get_connection
     (save_summary_report_body total_stores online_stores offline_stores online_percentage))"
  unfolding keeps_self_def
proof
  fix s
  let ?f = "get_connection
     (save_summary_report_body total_stores online_stores offline_stores online_percentage)"
  obtain r s' where a: "?f s = (r, s')" by (cases "?f s")
  from save_summary_report_attempt [OF a] a show "same_self s (snd (?f s))"
    by (simp add: unchanged_same_self)
qed

subsection \<open>Looking a url up\<close>

lemma filter_url_le_one:
  "distinct (map f xs) \<Longrightarrow> length (filter (\<lambda>r. f r = u) xs) \<le> 1"
proof (induction xs)
  case Nil
  then show ?case by simp
next
  case (Cons x xs)
  show ?case
  proof (cases "f x = u")
    case True
    have "f r \<noteq> u" if "r \<in> set xs" for r
      using that Cons.prems True by (auto simp: image_iff)
    then have "filter (\<lambda>r. f r = u) xs = []"
      by (simp add: filter_empty_conv)
    with True show ?thesis by simp
  next
    case False
    with Cons show ?thesis by simp
  qed
qed

lemma find_Some_filter:
  "find P xs = Some r \<Longrightarrow> P r \<and> r \<in> set xs \<and> filter P xs \<noteq> []"
  by (induction xs) (auto split: if_splits)

lemma filter_url_one:
  assumes "distinct (map f xs)" and "find (\<lambda>r. f r = u) xs = Some r"
  shows "length (filter (\<lambda>r. f r = u) xs) = 1"
proof -
  from find_Some_filter [OF assms(2)] have "0 < length (filter (\<lambda>r. f r = u) xs)" by simp
  with filter_url_le_one [OF assms(1), of u] show ?thesis by linarith
qed

lemma find_append_new:
  "find P xs = None \<Longrightarrow> P x \<Longrightarrow> find P (xs @ [x]) = Some x"
  by (induction xs) (auto split: if_splits)

subsection \<open>What leaves the manager's attributes alone\<close>

lemma keeps_selfI: "(\<And>s. same_self s (snd (f s))) \<Longrightarrow> keeps_self f"
  by (simp add: keeps_self_def)

lemma keeps_self_snd: "keeps_self f \<Longrightarrow> same_self s (snd (f s))"
  by (simp add: keeps_self_def)

lemma keeps_self_ret: "keeps_self (ret v)"
  by (simp add: keeps_self_def ret_def same_self_refl)

lemma keeps_self_raise_exn: "keeps_self (raise_exn e)"
  by (simp add: keeps_self_def raise_exn_def same_self_refl)

lemma keeps_self_engine_op: "keeps_self (engine_op e)"
  by (auto simp: keeps_self_def engine_op_def Let_def same_self_def split: option.splits)

lemma keeps_self_bind_prog:
  assumes "keeps_self m" and "\<And>v. keeps_self (k v)"
  shows "keeps_self (bind_prog m k)"
proof (rule keeps_selfI)
  fix s
  obtain r s1 where m: "m s = (r, s1)" by (cases "m s")
  from keeps_selfD [OF assms(1) m] have 1: "same_self s s1" .
  show "same_self s (snd (bind_prog m k s))"
  proof (cases r)
    case (Inl e)
    with m 1 show ?thesis by (simp add: bind_prog_def)
  next
    case (Inr v)
    from keeps_self_snd [OF assms(2), of s1 v] 1 m Inr show ?thesis
      by (auto simp: bind_prog_def intro: same_self_trans)
  qed
qed

lemma keeps_self_pure: "keeps_self (\<lambda>s. (f s, s))"
  by (simp add: keeps_self_def same_self_refl)

lemma keeps_self_same: "(\<And>s. snd (f s) = s) \<Longrightarrow> keeps_self f"
  by (simp add: keeps_self_def same_self_refl)

lemma keeps_self_txn: "keeps_self (\<lambda>s. (f s, s\<lparr>txn := g s\<rparr>))"
  by (simp add: keeps_self_def same_self_def)

lemma keeps_self_commit: "keeps_self (commit e)"
  unfolding commit_def
  by (intro keeps_self_bind_prog keeps_self_engine_op)
     (simp add: keeps_self_def same_self_def)

lemma keeps_self_connect: "keeps_self connect"
proof (rule keeps_selfI)
  fix s
  obtain r s1 where c: "connect s = (r, s1)" by (cases "connect s")
  from connect_spec [OF c] c show "same_self s (snd (connect s))"
    by (simp add: unchanged_same_self)
qed

lemma keeps_self_get_connection:
  assumes "keeps_self body"
  shows "keeps_self (get_connection body)"
proof (rule keeps_selfI)
  fix s
  obtain r s1 where c: "connect s = (r, s1)" by (cases "connect s")
  from keeps_selfD [OF keeps_self_connect c] have 1: "same_self s s1" .
  show "same_self s (snd (get_connection body s))"
  proof (cases r)
    case (Inl e)
    with c 1 show ?thesis by (simp add: get_connection_def)
  next
    case (Inr v)
    from keeps_self_snd [OF assms, of s1] 1 c Inr show ?thesis
      by (auto simp: get_connection_def intro: same_self_trans split: prod.splits sum.splits)
  qed
qed

lemma keeps_self_or_else:
  assumes "keeps_self body"
  shows "keeps_self (or_else body fallback)"
proof (rule keeps_selfI)
  fix s
  from keeps_self_snd [OF assms, of s] show "same_self s (snd (or_else body fallback s))"
    by (auto simp: or_else_def split: prod.splits sum.splits)
qed

lemma keeps_self_read_sql_query: "keeps_self (read_sql_query e query)"
  unfolding read_sql_query_def
  by (intro keeps_self_bind_prog keeps_self_engine_op keeps_self_pure)

lemma keeps_self_create_table: "keeps_self (create_table e t)"
  unfolding create_table_def
  by (intro keeps_self_bind_prog keeps_self_engine_op)
     (simp add: keeps_self_def same_self_def)

lemma keeps_self_create_tables: "keeps_self create_tables"
proof (rule keeps_selfI)
  fix s
  show "same_self s (snd (create_tables s))"
    unfolding create_tables_def
    by (intro keeps_self_snd keeps_self_get_connection)
       (auto intro!: keeps_self_bind_prog keeps_self_create_table keeps_self_commit)
qed

lemma keeps_self_if: "keeps_self f \<Longrightarrow> keeps_self g \<Longrightarrow> keeps_self (if b then f else g)"
  by simp

lemma keeps_self_get_latest_status: "keeps_self get_latest_status"
  unfolding get_latest_status_def
proof (rule keeps_self_or_else, rule keeps_selfI)
  fix s
  show "same_self s (snd (get_latest_status_try s))"
    unfolding get_latest_status_try_def
    by (intro keeps_self_snd keeps_self_get_connection keeps_self_read_sql_query)
qed

lemma keeps_self_get_hourly_data: "keeps_self get_hourly_data"
  unfolding get_hourly_data_def
proof (rule keeps_self_or_else, rule keeps_selfI)
  fix s
  show "same_self s (snd (get_hourly_data_try s))"
    unfolding get_hourly_data_try_def
    by (intro keeps_self_snd keeps_self_get_connection keeps_self_if keeps_self_read_sql_query)
qed

lemma keeps_self_get_store_logs: "keeps_self (get_store_logs limit)"
  unfolding get_store_logs_def
proof (rule keeps_self_or_else, rule keeps_selfI)
  fix s
  show "same_self s (snd (get_store_logs_try limit s))"
    unfolding get_store_logs_try_def
    by (intro keeps_self_snd keeps_self_get_connection keeps_self_if keeps_self_read_sql_query)
qed

lemma keeps_self_get_daily_uptime: "keeps_self get_daily_uptime"
  unfolding get_daily_uptime_def
proof (rule keeps_self_or_else, rule keeps_selfI)
  fix s
  show "same_self s (snd (get_daily_uptime_try s))"
    unfolding get_daily_uptime_try_def
    by (intro keeps_self_snd keeps_self_get_connection keeps_self_if keeps_self_read_sql_query)
qed

lemma keeps_self_statement:
  "(\<And>v s. snd (k v s) = s) \<Longrightarrow> keeps_self (bind_prog (engine_op e) k)"
  by (rule keeps_self_bind_prog [OF keeps_self_engine_op]) (rule keeps_self_same)

lemma keeps_self_statements:
  "keeps_self (count_stores e)" "keeps_self (count_by_platform e)"
  "keeps_self (count_checks e)" "keeps_self (select_latest_summary e)"
  unfolding count_stores_def count_by_platform_def count_checks_def select_latest_summary_def
  by (rule keeps_self_statement, simp)+

lemma keeps_self_dict_of_row: "keeps_self (dict_of_row e latest)"
  unfolding dict_of_row_def
  by (auto intro: keeps_self_ret keeps_self_raise_exn split: option.splits engine.splits)

lemma keeps_self_get_database_stats: "keeps_self get_database_stats"
proof (rule keeps_selfI)
  fix s
  have "same_self s (snd (get_database_stats_try s))"
    unfolding get_database_stats_try_def
    by (intro keeps_self_snd keeps_self_get_connection keeps_self_bind_prog
          keeps_self_statements keeps_self_dict_of_row keeps_self_ret)
  then show "same_self s (snd (get_database_stats s))"
    by (auto simp: get_database_stats_def or_else_def split: prod.splits sum.splits)
qed

lemma keeps_self_get_or_create_store: "keeps_self (get_or_create_store name url)"
proof (rule keeps_selfI)
  fix s
  obtain r s' where a: "get_or_create_store name url s = (r, s')"
    by (cases "get_or_create_store name url s")
  then have "retry (get_connection (get_or_create_store_body name url (platform_of url)))
      (\<lambda>e. Inl (PyException (''Failed to create store: '' @ strip (str_of e))))
      [0..<max_retries s] s = (r, s')"
    by (simp add: get_or_create_store_def get_or_create_store_attempts_retry)
  from retry_same_self [OF keeps_self_store_attempt this] a
  show "same_self s (snd (get_or_create_store name url s))" by simp
qed

lemma keeps_self_save_status_check:
  "keeps_self (save_status_check store_id is_online response_time_ms error_message)"
proof (rule keeps_selfI)
  fix s
  let ?f = "save_status_check store_id is_online response_time_ms error_message"
  obtain r s' where a: "?f s = (r, s')" by (cases "?f s")
  then have "retry (get_connection (save_status_check_body store_id is_online response_time_ms
      (truncate_error_message error_message))) (\<lambda>e. Inr (Some False))
      [0..<max_retries s] s = (r, s')"
    by (simp add: save_status_check_def save_status_check_attempts_retry)
  from retry_same_self [OF keeps_self_check_attempt this] a
  show "same_self s (snd (?f s))" by simp
qed

lemma keeps_self_save_summary_report:
  "keeps_self (save_summary_report total_stores online_stores offline_stores)"
proof (rule keeps_selfI)
  fix s
  let ?f = "save_summary_report total_stores online_stores offline_stores"
  obtain r s' where a: "?f s = (r, s')" by (cases "?f s")
  then have "retry (get_connection (save_summary_report_body total_stores online_stores
      offline_stores
      (if 0 < total_stores then real_of_int online_stores / real_of_int total_stores * 100
       else 0))) (\<lambda>e. Inr (Some False))
      [0..<max_retries s] s = (r, s')"
    by (simp add: save_summary_report_def save_summary_report_attempts_retry)
  from retry_same_self [OF keeps_self_summary_attempt this] a
  show "same_self s (snd (?f s))" by simp
qed

subsection \<open>The tag during initialisation\<close>

lemma db_type_init_postgresql: "db_type (snd (init_postgresql c s)) = db_type s"
  by (auto simp: init_postgresql_def raise_exn_def bind_prog_def engine_op_def Let_def
           split: prod.splits sum.splits option.splits)

lemma db_type_init_sqlite: "db_type (snd (init_sqlite c s)) = db_type s"
  by (auto simp: init_sqlite_def makedirs_def raise_exn_def bind_prog_def engine_op_def Let_def
           split: prod.splits sum.splits option.splits)

lemma db_type_create_tables: "db_type (snd (create_tables s)) = db_type s"
  using keeps_self_snd [OF keeps_self_create_tables, of s] by (simp add: same_self_def)

lemma db_type_bring_up:
  "db_type (snd (bind_prog (if b then init_postgresql c else init_sqlite c)
                   (\<lambda>_. create_tables) s)) = db_type s"
proof -
  let ?m = "if b then init_postgresql c else init_sqlite c"
  have m: "db_type (snd (?m s)) = db_type s"
    by (simp add: db_type_init_postgresql db_type_init_sqlite)
  obtain r s1 where a: "?m s = (r, s1)" by (cases "?m s")
  with m have "db_type s1 = db_type s" by simp
  with a db_type_create_tables [of s1] show ?thesis
    by (cases r) (simp_all add: bind_prog_def)
qed

lemma db_type_initialize_attempts:
  "db_type s = ''postgresql'' \<or> db_type s = ''sqlite'' \<Longrightarrow>
   db_type (snd (initialize_attempts c xs s)) = ''postgresql'' \<or>
   db_type (snd (initialize_attempts c xs s)) = ''sqlite''"
proof (induction xs arbitrary: s)
  case Nil
  then show ?case by simp
next
  case (Cons attempt rest)
  let ?up = "bind_prog (if db_type s = ''postgresql'' then init_postgresql c else init_sqlite c)
               (\<lambda>_. create_tables)"
  obtain r s1 where a: "?up s = (r, s1)" by (cases "?up s")
  from db_type_bring_up [of "db_type s = ''postgresql''" c s] a
  have d1: "db_type s1 = db_type s" by simp
  show ?case
  proof (cases r)
    case (Inr v)
    with a d1 Cons.prems show ?thesis by simp
  next
    case (Inl e)
    show ?thesis
    proof (cases "int attempt < int (max_retries s1) - 1")
      case True
      from d1 Cons.prems have "db_type (sleep (retry_delay s1) s1) = ''postgresql'' \<or>
          db_type (sleep (retry_delay s1) s1) = ''sqlite''"
        by (simp add: sleep_def)
      from Cons.IH [OF this] a Inl True show ?thesis by simp
    next
      case False
      let ?fb = "bind_prog (init_sqlite c) (\<lambda>_. create_tables) (s1\<lparr>db_type := ''sqlite''\<rparr>)"
      obtain r2 s2 where b: "?fb = (r2, s2)" by (cases ?fb)
      from db_type_bring_up [of False c "s1\<lparr>db_type := ''sqlite''\<rparr>"] b
      have d2: "db_type s2 = ''sqlite''" by simp
      show ?thesis
      proof (cases r2)
        case (Inl e')
        with a \<open>r = Inl e\<close> False b d2 show ?thesis by simp
      next
        case (Inr v)
        from d2 have "db_type s2 = ''postgresql'' \<or> db_type s2 = ''sqlite''" by simp
        from Cons.IH [OF this] a \<open>r = Inl e\<close> False b Inr show ?thesis by simp
      qed
    qed
  qed
qed

subsection \<open>Refused calls surface as exceptions\<close>

lemma cleanI:
  assumes "\<And>s. faults (snd (f s)) = faults s"
    and "\<And>s e. calls s e \<le> calls (snd (f s)) e"
    and "\<And>s. faulted s (snd (f s)) \<Longrightarrow> \<exists>x. fst (f s) = Inl x"
  shows "clean f"
  using assms by (simp add: clean_def)

lemma cleanD:
  assumes "clean f" and "f s = (r, s')"
  shows "faults s' = faults s" and "calls s e \<le> calls s' e"
    and "faulted s s' \<Longrightarrow> \<exists>x. r = Inl x"
  using assms by (auto simp: clean_def dest: spec [of _ s])

lemma not_faulted_same: "\<not> faulted s s"
  by (auto simp: faulted_def)

lemma faulted_txn [simp]: "faulted s (s'\<lparr>txn := t\<rparr>) = faulted s s'"
  "faulted (s\<lparr>txn := t\<rparr>) s' = faulted s s'"
  by (simp_all add: faulted_def)

lemma faulted_split:
  assumes "faults s1 = faults s" and "\<And>e. calls s e \<le> calls s1 e" and "faulted s s2"
  shows "faulted s s1 \<or> faulted s1 s2"
proof -
  from assms(3) obtain e n where n: "calls s e \<le> n" "n < calls s2 e" "faults s e n \<noteq> None"
    by (auto simp: faulted_def)
  show ?thesis
  proof (cases "n < calls s1 e")
    case True
    with n show ?thesis by (auto simp: faulted_def)
  next
    case False
    with n assms(1) show ?thesis by (auto simp: faulted_def)
  qed
qed

lemma clean_same: "(\<And>s. snd (f s) = s) \<Longrightarrow> clean f"
  by (simp add: clean_def not_faulted_same)

lemma clean_ret: "clean (ret v)"
  by (rule clean_same) (simp add: ret_def)

lemma clean_raise_exn: "clean (raise_exn e)"
  by (rule clean_same) (simp add: raise_exn_def)

lemma clean_engine_op: "clean (engine_op e)"
  by (rule cleanI)
     (auto simp: engine_op_def Let_def faulted_def less_Suc_eq split: option.splits if_splits)

lemma clean_bind_prog:
  assumes "clean m" and "\<And>v. clean (k v)"
  shows "clean (bind_prog m k)"
proof (rule cleanI)
  fix s
  obtain r s1 where m: "m s = (r, s1)" by (cases "m s")
  note m1 = cleanD [OF assms(1) m]
  show "faults (snd (bind_prog m k s)) = faults s"
  proof (cases r)
    case (Inl x)
    with m m1 show ?thesis by (simp add: bind_prog_def)
  next
    case (Inr v)
    obtain r2 s2 where k: "k v s1 = (r2, s2)" by (cases "k v s1")
    from cleanD(1) [OF assms(2) k] m m1 Inr k show ?thesis by (simp add: bind_prog_def)
  qed
  show "calls s e \<le> calls (snd (bind_prog m k s)) e" for e
  proof (cases r)
    case (Inl x)
    with m m1(2) [of e] show ?thesis by (simp add: bind_prog_def)
  next
    case (Inr v)
    obtain r2 s2 where k: "k v s1 = (r2, s2)" by (cases "k v s1")
    from cleanD(2) [OF assms(2) k, of e] m m1(2) [of e] Inr k show ?thesis
      by (simp add: bind_prog_def)
  qed
  show "\<exists>x. fst (bind_prog m k s) = Inl x" if f: "faulted s (snd (bind_prog m k s))"
  proof (cases r)
    case (Inl x)
    with m show ?thesis by (simp add: bind_prog_def)
  next
    case (Inr v)
    obtain r2 s2 where k: "k v s1 = (r2, s2)" by (cases "k v s1")
    from f m Inr k have "faulted s s2" by (simp add: bind_prog_def)
    from faulted_split [OF m1(1) m1(2) this] m1(3) Inr have "faulted s1 s2" by auto
    from cleanD(3) [OF assms(2) k this] m Inr k show ?thesis by (simp add: bind_prog_def)
  qed
qed

lemma clean_connect: "clean connect"
  by (rule cleanI)
     (auto simp: connect_def engine_op_def Let_def faulted_def less_Suc_eq
           split: option.splits if_splits)

lemma clean_get_connection:
  assumes "clean body"
  shows "clean (get_connection body)"
proof (rule cleanI)
  fix s
  obtain r s1 where c: "connect s = (r, s1)" by (cases "connect s")
  note c1 = cleanD [OF clean_connect c]
  obtain r2 s2 where b: "body s1 = (r2, s2)" by (cases "body s1")
  note b1 = cleanD [OF assms b]
  show "faults (snd (get_connection body s)) = faults s"
    using c c1(1) b b1(1) by (cases r; cases r2) (simp_all add: get_connection_def)
  show "calls s e \<le> calls (snd (get_connection body s)) e" for e
    using c c1(2) [of e] b b1(2) [of e] by (cases r; cases r2) (simp_all add: get_connection_def)
  show "\<exists>x. fst (get_connection body s) = Inl x" if f: "faulted s (snd (get_connection body s))"
  proof (cases r)
    case (Inl x)
    with c show ?thesis by (simp add: get_connection_def)
  next
    case (Inr v)
    with f c b have "faulted s s2" by (cases r2) (simp_all add: get_connection_def)
    from faulted_split [OF c1(1) c1(2) this] c1(3) Inr have "faulted s1 s2" by auto
    from b1(3) [OF this] c Inr b show ?thesis by (auto simp: get_connection_def)
  qed
qed

lemma clean_read_sql_query: "clean (read_sql_query e query)"
  unfolding read_sql_query_def
  by (rule clean_bind_prog [OF clean_engine_op]) (rule clean_same, simp)

lemma clean_statement:
  "(\<And>v s. snd (k v s) = s) \<Longrightarrow> clean (bind_prog (engine_op e) k)"
  by (rule clean_bind_prog [OF clean_engine_op]) (rule clean_same)

lemma clean_statements:
  "clean (count_stores e)" "clean (count_by_platform e)"
  "clean (count_checks e)" "clean (select_latest_summary e)"
  unfolding count_stores_def count_by_platform_def count_checks_def select_latest_summary_def
  by (rule clean_statement, simp)+

lemma clean_dict_of_row: "clean (dict_of_row e latest)"
  unfolding dict_of_row_def
  by (auto intro: clean_ret clean_raise_exn split: option.splits engine.splits)

lemma clean_if: "clean f \<Longrightarrow> clean g \<Longrightarrow> clean (if b then f else g)"
  by simp

lemma clean_fst: "clean f \<Longrightarrow> faulted s (snd (f s)) \<Longrightarrow> \<exists>x. fst (f s) = Inl x"
  by (simp add: clean_def)

text \<open>The five \<^verbatim>\<open>try\<close> blocks of the read path raise when a call inside them is refused.\<close>

lemma faulted_get_latest_status_try:
  "faulted s (snd (get_latest_status_try s)) \<Longrightarrow> \<exists>x. fst (get_latest_status_try s) = Inl x"
  unfolding get_latest_status_try_def
  by (intro clean_fst clean_get_connection clean_read_sql_query)

lemma faulted_get_hourly_data_try:
  "faulted s (snd (get_hourly_data_try s)) \<Longrightarrow> \<exists>x. fst (get_hourly_data_try s) = Inl x"
  unfolding get_hourly_data_try_def
  by (intro clean_fst clean_get_connection clean_if clean_read_sql_query)

lemma faulted_get_store_logs_try:
  "faulted s (snd (get_store_logs_try limit s)) \<Longrightarrow>
   \<exists>x. fst (get_store_logs_try limit s) = Inl x"
  unfolding get_store_logs_try_def
  by (intro clean_fst clean_get_connection clean_if clean_read_sql_query)

lemma faulted_get_daily_uptime_try:
  "faulted s (snd (get_daily_uptime_try s)) \<Longrightarrow> \<exists>x. fst (get_daily_uptime_try s) = Inl x"
  unfolding get_daily_uptime_try_def
  by (intro clean_fst clean_get_connection clean_if clean_read_sql_query)

lemma faulted_get_database_stats_try:
  "faulted s (snd (get_database_stats_try s)) \<Longrightarrow>
   \<exists>x. fst (get_database_stats_try s) = Inl x"
  unfolding get_database_stats_try_def
  by (intro clean_fst clean_get_connection clean_bind_prog clean_statements clean_dict_of_row
        clean_ret)

lemma or_else_fst:
  "fst (or_else body fallback s) =
     (case fst (body s) of Inl e \<Rightarrow> Inr fallback | Inr v \<Rightarrow> Inr v)"
  by (simp add: or_else_def split: prod.splits sum.splits)

lemma or_else_snd: "snd (or_else body fallback s) = snd (body s)"
  by (simp add: or_else_def split: prod.splits sum.splits)

subsection \<open>A connection string with the wrong scheme\<close>

lemma init_postgresql_bad_scheme:
  "\<not> prefix ''postgresql://'' (DATABASE_URL c) \<Longrightarrow>
   init_postgresql c s =
     (Inl (ValueError (''Invalid PostgreSQL URL format: '' @ DATABASE_URL c)), s)"
  by (simp add: init_postgresql_def raise_exn_def)

lemma bring_up_bad_scheme:
  "\<not> prefix ''postgresql://'' (DATABASE_URL c) \<Longrightarrow>
   bind_prog (init_postgresql c) (\<lambda>_. create_tables) s =
     (Inl (ValueError (''Invalid PostgreSQL URL format: '' @ DATABASE_URL c)), s)"
  by (simp add: bind_prog_def init_postgresql_bad_scheme)

lemma sleep_fields:
  "db_type (sleep d s) = db_type s" "max_retries (sleep d s) = max_retries s"
  "retry_delay (sleep d s) = retry_delay s"
  by (simp_all add: sleep_def)

lemma unit_result_eta:
  "(case p of (Inl e, s) \<Rightarrow> (Inl e, s) | (Inr u, s) \<Rightarrow> initialize_attempts c [] s) = p"
  by (auto split: prod.splits sum.splits)

lemma upt_3: "[0..<3] = [0, 1, 2]"
  by (simp add: upt_rec)

subsection \<open>Hours, days and groups\<close>

lemma hour_of_shift: "hour_of (t + 8 * 3600) = (hour_of t + 8) mod 24"
proof -
  have "(t + 8 * 3600) div 3600 = t div 3600 + 8" by simp
  then have "hour_of (t + 8 * 3600) = (t div 3600 + 8) mod 24"
    by (simp only: hour_of_def)
  also have "\<dots> = ((t div 3600) mod 24 + 8) mod 24"
    by (rule mod_add_left_eq [symmetric])
  finally show ?thesis by (simp only: hour_of_def)
qed

lemma local_hour_alt: "local_hour t = (hour_of t + 8) mod 24"
  by (simp only: local_hour_def hour_of_shift)

lemma hour_of_range: "0 \<le> hour_of t \<and> hour_of t < 24"
  by (simp add: hour_of_def)

lemma shift_mod_24:
  fixes x :: int
  assumes "0 \<le> x" and "x < 24"
  shows "(x + 8) mod 24 = (if x < 16 then x + 8 else x - 16)"
proof (cases "x < 16")
  case True
  with assms show ?thesis by simp
next
  case False
  have "(x + 8) mod 24 = ((x - 16) + 24) mod 24" by (simp add: algebra_simps)
  also have "\<dots> = (x - 16) mod 24" by (rule mod_add_self2)
  also from assms False have "\<dots> = x - 16" by simp
  finally show ?thesis using False by simp
qed

lemma shift_mod_24_inj:
  fixes x y :: int
  assumes "0 \<le> x" "x < 24" "0 \<le> y" "y < 24" and "(x + 8) mod 24 = (y + 8) mod 24"
  shows "x = y"
  using assms(5) unfolding shift_mod_24 [OF assms(1,2)] shift_mod_24 [OF assms(3,4)]
  using assms(1-4) by (auto split: if_splits)

lemma local_hour_eq_iff: "local_hour a = local_hour b \<longleftrightarrow> hour_of a = hour_of b"
proof
  assume "local_hour a = local_hour b"
  then have "(hour_of a + 8) mod 24 = (hour_of b + 8) mod 24"
    by (simp only: local_hour_alt)
  with hour_of_range [of a] hour_of_range [of b] show "hour_of a = hour_of b"
    by (auto intro: shift_mod_24_inj)
next
  assume "hour_of a = hour_of b"
  then show "local_hour a = local_hour b"
    by (simp only: local_hour_alt)
qed

lemma sqlite_today_local_day: "sqlite_today now t \<longleftrightarrow> local_day t = local_day now"
  by (simp add: sqlite_today_def local_day_def)

lemma pg_local_manila: "pg_local 28800 t = t"
  by (simp add: pg_local_def at_time_zone_manila_def)

lemma pg_today_manila: "pg_today 28800 now t \<longleftrightarrow> day_of t = local_day now"
  by (simp add: pg_today_def pg_local_manila local_day_def)

lemma length_hourly_groups: "length (hourly_groups key rows) = card (key ` set rows)"
  by (simp add: hourly_groups_def length_remdups_card_conv)

lemma hourly_groups_labels:
  "map h_hour (hourly_groups key rows) = sort (remdups (map key rows))"
  by (simp add: hourly_groups_def Let_def comp_def)

lemma hourly_groups_bucket:
  assumes "r \<in> set rows"
  shows "\<exists>h \<in> set (hourly_groups key rows).
           h_hour h = key r \<and>
           h_data_points h = length (filter (\<lambda>x. key x = key r) rows) \<and>
           h_online_pct h =
             sql_round (sql_avg (map sr_online_percentage (filter (\<lambda>x. key x = key r) rows))) \<and>
           h_offline_pct h =
             sql_round (sql_avg (map (\<lambda>x. 100 - sr_online_percentage x)
               (filter (\<lambda>x. key x = key r) rows)))"
proof -
  from assms have "key r \<in> set (sort (remdups (map key rows)))" by simp
  then show ?thesis
    unfolding hourly_groups_def Let_def set_map
    by (intro bexI [OF _ imageI]) simp_all
qed

lemma hourly_groups_member:
  assumes "h \<in> set (hourly_groups key rows)"
  shows "filter (\<lambda>x. key x = h_hour h) rows \<noteq> [] \<and>
         h_data_points h = length (filter (\<lambda>x. key x = h_hour h) rows) \<and>
         h_online_pct h =
           sql_round (sql_avg (map sr_online_percentage (filter (\<lambda>x. key x = h_hour h) rows))) \<and>
         h_offline_pct h =
           sql_round (sql_avg (map (\<lambda>x. 100 - sr_online_percentage x)
             (filter (\<lambda>x. key x = h_hour h) rows)))"
proof -
  from assms obtain k where k: "k \<in> key ` set rows"
    and h: "h = \<lparr>h_hour = k,
        h_online_pct = sql_round (sql_avg (map sr_online_percentage (filter (\<lambda>x. key x = k) rows))),
        h_offline_pct = sql_round (sql_avg (map (\<lambda>x. 100 - sr_online_percentage x)
             (filter (\<lambda>x. key x = k) rows))),
        h_data_points = length (filter (\<lambda>x. key x = k) rows)\<rparr>"
    by (auto simp: hourly_groups_def Let_def)
  from k have "filter (\<lambda>x. key x = k) rows \<noteq> []"
    by (auto simp: filter_empty_conv)
  with h show ?thesis by simp
qed

text \<open>
  On SQLite the rows of a day that share a local hour are the rows that share the hour
  the query groups by.
\<close>

lemma hourly_rows_sqlite_local_hour:
  fixes now rows H
  defines "today \<equiv> filter (\<lambda>r. local_day (sr_report_time r) = local_day now) rows"
  defines "g \<equiv> filter (\<lambda>r. local_hour (sr_report_time r) = H) today"
  assumes "g \<noteq> []"
  shows "\<exists>h \<in> set (hourly_rows_sqlite now rows).
           h_data_points h = length g \<and>
           h_online_pct h = sql_round (sql_avg (map sr_online_percentage g)) \<and>
           h_offline_pct h = sql_round (sql_avg (map (\<lambda>r. 100 - sr_online_percentage r) g))"
proof -
  from assms(3) obtain r where "r \<in> set g"
    by (cases g) auto
  then have r: "r \<in> set today" "local_hour (sr_report_time r) = H"
    by (simp_all add: g_def)
  have same: "filter (\<lambda>x. hour_of (sr_report_time x) = hour_of (sr_report_time r)) today = g"
    unfolding g_def using r(2) by (auto intro: filter_cong simp: local_hour_eq_iff [symmetric])
  from hourly_groups_bucket [OF r(1), of "\<lambda>r. hour_of (sr_report_time r)"]
  show ?thesis
    by (auto simp: hourly_rows_sqlite_def sqlite_today_local_day today_def [symmetric] same)
qed

lemma length_hourly_rows_sqlite:
  "length (hourly_rows_sqlite now rows) =
     card ((\<lambda>r. local_hour (sr_report_time r)) `
       set (filter (\<lambda>r. local_day (sr_report_time r) = local_day now) rows))"
proof -
  let ?today = "filter (\<lambda>r. local_day (sr_report_time r) = local_day now) rows"
  have "inj_on (\<lambda>k. (k + 8) mod 24) ((\<lambda>r. hour_of (sr_report_time r)) ` set ?today)"
  proof (rule inj_onI)
    fix x y
    assume "x \<in> (\<lambda>r. hour_of (sr_report_time r)) ` set ?today"
      and "y \<in> (\<lambda>r. hour_of (sr_report_time r)) ` set ?today"
      and e: "(x + 8) mod 24 = (y + 8) mod 24"
    then have "0 \<le> x \<and> x < 24 \<and> 0 \<le> y \<and> y < 24"
      using hour_of_range by auto
    with e show "x = y" by (auto intro: shift_mod_24_inj)
  qed
  from card_image [OF this]
  have "card ((\<lambda>r. hour_of (sr_report_time r)) ` set ?today) =
        card ((\<lambda>r. local_hour (sr_report_time r)) ` set ?today)"
    by (simp add: image_image local_hour_alt)
  then show ?thesis
    by (simp add: hourly_rows_sqlite_def length_hourly_groups sqlite_today_local_day)
qed

lemma hourly_rows_pg_manila:
  "hourly_rows_pg 28800 now rows =
     hourly_groups (\<lambda>r. hour_of (sr_report_time r))
       (filter (\<lambda>r. day_of (sr_report_time r) = local_day now) rows)"
  by (simp add: hourly_rows_pg_def pg_local_manila pg_today_manila)

text \<open>What a successful run of the \<^verbatim>\<open>try\<close> block of \<^verbatim>\<open>get_hourly_data\<close> returns.\<close>

lemma read_sql_query_spec:
  "read_sql_query e query s = (r, s') \<Longrightarrow>
     unchanged s s' \<and> txn s' = txn s \<and> data s' = data s \<and>
     (case r of Inl _ \<Rightarrow> True | Inr v \<Rightarrow> query s' = Inr v)"
  unfolding read_sql_query_def
  by (auto dest!: bind_prog_cases engine_op_spec split: sum.splits)

lemma get_hourly_data_try_result:
  assumes "get_hourly_data_try s = (Inr result, s')"
  shows "result =
     (if db_type s = ''postgresql''
      then hourly_rows_pg (session_tz s) (clock s) (summary_reports (data s Primary))
      else hourly_rows_sqlite (clock s) (summary_reports (data s Embedded)))"
proof -
  let ?body = "if db_type s = ''postgresql'' then read_sql_query Primary hourly_query_pg
               else read_sql_query Embedded hourly_query_sqlite"
  from assms have "get_connection ?body s = (Inr result, s')"
    by (simp add: get_hourly_data_try_def)
  from get_connection_cases [OF this] obtain s0 r1
    where c: "connect s = (Inr (), s0)" and b: "?body s0 = (r1, s')"
      and r: "case r1 of Inl x \<Rightarrow> \<exists>y. Inr result = (Inl y :: exn + hourly_row list)
              | Inr v \<Rightarrow> Inr result = (Inr v :: exn + hourly_row list)"
    by auto
  from r have r1: "r1 = Inr result" by (cases r1) auto
  from connect_spec [OF c]
  have c': "unchanged s s0" "txn s0 = data s (active_engine s)" by simp_all
  show ?thesis
  proof (cases "db_type s = ''postgresql''")
    case True
    with b r1 have "read_sql_query Primary hourly_query_pg s0 = (Inr result, s')" by simp
    from read_sql_query_spec [OF this] c' True show ?thesis
      by (auto simp: hourly_query_pg_def unchanged_def same_self_def active_engine_def
               split: if_splits)
  next
    case False
    with b r1 have "read_sql_query Embedded hourly_query_sqlite s0 = (Inr result, s')" by simp
    from read_sql_query_spec [OF this] c' False show ?thesis
      by (auto simp: hourly_query_sqlite_def unchanged_def same_self_def active_engine_def
               split: if_splits)
  qed
qed

subsection \<open>The fallback to SQLite when it works\<close>

lemma init_sqlite_ok:
  assumes "never_failing Embedded s" and "dirname (SQLITE_PATH c) \<noteq> []"
  shows "\<exists>s'. init_sqlite c s = (Inr (), s') \<and> sqlite_path s' = Some (SQLITE_PATH c) \<and>
           db_type s' = db_type s \<and> max_retries s' = max_retries s \<and>
           retry_delay s' = retry_delay s \<and> faults s' = faults s \<and> data s' = data s"
  using assms
  by (simp add: never_failing_def init_sqlite_def makedirs_def bind_prog_def engine_op_def Let_def)

lemma create_tables_sqlite_ok:
  assumes "db_type s = ''sqlite''" and "sqlite_path s = Some p" and "never_failing Embedded s"
  shows "\<exists>s'. create_tables s = (Inr (), s') \<and> same_self s s' \<and>
           data s' = (data s)(Embedded := (data s Embedded)
             \<lparr>has_stores := True, has_status_checks := True, has_summary_reports := True\<rparr>)"
  using assms
  by (simp add: never_failing_def create_tables_def get_connection_def connect_def
        create_table_def commit_def bind_prog_def engine_op_def Let_def same_self_def)

lemma postgresql_bring_up_fails:
  assumes "db_type s = ''postgresql''"
    and "\<not> prefix ''postgresql://'' (DATABASE_URL c) \<or> always_failing Primary s"
  shows "\<exists>x s1. bind_prog (if db_type s = ''postgresql'' then init_postgresql c
                            else init_sqlite c) (\<lambda>_. create_tables) s = (Inl x, s1) \<and>
           unchanged s s1 \<and> data s1 = data s"
proof (cases "prefix ''postgresql://'' (DATABASE_URL c)")
  case False
  with assms(1) show ?thesis
    by (simp add: bring_up_bad_scheme unchanged_refl)
next
  case True
  with assms(2) obtain x where "faults s Primary (calls s Primary) = Some x"
    by (auto simp: always_failing_def)
  with True assms(1) show ?thesis
    by (simp add: init_postgresql_def bind_prog_def engine_op_def Let_def unchanged_def
          same_self_def)
qed

text \<open>
  With PostgreSQL configured but not to be brought up (the scheme is wrong or the server
  refuses every call), a file system and SQLite that accept every call, and a directory
  part in \<^verbatim>\<open>SQLITE_PATH\<close>, \<^verbatim>\<open>__init__\<close> returns normally on SQLite with the schema created
  and the rows left as they were.
\<close>

lemma fallback_succeeds:
  assumes pg: "\<not> USE_SQLITE c"
    and down: "\<not> prefix ''postgresql://'' (DATABASE_URL c) \<or> always_failing Primary s"
    and up: "never_failing Embedded s"
    and dir: "dirname (SQLITE_PATH c) \<noteq> []"
  shows "\<exists>s'. init c s = (Inr (), s') \<and> db_type s' = ''sqlite'' \<and>
           sqlite_path s' = Some (SQLITE_PATH c) \<and> max_retries s' = 3 \<and>
           faults s' = faults s \<and>
           data s' = (data s)(Embedded := (data s Embedded)
             \<lparr>has_stores := True, has_status_checks := True, has_summary_reports := True\<rparr>)"
proof -
  let ?up = "\<lambda>s. bind_prog (if db_type s = ''postgresql'' then init_postgresql c
                            else init_sqlite c) (\<lambda>_. create_tables) s"
  let ?s0 = "s\<lparr>connection_pool := None, db_type := ''postgresql'', max_retries := 3,
               retry_delay := 5, sqlite_path := None\<rparr>"
  have keep: "db_type t' = ''postgresql'' \<and> max_retries t' = 3 \<and> retry_delay t' = 5 \<and>
      faults t' = faults s \<and> data t' = data s"
    if "db_type t = ''postgresql'' \<and> max_retries t = 3 \<and> retry_delay t = 5 \<and>
      faults t = faults s \<and> data t = data s" and "t' = sleep d t \<or> unchanged t t' \<and> data t' = data t"
    for t t' d
    using that by (auto simp: sleep_def unchanged_def same_self_def)
  have fails: "\<exists>x t'. ?up t = (Inl x, t') \<and> db_type t' = ''postgresql'' \<and> max_retries t' = 3 \<and>
      retry_delay t' = 5 \<and> faults t' = faults s \<and> data t' = data s"
    if t: "db_type t = ''postgresql'' \<and> max_retries t = 3 \<and> retry_delay t = 5 \<and>
      faults t = faults s \<and> data t = data s" for t
  proof -
    from down t have "\<not> prefix ''postgresql://'' (DATABASE_URL c) \<or> always_failing Primary t"
      by (auto simp: always_failing_def)
    with t postgresql_bring_up_fails [of t c] obtain x t'
      where u: "?up t = (Inl x, t')" "unchanged t t'" "data t' = data t"
      by blast
    with t show ?thesis
      by (auto simp: unchanged_def same_self_def)
  qed
  have i0: "db_type ?s0 = ''postgresql'' \<and> max_retries ?s0 = 3 \<and> retry_delay ?s0 = 5 \<and>
      faults ?s0 = faults s \<and> data ?s0 = data s"
    by simp
  from fails [OF i0] obtain x1 s1 where a1: "?up ?s0 = (Inl x1, s1)"
    and i1: "db_type s1 = ''postgresql'' \<and> max_retries s1 = 3 \<and> retry_delay s1 = 5 \<and>
      faults s1 = faults s \<and> data s1 = data s"
    by blast
  from keep [OF i1, of "sleep 5 s1" 5]
  have i1': "db_type (sleep 5 s1) = ''postgresql'' \<and> max_retries (sleep 5 s1) = 3 \<and>
      retry_delay (sleep 5 s1) = 5 \<and> faults (sleep 5 s1) = faults s \<and>
      data (sleep 5 s1) = data s"
    by simp
  from fails [OF i1'] obtain x2 s2 where a2: "?up (sleep 5 s1) = (Inl x2, s2)"
    and i2: "db_type s2 = ''postgresql'' \<and> max_retries s2 = 3 \<and> retry_delay s2 = 5 \<and>
      faults s2 = faults s \<and> data s2 = data s"
    by blast
  from keep [OF i2, of "sleep 5 s2" 5]
  have i2': "db_type (sleep 5 s2) = ''postgresql'' \<and> max_retries (sleep 5 s2) = 3 \<and>
      retry_delay (sleep 5 s2) = 5 \<and> faults (sleep 5 s2) = faults s \<and>
      data (sleep 5 s2) = data s"
    by simp
  from fails [OF i2'] obtain x3 s3 where a3: "?up (sleep 5 s2) = (Inl x3, s3)"
    and i3: "db_type s3 = ''postgresql'' \<and> max_retries s3 = 3 \<and> retry_delay s3 = 5 \<and>
      faults s3 = faults s \<and> data s3 = data s"
    by blast
  let ?t = "s3\<lparr>db_type := ''sqlite''\<rparr>"
  from up i3 have "never_failing Embedded ?t"
    by (simp add: never_failing_def)
  from init_sqlite_ok [OF this dir] obtain t1 where b1: "init_sqlite c ?t = (Inr (), t1)"
    and j1: "sqlite_path t1 = Some (SQLITE_PATH c)" "db_type t1 = ''sqlite''"
      "max_retries t1 = 3" "faults t1 = faults s" "data t1 = data s"
    using i3 by auto
  from up j1 have "never_failing Embedded t1"
    by (simp add: never_failing_def)
  from create_tables_sqlite_ok [OF j1(2) j1(1) this] obtain t2
    where b2: "create_tables t1 = (Inr (), t2)" and j2: "same_self t1 t2"
      "data t2 = (data t1)(Embedded := (data t1 Embedded)
         \<lparr>has_stores := True, has_status_checks := True, has_summary_reports := True\<rparr>)"
    by blast
  from b1 b2 have fb: "bind_prog (init_sqlite c) (\<lambda>_. create_tables) ?t = (Inr (), t2)"
    by (simp add: bind_prog_def)
  have "initialize_attempts c [0, 1, 2] ?s0 = (Inr (), t2)"
    using a1 a2 a3 i0 i1 i1' i2 i2' i3 fb by simp
  with pg j1 j2 show ?thesis
    by (auto simp: init_def initialize_database_def upt_3 same_self_def)
qed

subsection \<open>Writes on SQLite when it works\<close>

lemma sqlite_connect_ok:
  assumes "sqlite_ready s"
  shows "connect s = (Inr (), s\<lparr>calls := (calls s)(Embedded := Suc (Suc (calls s Embedded))),
                                txn := data s Embedded\<rparr>)"
  using assms
  by (auto simp: sqlite_ready_def never_failing_def connect_def engine_op_def Let_def)

lemma upt_first: "0 < n \<Longrightarrow> [0..<n] = 0 # [1..<n]"
  by (simp add: upt_conv_Cons)

lemma save_status_check_sqlite_ok:
  assumes "sqlite_ready s" and "int_fits Embedded store_id"
    and "case response_time_ms of None \<Rightarrow> True | Some r \<Rightarrow> int_fits Embedded r"
  shows "fst (save_status_check store_id is_online response_time_ms error_message s)
           = Inr (Some True)"
proof -
  from assms(1) have r: "db_type s = ''sqlite''" "0 < max_retries s" "never_failing Embedded s"
    "has_status_checks (data s Embedded)"
    by (simp_all add: sqlite_ready_def)
  from r(3) have f: "faults s Embedded n = None" for n
    by (simp add: never_failing_def)
  from assms(3) have rt: "\<not> (case response_time_ms of None \<Rightarrow> False | Some r \<Rightarrow> \<not> int_fits Embedded r)"
    by (cases response_time_ms) simp_all
  have "fst (get_connection (save_status_check_body store_id is_online response_time_ms
          (truncate_error_message error_message)) s) = Inr True"
    using r(1,4) assms(2) rt
    by (simp add: get_connection_def sqlite_connect_ok [OF assms(1)] save_status_check_body_def
          insert_status_check_def commit_def bind_prog_def ret_def engine_op_def Let_def f)
  then obtain s' where "get_connection (save_status_check_body store_id is_online
      response_time_ms (truncate_error_message error_message)) s = (Inr True, s')"
    by (cases "get_connection (save_status_check_body store_id is_online
      response_time_ms (truncate_error_message error_message)) s") auto
  then show ?thesis
    using r(2) by (simp add: save_status_check_def upt_first)
qed

lemma save_summary_report_sqlite_ok:
  assumes "sqlite_ready s" and "int_fits Embedded total_stores"
    and "int_fits Embedded online_stores" and "int_fits Embedded offline_stores"
  shows "fst (save_summary_report total_stores online_stores offline_stores s)
           = Inr (Some True)"
proof -
  from assms(1) have r: "db_type s = ''sqlite''" "0 < max_retries s" "never_failing Embedded s"
    "has_summary_reports (data s Embedded)"
    by (simp_all add: sqlite_ready_def)
  from r(3) have f: "faults s Embedded n = None" for n
    by (simp add: never_failing_def)
  have "fst (get_connection (save_summary_report_body total_stores online_stores offline_stores
          p) s) = Inr True" for p
    using r(1,4) assms(2-4)
    by (simp add: get_connection_def sqlite_connect_ok [OF assms(1)] save_summary_report_body_def
          insert_summary_report_def commit_def bind_prog_def ret_def engine_op_def Let_def f)
  then have "\<exists>s'. get_connection (save_summary_report_body total_stores online_stores
      offline_stores p) s = (Inr True, s')" for p
    by (metis prod.collapse)
  then obtain s' where "get_connection (save_summary_report_body total_stores online_stores
      offline_stores (if 0 < total_stores
        then real_of_int online_stores / real_of_int total_stores * 100 else 0)) s
      = (Inr True, s')"
    by blast
  then show ?thesis
    using r(2) by (simp add: save_summary_report_def upt_first online_percentage_of_eq)
qed

lemma get_or_create_store_sqlite_ok:
  assumes "sqlite_ready s"
  shows "\<exists>i. fst (get_or_create_store name url s) = Inr (Some i)"
proof -
  from assms(1) have r: "db_type s = ''sqlite''" "0 < max_retries s" "never_failing Embedded s"
    "has_stores (data s Embedded)"
    by (simp_all add: sqlite_ready_def)
  from r(3) have f: "faults s Embedded n = None" for n
    by (simp add: never_failing_def)
  have "\<exists>i. fst (get_connection (get_or_create_store_body name url (platform_of url)) s) = Inr i"
  proof (cases "find (\<lambda>r. s_url r = url) (stores (data s Embedded))")
    case None
    then have "url \<notin> set (map s_url (stores (data s Embedded)))"
      by (auto simp: find_None_iff)
    with None r(1,4) show ?thesis
      by (simp add: get_connection_def sqlite_connect_ok [OF assms(1)]
            get_or_create_store_body_def select_store_id_def insert_store_def commit_def
            bind_prog_def ret_def engine_op_def Let_def f)
  next
    case (Some row)
    with r(1,4) show ?thesis
      by (simp add: get_connection_def sqlite_connect_ok [OF assms(1)]
            get_or_create_store_body_def select_store_id_def
            bind_prog_def ret_def engine_op_def Let_def f)
  qed
  then show ?thesis
    using r(2)
    by (auto simp: get_or_create_store_def upt_first split: prod.splits sum.splits)
qed

lemma fallback_then_writes:
  assumes "\<not> USE_SQLITE c"
    and "\<not> prefix ''postgresql://'' (DATABASE_URL c) \<or> always_failing Primary s"
    and "never_failing Embedded s"
    and "dirname (SQLITE_PATH c) \<noteq> []"
  shows "fst (init c s) = Inr () \<and> sqlite_ready (snd (init c s))"
proof -
  from fallback_succeeds [OF assms] obtain s' where i: "init c s = (Inr (), s')"
    and s': "db_type s' = ''sqlite''" "sqlite_path s' = Some (SQLITE_PATH c)"
      "max_retries s' = 3" "faults s' = faults s"
      "data s' = (data s)(Embedded := (data s Embedded)
         \<lparr>has_stores := True, has_status_checks := True, has_summary_reports := True\<rparr>)"
    by blast
  from s' assms(3) have "sqlite_ready s'"
    by (simp add: sqlite_ready_def never_failing_def)
  with i show ?thesis by simp
qed

text \<open>
  In a session in UTC the PostgreSQL query labels reports of 17:00 local time with hour 1:
  \<^verbatim>\<open>AT TIME ZONE 'Asia/Manila'\<close> reads the stored UTC reading as a wall clock in Manila and
  so moves it eight hours back, where the local hour is eight hours ahead.
\<close>

lemma postgres_utc_session_label:
  "fst (get_hourly_data postgres_evening)
     = Inr [\<lparr>h_hour = 1, h_online_pct = 75, h_offline_pct = 25, h_data_points = 2\<rparr>] \<and>
   map (\<lambda>r. local_hour (sr_report_time r)) (summary_reports (data postgres_evening Primary))
     = [17, 17] \<and>
   local_hour (clock postgres_evening) = 18"
proof -
  have p: "fst (get_hourly_data_try postgres_evening) =
      Inr (hourly_rows_pg 0 122400 (summary_reports evening_database))"
    by (simp add: get_hourly_data_try_def get_connection_def connect_def engine_op_def
          read_sql_query_def bind_prog_def hourly_query_pg_def postgres_evening_def
          evening_database_def)
  have 1: "hourly_rows_pg 0 122400 (summary_reports evening_database) =
      [\<lparr>h_hour = 1, h_online_pct = 75, h_offline_pct = 25, h_data_points = 2\<rparr>]"
    by (simp add: hourly_rows_pg_def hourly_groups_def pg_today_def pg_local_def
          at_time_zone_manila_def day_of_def hour_of_def evening_database_def sql_avg_def
          sql_round_def)
  have 2: "map (\<lambda>r. local_hour (sr_report_time r))
      (summary_reports (data postgres_evening Primary)) = [17, 17]"
    "local_hour (clock postgres_evening) = 18"
    by (simp_all add: postgres_evening_def evening_database_def local_hour_def hour_of_def)
  from p 1 2 show ?thesis
    by (simp add: get_hourly_data_def or_else_fst)
qed

section \<open>The claims\<close>

text \<open>
  Claim C7. For every url, \<^verbatim>\<open>get_or_create_store\<close> gives the store it creates the platform
  \<^verbatim>\<open>"foodpanda"\<close> exactly when the url contains \<^verbatim>\<open>"foodpanda.ph"\<close>, and \<^verbatim>\<open>"grabfood"\<close>
  otherwise: the two values are the only ones, and the row that a successful call
  appends for a url not yet in the table carries the value of its url.
\<close>

theorem platform_two_values:
  "(platform_of url = ''foodpanda'' \<longleftrightarrow> (\<exists>pre post. url = pre @ ''foodpanda.ph'' @ post)) \<and>
   (platform_of url = ''grabfood'' \<longleftrightarrow> \<not> (\<exists>pre post. url = pre @ ''foodpanda.ph'' @ post)) \<and>
   (get_or_create_store name url s = (Inr (Some i), s') \<longrightarrow>
    find (\<lambda>r. s_url r = url) (stores (data s (active_engine s))) = None \<longrightarrow>
    (\<exists>row. stores (data s' (active_engine s)) = stores (data s (active_engine s)) @ [row] \<and>
       s_id row = i \<and> s_name row = name \<and> s_url row = url \<and>
       s_platform row = platform_of url))"
proof (intro conjI impI)
  show "platform_of url = ''foodpanda'' \<longleftrightarrow> (\<exists>pre post. url = pre @ ''foodpanda.ph'' @ post)"
    by (simp add: platform_of_def sublist_def)
  show "platform_of url = ''grabfood'' \<longleftrightarrow> \<not> (\<exists>pre post. url = pre @ ''foodpanda.ph'' @ post)"
    by (simp add: platform_of_def sublist_def)
next
  assume run: "get_or_create_store name url s = (Inr (Some i), s')"
    and new: "find (\<lambda>r. s_url r = url) (stores (data s (active_engine s))) = None"
  from run have "get_or_create_store_attempts name url (platform_of url) [0..<max_retries s] s
      = (Inr (Some i), s')"
    by (simp add: get_or_create_store_def)
  from goc_attempts_spec [OF this] new
  show "\<exists>row. stores (data s' (active_engine s)) = stores (data s (active_engine s)) @ [row] \<and>
       s_id row = i \<and> s_name row = name \<and> s_url row = url \<and>
       s_platform row = platform_of url"
    by (simp add: store_result_def)
qed

theorem platform_two_values_witness:
  "fst (get_or_create_store ''Branch A'' ''https://www.foodpanda.ph/restaurant/a'' sqlite_world)
     = Inr (Some 1) \<and>
   find (\<lambda>r. s_url r = ''https://www.foodpanda.ph/restaurant/a'')
     (stores (data sqlite_world (active_engine sqlite_world))) = None \<and>
   (\<exists>row. stores (data (snd (get_or_create_store ''Branch A''
                ''https://www.foodpanda.ph/restaurant/a'' sqlite_world))
              (active_engine sqlite_world))
           = stores (data sqlite_world (active_engine sqlite_world)) @ [row] \<and>
      s_id row = 1 \<and> s_name row = ''Branch A'' \<and>
      s_url row = ''https://www.foodpanda.ph/restaurant/a'' \<and> s_platform row = ''foodpanda'')"
proof -
  let ?url = "''https://www.foodpanda.ph/restaurant/a''"
  let ?run = "get_or_create_store ''Branch A'' ?url sqlite_world"
  have a: "fst ?run = Inr (Some 1)"
    by code_simp
  have b: "find (\<lambda>r. s_url r = ?url) (stores (data sqlite_world (active_engine sqlite_world))) = None"
    by code_simp
  have c: "platform_of ?url = ''foodpanda''"
    by code_simp
  from a have d: "?run = (Inr (Some 1), snd ?run)"
    by (simp add: prod_eq_iff)
  from platform_two_values [of ?url "''Branch A''" sqlite_world 1 "snd ?run"] d b
  have "\<exists>row. stores (data (snd ?run) (active_engine sqlite_world))
           = stores (data sqlite_world (active_engine sqlite_world)) @ [row] \<and>
      s_id row = 1 \<and> s_name row = ''Branch A'' \<and> s_url row = ?url \<and>
      s_platform row = platform_of ?url"
    by blast
  with a b c show ?thesis by simp
qed

text \<open>
  Claim C6. For every \<^verbatim>\<open>error_message\<close> passed to \<^verbatim>\<open>save_status_check\<close>: the row a successful
  call stores holds the first 500 characters followed by \<^verbatim>\<open>"..."\<close> when the message is
  longer than 500 characters, and the message itself when it has 500 characters or fewer;
  no message stays no message.
\<close>

theorem error_message_truncated:
  "save_status_check store_id is_online response_time_ms error_message s = (Inr (Some True), s') \<Longrightarrow>
   \<exists>row. status_checks (data s' (active_engine s))
            = status_checks (data s (active_engine s)) @ [row] \<and>
      sc_store_id row = store_id \<and> sc_is_online row = is_online \<and>
      sc_response_time_ms row = response_time_ms \<and>
      sc_error_message row =
        (case error_message of
           None \<Rightarrow> None
         | Some m \<Rightarrow> Some (if 500 < length m then take 500 m @ ''...'' else m))"
proof -
  assume "save_status_check store_id is_online response_time_ms error_message s
            = (Inr (Some True), s')"
  then have "save_status_check_attempts store_id is_online response_time_ms error_message
               [0..<max_retries s] s = (Inr (Some True), s')"
    by (simp add: save_status_check_def)
  from save_status_check_attempts_spec [OF this]
  have "data s' = (data s)(active_engine s := (data s (active_engine s))
          \<lparr>status_checks := status_checks (data s (active_engine s)) @
             [\<lparr>sc_id = next_id (map sc_id (status_checks (data s (active_engine s)))),
               sc_store_id = store_id, sc_is_online = is_online,
               sc_checked_at = current_timestamp (active_engine s) s',
               sc_response_time_ms = response_time_ms,
               sc_error_message = truncate_error_message error_message\<rparr>]\<rparr>)"
    by (simp add: check_result_def)
  then show ?thesis
    by (auto simp: truncate_error_message_def split: option.splits)
qed

theorem error_message_truncated_witness:
  "fst (save_status_check 1 False (Some 30000) (Some (replicate 501 CHR ''x'')) sqlite_world)
     = Inr (Some True) \<and>
   (\<exists>row. status_checks (data (snd (save_status_check 1 False (Some 30000)
                (Some (replicate 501 CHR ''x'')) sqlite_world)) (active_engine sqlite_world))
            = status_checks (data sqlite_world (active_engine sqlite_world)) @ [row] \<and>
      sc_store_id row = 1 \<and> sc_is_online row = False \<and>
      sc_response_time_ms row = Some 30000 \<and>
      sc_error_message row = Some (replicate 500 CHR ''x'' @ ''...''))"
proof -
  let ?run = "save_status_check 1 False (Some 30000) (Some (replicate 501 CHR ''x'')) sqlite_world"
  have a: "fst ?run = Inr (Some True)"
    by code_simp
  then have "?run = (Inr (Some True), snd ?run)"
    by (simp add: prod_eq_iff)
  from error_message_truncated [OF this] a show ?thesis
    by simp
qed

text \<open>
  Claim C5. For every call \<^verbatim>\<open>save_summary_report(total, online, offline)\<close> the percentage
  is computed without raising: it is online / total * 100 when total is positive and 0
  otherwise, so that no division by zero takes place, and this is the value in the row a
  successful call stores. In particular (10, 7, 3) stores 70 and (0, 0, 0) stores 0.
\<close>

theorem online_percentage_stored:
  "online_percentage_of total_stores online_stores =
     Inr (if 0 < total_stores then real_of_int online_stores / real_of_int total_stores * 100 else 0) \<and>
   (save_summary_report total_stores online_stores offline_stores s = (Inr (Some True), s') \<longrightarrow>
    (\<exists>row. summary_reports (data s' (active_engine s))
             = summary_reports (data s (active_engine s)) @ [row] \<and>
       sr_total_stores row = total_stores \<and> sr_online_stores row = online_stores \<and>
       sr_offline_stores row = offline_stores \<and>
       sr_online_percentage row =
         (if 0 < total_stores then real_of_int online_stores / real_of_int total_stores * 100 else 0))) \<and>
   (save_summary_report 10 7 3 s = (Inr (Some True), s') \<longrightarrow>
    sr_online_percentage (last (summary_reports (data s' (active_engine s)))) = 70) \<and>
   (save_summary_report 0 0 0 s = (Inr (Some True), s') \<longrightarrow>
    sr_online_percentage (last (summary_reports (data s' (active_engine s)))) = 0)"
proof -
  have stored: "\<exists>row. summary_reports (data s' (active_engine s))
             = summary_reports (data s (active_engine s)) @ [row] \<and>
       sr_total_stores row = t \<and> sr_online_stores row = n \<and> sr_offline_stores row = f \<and>
       sr_online_percentage row = (if 0 < t then real_of_int n / real_of_int t * 100 else 0)"
    if "save_summary_report t n f s = (Inr (Some True), s')" for t n f
  proof -
    from that have "save_summary_report_attempts t n f [0..<max_retries s] s
                      = (Inr (Some True), s')"
      by (simp add: save_summary_report_def)
    from save_summary_report_attempts_spec [OF this] show ?thesis
      by (simp add: summary_result_def)
  qed
  have "sr_online_percentage (last (summary_reports (data s' (active_engine s)))) = 70"
    if "save_summary_report 10 7 3 s = (Inr (Some True), s')"
    using stored [OF that] by auto
  moreover
  have "sr_online_percentage (last (summary_reports (data s' (active_engine s)))) = 0"
    if "save_summary_report 0 0 0 s = (Inr (Some True), s')"
    using stored [OF that] by auto
  ultimately show ?thesis
    using stored [of total_stores online_stores offline_stores] by (simp add: online_percentage_of_eq)
qed

theorem online_percentage_stored_witness:
  "fst (save_summary_report 10 7 3 sqlite_world) = Inr (Some True) \<and>
   fst (save_summary_report 0 0 0 sqlite_world) = Inr (Some True) \<and>
   online_percentage_of 10 7 = Inr 70 \<and>
   sr_online_percentage (last (summary_reports
     (data (snd (save_summary_report 10 7 3 sqlite_world)) (active_engine sqlite_world)))) = 70 \<and>
   sr_online_percentage (last (summary_reports
     (data (snd (save_summary_report 0 0 0 sqlite_world)) (active_engine sqlite_world)))) = 0"
proof -
  let ?a = "save_summary_report 10 7 3 sqlite_world"
  let ?b = "save_summary_report 0 0 0 sqlite_world"
  have a: "fst ?a = Inr (Some True)"
    by code_simp
  have b: "fst ?b = Inr (Some True)"
    by code_simp
  from a have a': "?a = (Inr (Some True), snd ?a)"
    by (simp add: prod_eq_iff)
  from b have b': "?b = (Inr (Some True), snd ?b)"
    by (simp add: prod_eq_iff)
  from online_percentage_stored [of 10 7 3 sqlite_world "snd ?a"] a'
  have 1: "online_percentage_of 10 7 = Inr 70"
    "sr_online_percentage (last (summary_reports
       (data (snd ?a) (active_engine sqlite_world)))) = 70"
    by simp_all
  from online_percentage_stored [of 0 0 0 sqlite_world "snd ?b"] b'
  have 2: "sr_online_percentage (last (summary_reports
       (data (snd ?b) (active_engine sqlite_world)))) = 0"
    by simp
  from a b 1 2 show ?thesis by simp
qed

text \<open>
  Claim C3. \<^verbatim>\<open>save_status_check\<close> and \<^verbatim>\<open>save_summary_report\<close> never raise: whatever their
  arguments and whatever the engines do, they return \<^verbatim>\<open>True\<close>, having stored one row, or
  \<^verbatim>\<open>False\<close>, having stored nothing; against an engine that refuses every call all attempts
  fail and the answer is \<^verbatim>\<open>False\<close>. \<^verbatim>\<open>get_or_create_store\<close> returns an id or raises, and
  against such an engine it raises. (The loops run \<open>max_retries\<close> times, which
  \<^verbatim>\<open>__init__\<close> sets to 3; with no attempt at all the methods would return \<^verbatim>\<open>None\<close>.)
\<close>

theorem write_failure_contract:
  assumes "0 < max_retries s"
  shows
    "(\<exists>b s'. save_status_check store_id is_online response_time_ms error_message s
               = (Inr (Some b), s') \<and>
        (if b then length (status_checks (data s' (active_engine s)))
                     = Suc (length (status_checks (data s (active_engine s))))
         else data s' = data s)) \<and>
     (\<exists>b s'. save_summary_report total_stores online_stores offline_stores s
               = (Inr (Some b), s') \<and>
        (if b then length (summary_reports (data s' (active_engine s)))
                     = Suc (length (summary_reports (data s (active_engine s))))
         else data s' = data s)) \<and>
     ((\<exists>i s'. get_or_create_store name url s = (Inr (Some i), s')) \<or>
      (\<exists>x s'. get_or_create_store name url s = (Inl x, s'))) \<and>
     (always_failing (active_engine s) s \<longrightarrow>
        fst (save_status_check store_id is_online response_time_ms error_message s)
          = Inr (Some False) \<and>
        fst (save_summary_report total_stores online_stores offline_stores s)
          = Inr (Some False) \<and>
        (\<exists>x. fst (get_or_create_store name url s) = Inl x))"
proof (intro conjI impI)
  let ?check = "get_connection (save_status_check_body store_id is_online response_time_ms
                  (truncate_error_message error_message))"
  let ?summary = "get_connection (save_summary_report_body total_stores online_stores
                    offline_stores
                    (if 0 < total_stores
                     then real_of_int online_stores / real_of_int total_stores * 100 else 0))"
  let ?store = "get_connection (get_or_create_store_body name url (platform_of url))"
  let ?raise = "\<lambda>e. Inl (PyException (''Failed to create store: '' @ strip (str_of e)))
                  :: exn + int option"
  let ?false = "\<lambda>e::exn. Inr (Some False) :: exn + bool option"
  from retry_ends [of ?check 0 s "[0..<max_retries s]" ?false, OF keeps_self_check_attempt]
    assms
  obtain b s' where c: "save_status_check store_id is_online response_time_ms error_message s
      = (Inr (Some b), s')"
    by (auto simp: save_status_check_def save_status_check_attempts_retry)
  from c have "save_status_check_attempts store_id is_online response_time_ms error_message
      [0..<max_retries s] s = (Inr (Some b), s')"
    by (simp add: save_status_check_def)
  from save_status_check_attempts_spec [OF this]
  have "if b then length (status_checks (data s' (active_engine s)))
                     = Suc (length (status_checks (data s (active_engine s))))
         else data s' = data s"
    by (cases b) (simp_all add: check_result_def)
  with c show "\<exists>b s'. save_status_check store_id is_online response_time_ms error_message s
               = (Inr (Some b), s') \<and>
        (if b then length (status_checks (data s' (active_engine s)))
                     = Suc (length (status_checks (data s (active_engine s))))
         else data s' = data s)"
    by blast
  from retry_ends [of ?summary 0 s "[0..<max_retries s]" ?false,
      OF keeps_self_summary_attempt] assms
  obtain b s' where c: "save_summary_report total_stores online_stores offline_stores s
      = (Inr (Some b), s')"
    by (auto simp: save_summary_report_def save_summary_report_attempts_retry)
  from c have "save_summary_report_attempts total_stores online_stores offline_stores
      [0..<max_retries s] s = (Inr (Some b), s')"
    by (simp add: save_summary_report_def)
  from save_summary_report_attempts_spec [OF this]
  have "if b then length (summary_reports (data s' (active_engine s)))
                     = Suc (length (summary_reports (data s (active_engine s))))
         else data s' = data s"
    by (cases b) (simp_all add: summary_result_def)
  with c show "\<exists>b s'. save_summary_report total_stores online_stores offline_stores s
               = (Inr (Some b), s') \<and>
        (if b then length (summary_reports (data s' (active_engine s)))
                     = Suc (length (summary_reports (data s (active_engine s))))
         else data s' = data s)"
    by blast
  from retry_ends [of ?store 0 s "[0..<max_retries s]" ?raise, OF keeps_self_store_attempt]
    assms
  show "(\<exists>i s'. get_or_create_store name url s = (Inr (Some i), s')) \<or>
      (\<exists>x s'. get_or_create_store name url s = (Inl x, s'))"
    by (auto simp: get_or_create_store_def get_or_create_store_attempts_retry)
next
  assume down: "always_failing (active_engine s) s"
  from retry_exhausted [where attempt_body = "get_connection (save_status_check_body store_id
        is_online response_time_ms (truncate_error_message error_message))"
      and final = "\<lambda>e. Inr (Some False)" and k = 0 and s = s,
      OF keeps_self_check_attempt get_connection_always_failing refl assms down]
  show "fst (save_status_check store_id is_online response_time_ms error_message s)
          = Inr (Some False)"
    by (auto simp: save_status_check_def save_status_check_attempts_retry)
next
  assume down: "always_failing (active_engine s) s"
  from retry_exhausted [where attempt_body = "get_connection (save_summary_report_body
        total_stores online_stores offline_stores
        (if 0 < total_stores
         then real_of_int online_stores / real_of_int total_stores * 100 else 0))"
      and final = "\<lambda>e. Inr (Some False)" and k = 0 and s = s,
      OF keeps_self_summary_attempt get_connection_always_failing refl assms down]
  show "fst (save_summary_report total_stores online_stores offline_stores s)
          = Inr (Some False)"
    by (auto simp: save_summary_report_def save_summary_report_attempts_retry)
next
  assume down: "always_failing (active_engine s) s"
  from retry_exhausted [where attempt_body = "get_connection (get_or_create_store_body name url
        (platform_of url))"
      and final = "\<lambda>e. Inl (PyException (''Failed to create store: '' @ strip (str_of e)))"
      and k = 0 and s = s,
      OF keeps_self_store_attempt get_connection_always_failing refl assms down]
  show "\<exists>x. fst (get_or_create_store name url s) = Inl x"
    by (auto simp: get_or_create_store_def get_or_create_store_attempts_retry)
qed

theorem write_failure_contract_witness:
  "0 < max_retries broken_world \<and> always_failing (active_engine broken_world) broken_world \<and>
   fst (save_status_check 1 True (Some 120) None broken_world) = Inr (Some False) \<and>
   fst (save_summary_report 10 7 3 broken_world) = Inr (Some False) \<and>
   (\<exists>x. fst (get_or_create_store ''Branch A'' ''https://food.grab.com/a'' broken_world) = Inl x)"
proof -
  have m: "0 < max_retries broken_world"
    by (simp add: broken_world_def)
  have d: "always_failing (active_engine broken_world) broken_world"
    by (simp add: always_failing_def broken_world_def)
  from write_failure_contract [OF m, of 1 True "Some 120" None 10 7 3 "''Branch A''"
      "''https://food.grab.com/a''"] m d
  show ?thesis by blast
qed

text \<open>
  Claim C4. Calling \<^verbatim>\<open>get_or_create_store\<close> twice with the same url returns the same id
  both times; the second call finds the row by its url and inserts nothing. With urls
  unique in the table before the calls (the column is \<^verbatim>\<open>UNIQUE\<close>), they are unique
  after them and exactly one row has the url.
\<close>

theorem get_or_create_store_idempotent:
  assumes "get_or_create_store name url s = (Inr (Some i), s1)"
    and "get_or_create_store name' url s1 = (Inr (Some j), s2)"
    and "distinct (map s_url (stores (data s (active_engine s))))"
  shows "j = i \<and> data s2 = data s1 \<and>
         length (filter (\<lambda>r. s_url r = url) (stores (data s2 (active_engine s)))) = 1 \<and>
         distinct (map s_url (stores (data s2 (active_engine s)))) \<and>
         map_option s_id (find (\<lambda>r. s_url r = url) (stores (data s2 (active_engine s)))) = Some i"
proof -
  let ?e = "active_engine s"
  let ?db = "data s ?e"
  let ?P = "\<lambda>r. s_url r = url"
  from assms(1) have 1: "get_or_create_store_attempts name url (platform_of url)
      [0..<max_retries s] s = (Inr (Some i), s1)"
    by (simp add: get_or_create_store_def)
  from assms(2) have 2: "get_or_create_store_attempts name' url (platform_of url)
      [0..<max_retries s1] s1 = (Inr (Some j), s2)"
    by (simp add: get_or_create_store_def)
  from goc_attempts_spec [OF 1]
  have e1: "active_engine s1 = ?e"
    and r1: "store_result name url (platform_of url) ?e ?db (current_timestamp ?e s1) (Inr i)
               (data s) (data s1)"
    by (simp_all add: active_engine_same)
  from goc_attempts_spec [OF 2] e1
  have r2: "store_result name' url (platform_of url) ?e (data s1 ?e) (current_timestamp ?e s2)
               (Inr j) (data s1) (data s2)"
    by simp
  show ?thesis
  proof (cases "find ?P (stores ?db)")
    case (Some row)
    with r1 have a: "i = s_id row" "data s1 = data s" by (simp_all add: store_result_def)
    with r2 Some have b: "j = s_id row" "data s2 = data s1" by (simp_all add: store_result_def)
    from filter_url_one [OF assms(3) Some] a b Some assms(3) show ?thesis by simp
  next
    case None
    let ?row = "\<lparr>s_id = i, s_name = name, s_url = url, s_platform = platform_of url,
                  s_created_at = current_timestamp ?e s1\<rparr>"
    from r1 None have a: "data s1 = (data s)(?e := ?db\<lparr>stores := stores ?db @ [?row]\<rparr>)"
      by (simp add: store_result_def)
    then have st: "stores (data s1 ?e) = stores ?db @ [?row]" by simp
    from None have f: "find ?P (stores (data s1 ?e)) = Some ?row"
      by (simp add: st find_append_new)
    with r2 have b: "j = i" "data s2 = data s1" by (simp_all add: store_result_def)
    from None have n: "filter ?P (stores ?db) = []" "url \<notin> set (map s_url (stores ?db))"
      by (auto simp: find_None_iff filter_empty_conv)
    with assms(3) b st f show ?thesis by simp
  qed
qed

theorem get_or_create_store_idempotent_witness:
  "fst (get_or_create_store ''Branch A'' ''https://food.grab.com/a'' sqlite_world)
     = Inr (Some 1) \<and>
   fst (get_or_create_store ''Branch A'' ''https://food.grab.com/a''
     (snd (get_or_create_store ''Branch A'' ''https://food.grab.com/a'' sqlite_world)))
     = Inr (Some 1) \<and>
   distinct (map s_url (stores (data sqlite_world (active_engine sqlite_world)))) \<and>
   length (filter (\<lambda>r. s_url r = ''https://food.grab.com/a'')
     (stores (data (snd (get_or_create_store ''Branch A'' ''https://food.grab.com/a''
        (snd (get_or_create_store ''Branch A'' ''https://food.grab.com/a'' sqlite_world))))
        (active_engine sqlite_world)))) = 1"
proof -
  let ?url = "''https://food.grab.com/a''"
  let ?s1 = "snd (get_or_create_store ''Branch A'' ?url sqlite_world)"
  let ?s2 = "snd (get_or_create_store ''Branch A'' ?url ?s1)"
  have a: "fst (get_or_create_store ''Branch A'' ?url sqlite_world) = Inr (Some 1)"
    by code_simp
  have b: "fst (get_or_create_store ''Branch A'' ?url ?s1) = Inr (Some 1)"
    by code_simp
  have c: "distinct (map s_url (stores (data sqlite_world (active_engine sqlite_world))))"
    by code_simp
  from a have a': "get_or_create_store ''Branch A'' ?url sqlite_world = (Inr (Some 1), ?s1)"
    by (simp add: prod_eq_iff)
  from b have b': "get_or_create_store ''Branch A'' ?url ?s1 = (Inr (Some 1), ?s2)"
    by (simp add: prod_eq_iff)
  note l = get_or_create_store_idempotent [OF a' b' c, THEN conjunct2, THEN conjunct2,
      THEN conjunct1]
  from a b c l show ?thesis
    by (intro conjI)
qed

text \<open>
  Claim C10. The tag of the active engine is chosen during initialisation and stays as
  it is afterwards: when \<^verbatim>\<open>__init__\<close> is over, \<open>db_type\<close> is \<^verbatim>\<open>"postgresql"\<close> or
  \<^verbatim>\<open>"sqlite"\<close>, and none of \<^verbatim>\<open>get_connection\<close> (around a body that does not assign it), the
  three writes, the five reads and \<^verbatim>\<open>close\<close> assigns it.
\<close>

theorem db_type_fixed_after_init:
  "(db_type (snd (init c s)) = ''postgresql'' \<or> db_type (snd (init c s)) = ''sqlite'') \<and>
   ((\<forall>t. db_type (snd (body t)) = db_type t) \<longrightarrow>
      db_type (snd (get_connection body s)) = db_type s) \<and>
   db_type (snd (get_or_create_store name url s)) = db_type s \<and>
   db_type (snd (save_status_check store_id is_online response_time_ms error_message s))
     = db_type s \<and>
   db_type (snd (save_summary_report total_stores online_stores offline_stores s)) = db_type s \<and>
   db_type (snd (get_latest_status s)) = db_type s \<and>
   db_type (snd (get_hourly_data s)) = db_type s \<and>
   db_type (snd (get_store_logs limit s)) = db_type s \<and>
   db_type (snd (get_daily_uptime s)) = db_type s \<and>
   db_type (snd (get_database_stats s)) = db_type s \<and>
   db_type (snd (close s)) = db_type s"
proof (intro conjI impI)
  show "db_type (snd (init c s)) = ''postgresql'' \<or> db_type (snd (init c s)) = ''sqlite''"
    unfolding init_def initialize_database_def
    by (rule db_type_initialize_attempts) simp
next
  assume body: "\<forall>t. db_type (snd (body t)) = db_type t"
  obtain r s1 where c: "connect s = (r, s1)" by (cases "connect s")
  from keeps_selfD [OF keeps_self_connect c] have "db_type s1 = db_type s"
    by (simp add: same_self_def)
  with body [rule_format, of s1] c show "db_type (snd (get_connection body s)) = db_type s"
    by (auto simp: get_connection_def split: prod.splits sum.splits)
next
  show "db_type (snd (get_or_create_store name url s)) = db_type s"
    using keeps_self_snd [OF keeps_self_get_or_create_store, of s name url]
    by (simp add: same_self_def)
  show "db_type (snd (save_status_check store_id is_online response_time_ms error_message s))
     = db_type s"
    using keeps_self_snd [OF keeps_self_save_status_check, of s store_id is_online
        response_time_ms error_message]
    by (simp add: same_self_def)
  show "db_type (snd (save_summary_report total_stores online_stores offline_stores s))
     = db_type s"
    using keeps_self_snd [OF keeps_self_save_summary_report, of s total_stores online_stores
        offline_stores]
    by (simp add: same_self_def)
  show "db_type (snd (get_latest_status s)) = db_type s"
    using keeps_self_snd [OF keeps_self_get_latest_status, of s] by (simp add: same_self_def)
  show "db_type (snd (get_hourly_data s)) = db_type s"
    using keeps_self_snd [OF keeps_self_get_hourly_data, of s] by (simp add: same_self_def)
  show "db_type (snd (get_store_logs limit s)) = db_type s"
    using keeps_self_snd [OF keeps_self_get_store_logs, of s limit] by (simp add: same_self_def)
  show "db_type (snd (get_daily_uptime s)) = db_type s"
    using keeps_self_snd [OF keeps_self_get_daily_uptime, of s] by (simp add: same_self_def)
  show "db_type (snd (get_database_stats s)) = db_type s"
    using keeps_self_snd [OF keeps_self_get_database_stats, of s] by (simp add: same_self_def)
  show "db_type (snd (close s)) = db_type s"
    by (simp add: close_def split: option.splits)
qed

theorem db_type_fixed_after_init_witness:
  "(\<forall>t. db_type (snd (create_table Embedded Stores t)) = db_type t) \<and>
   db_type (snd (get_connection (create_table Embedded Stores) sqlite_world)) = ''sqlite'' \<and>
   db_type (snd (save_status_check 1 True None None sqlite_world)) = ''sqlite'' \<and>
   db_type (snd (close sqlite_world)) = ''sqlite''"
proof -
  have b: "\<forall>t. db_type (snd (create_table Embedded Stores t)) = db_type t"
    using keeps_self_create_table [of Embedded Stores]
    by (simp add: keeps_self_def same_self_def)
  have d: "db_type sqlite_world = ''sqlite''"
    by (simp add: sqlite_world_def)
  note t = db_type_fixed_after_init [where s = sqlite_world
      and body = "create_table Embedded Stores" and store_id = 1 and is_online = True
      and response_time_ms = None and error_message = None]
  from t b d have "db_type (snd (get_connection (create_table Embedded Stores) sqlite_world))
      = ''sqlite''"
    by simp
  moreover from t d have "db_type (snd (save_status_check 1 True None None sqlite_world))
      = ''sqlite''"
    by simp
  moreover from t d have "db_type (snd (close sqlite_world)) = ''sqlite''"
    by simp
  ultimately show ?thesis using b by blast
qed

text \<open>
  Claim C2. No read operation lets an error out. Each of \<^verbatim>\<open>get_latest_status\<close>,
  \<^verbatim>\<open>get_hourly_data\<close>, \<^verbatim>\<open>get_store_logs\<close> and \<^verbatim>\<open>get_daily_uptime\<close> returns a result set in
  every state, and the empty one whenever its \<^verbatim>\<open>try\<close> block raises, in particular whenever
  an engine refuses a call made while it runs. \<^verbatim>\<open>get_database_stats\<close> returns an object in
  every state, and under the same conditions the fallback object: store count 0, no
  platforms, check count 0, no latest summary (and the engine tag), never a part of the
  real figures.
\<close>

theorem reads_never_raise:
  "(\<exists>rows. fst (get_latest_status s) = Inr rows) \<and>
   (\<exists>rows. fst (get_hourly_data s) = Inr rows) \<and>
   (\<exists>rows. fst (get_store_logs limit s) = Inr rows) \<and>
   (\<exists>rows. fst (get_daily_uptime s) = Inr rows) \<and>
   (\<exists>st. fst (get_database_stats s) = Inr st) \<and>
   ((\<exists>x. fst (get_latest_status_try s) = Inl x) \<or> faulted s (snd (get_latest_status s))
      \<longrightarrow> fst (get_latest_status s) = Inr []) \<and>
   ((\<exists>x. fst (get_hourly_data_try s) = Inl x) \<or> faulted s (snd (get_hourly_data s))
      \<longrightarrow> fst (get_hourly_data s) = Inr []) \<and>
   ((\<exists>x. fst (get_store_logs_try limit s) = Inl x) \<or> faulted s (snd (get_store_logs limit s))
      \<longrightarrow> fst (get_store_logs limit s) = Inr []) \<and>
   ((\<exists>x. fst (get_daily_uptime_try s) = Inl x) \<or> faulted s (snd (get_daily_uptime s))
      \<longrightarrow> fst (get_daily_uptime s) = Inr []) \<and>
   ((\<exists>x. fst (get_database_stats_try s) = Inl x) \<or> faulted s (snd (get_database_stats s))
      \<longrightarrow> fst (get_database_stats s) =
            Inr \<lparr>store_count = 0, platforms = [], total_checks = 0, latest_summary = None,
                 stats_db_type = db_type s\<rparr>)"
proof (intro conjI impI)
  show "\<exists>rows. fst (get_latest_status s) = Inr rows"
    by (cases "fst (get_latest_status_try s)") (simp_all add: get_latest_status_def or_else_fst)
  show "\<exists>rows. fst (get_hourly_data s) = Inr rows"
    by (cases "fst (get_hourly_data_try s)") (simp_all add: get_hourly_data_def or_else_fst)
  show "\<exists>rows. fst (get_store_logs limit s) = Inr rows"
    by (cases "fst (get_store_logs_try limit s)")
       (simp_all add: get_store_logs_def or_else_fst)
  show "\<exists>rows. fst (get_daily_uptime s) = Inr rows"
    by (cases "fst (get_daily_uptime_try s)") (simp_all add: get_daily_uptime_def or_else_fst)
  show "\<exists>st. fst (get_database_stats s) = Inr st"
    by (cases "fst (get_database_stats_try s)")
       (simp_all add: get_database_stats_def or_else_fst)
next
  assume "(\<exists>x. fst (get_latest_status_try s) = Inl x) \<or> faulted s (snd (get_latest_status s))"
  then have "\<exists>x. fst (get_latest_status_try s) = Inl x"
    using faulted_get_latest_status_try [of s]
    by (auto simp: get_latest_status_def or_else_snd)
  then show "fst (get_latest_status s) = Inr []"
    by (auto simp: get_latest_status_def or_else_fst)
next
  assume "(\<exists>x. fst (get_hourly_data_try s) = Inl x) \<or> faulted s (snd (get_hourly_data s))"
  then have "\<exists>x. fst (get_hourly_data_try s) = Inl x"
    using faulted_get_hourly_data_try [of s]
    by (auto simp: get_hourly_data_def or_else_snd)
  then show "fst (get_hourly_data s) = Inr []"
    by (auto simp: get_hourly_data_def or_else_fst)
next
  assume "(\<exists>x. fst (get_store_logs_try limit s) = Inl x) \<or>
          faulted s (snd (get_store_logs limit s))"
  then have "\<exists>x. fst (get_store_logs_try limit s) = Inl x"
    using faulted_get_store_logs_try [of s limit]
    by (auto simp: get_store_logs_def or_else_snd)
  then show "fst (get_store_logs limit s) = Inr []"
    by (auto simp: get_store_logs_def or_else_fst)
next
  assume "(\<exists>x. fst (get_daily_uptime_try s) = Inl x) \<or> faulted s (snd (get_daily_uptime s))"
  then have "\<exists>x. fst (get_daily_uptime_try s) = Inl x"
    using faulted_get_daily_uptime_try [of s]
    by (auto simp: get_daily_uptime_def or_else_snd)
  then show "fst (get_daily_uptime s) = Inr []"
    by (auto simp: get_daily_uptime_def or_else_fst)
next
  assume "(\<exists>x. fst (get_database_stats_try s) = Inl x) \<or>
          faulted s (snd (get_database_stats s))"
  then have "\<exists>x. fst (get_database_stats_try s) = Inl x"
    using faulted_get_database_stats_try [of s]
    by (auto simp: get_database_stats_def or_else_snd)
  then show "fst (get_database_stats s) =
      Inr \<lparr>store_count = 0, platforms = [], total_checks = 0, latest_summary = None,
           stats_db_type = db_type s\<rparr>"
    by (auto simp: get_database_stats_def or_else_fst)
qed

theorem reads_never_raise_witness:
  "faulted broken_world (snd (get_latest_status broken_world)) \<and>
   faulted broken_world (snd (get_hourly_data broken_world)) \<and>
   faulted broken_world (snd (get_store_logs 50 broken_world)) \<and>
   faulted broken_world (snd (get_daily_uptime broken_world)) \<and>
   faulted broken_world (snd (get_database_stats broken_world)) \<and>
   fst (get_latest_status broken_world) = Inr [] \<and>
   fst (get_hourly_data broken_world) = Inr [] \<and>
   fst (get_store_logs 50 broken_world) = Inr [] \<and>
   fst (get_daily_uptime broken_world) = Inr [] \<and>
   fst (get_database_stats broken_world) =
     Inr \<lparr>store_count = 0, platforms = [], total_checks = 0, latest_summary = None,
          stats_db_type = ''sqlite''\<rparr>"
proof -
  have refused: "faulted broken_world s'" if "calls s' Embedded = 1" for s'
    unfolding faulted_def
    by (rule exI [of _ Embedded], rule exI [of _ 0]) (simp add: that broken_world_def)
  have 1: "faulted broken_world (snd (get_latest_status broken_world))"
    by (rule refused) code_simp
  have 2: "faulted broken_world (snd (get_hourly_data broken_world))"
    by (rule refused) code_simp
  have 3: "faulted broken_world (snd (get_store_logs 50 broken_world))"
    by (rule refused) code_simp
  have 4: "faulted broken_world (snd (get_daily_uptime broken_world))"
    by (rule refused) code_simp
  have 5: "faulted broken_world (snd (get_database_stats broken_world))"
    by (rule refused) code_simp
  have d: "db_type broken_world = ''sqlite''"
    by (simp add: broken_world_def)
  note t = reads_never_raise [of broken_world 50]
  from t 1 have a: "fst (get_latest_status broken_world) = Inr []" by blast
  from t 2 have b: "fst (get_hourly_data broken_world) = Inr []" by blast
  from t 3 have c: "fst (get_store_logs 50 broken_world) = Inr []" by blast
  from t 4 have e: "fst (get_daily_uptime broken_world) = Inr []" by blast
  from t 5 have "fst (get_database_stats broken_world) =
     Inr \<lparr>store_count = 0, platforms = [], total_checks = 0, latest_summary = None,
          stats_db_type = db_type broken_world\<rparr>" by blast
  with d have f: "fst (get_database_stats broken_world) =
     Inr \<lparr>store_count = 0, platforms = [], total_checks = 0, latest_summary = None,
          stats_db_type = ''sqlite''\<rparr>" by simp
  from 1 2 3 4 5 a b c e f show ?thesis by (intro conjI)
qed

text \<open>
  Claim C8 says that a connection string without the prefix \<^verbatim>\<open>postgresql://\<close> is fatal at
  initialisation and not retried. The code does otherwise: with such a string and a
  working SQLite file \<^verbatim>\<open>__init__\<close> returns normally, after two sleeps of five seconds, with
  the engine switched to SQLite.
\<close>

theorem bad_scheme_retried_and_survived:
  "fst (init \<lparr>USE_SQLITE = False, DATABASE_URL = ''mysql://monitor@db/cocopan'',
              SQLITE_PATH = ''data/store_status.db''\<rparr> fresh_world) = Inr () \<and>
   slept (snd (init \<lparr>USE_SQLITE = False, DATABASE_URL = ''mysql://monitor@db/cocopan'',
              SQLITE_PATH = ''data/store_status.db''\<rparr> fresh_world)) = [5, 5] \<and>
   db_type (snd (init \<lparr>USE_SQLITE = False, DATABASE_URL = ''mysql://monitor@db/cocopan'',
              SQLITE_PATH = ''data/store_status.db''\<rparr> fresh_world)) = ''sqlite''"
  by code_simp

text \<open>
  Claim C8, amended. A connection string without the prefix makes \<^verbatim>\<open>_init_postgresql\<close>
  raise \<^verbatim>\<open>ValueError\<close> before anything is sent to the server: the state is untouched,
  whereas with the prefix the first thing is a call to the server, whose refusal is what
  the method raises. \<^verbatim>\<open>_initialize_database\<close> treats the \<^verbatim>\<open>ValueError\<close> as any other
  failure: with PostgreSQL configured, \<^verbatim>\<open>__init__\<close> makes its three attempts with a sleep
  of five seconds after the first and the second, then switches to SQLite, and ends as
  the initialisation of SQLite ends.
\<close>

theorem bad_scheme_handling:
  "(\<not> prefix ''postgresql://'' (DATABASE_URL c) \<longrightarrow>
      init_postgresql c s =
        (Inl (ValueError (''Invalid PostgreSQL URL format: '' @ DATABASE_URL c)), s)) \<and>
   (prefix ''postgresql://'' (DATABASE_URL c) \<longrightarrow>
      calls (snd (init_postgresql c s)) Primary > calls s Primary \<and>
      (\<forall>x. faults s Primary (calls s Primary) = Some x \<longrightarrow> fst (init_postgresql c s) = Inl x)) \<and>
   (\<not> prefix ''postgresql://'' (DATABASE_URL c) \<and> \<not> USE_SQLITE c \<longrightarrow>
      init c s =
        bind_prog (init_sqlite c) (\<lambda>_. create_tables)
          ((sleep 5 (sleep 5 (s\<lparr>connection_pool := None, db_type := ''postgresql'',
              max_retries := 3, retry_delay := 5, sqlite_path := None\<rparr>)))
           \<lparr>db_type := ''sqlite''\<rparr>))"
proof (intro conjI impI allI)
  assume "\<not> prefix ''postgresql://'' (DATABASE_URL c)"
  then show "init_postgresql c s =
      (Inl (ValueError (''Invalid PostgreSQL URL format: '' @ DATABASE_URL c)), s)"
    by (rule init_postgresql_bad_scheme)
next
  assume "prefix ''postgresql://'' (DATABASE_URL c)"
  then show "calls s Primary < calls (snd (init_postgresql c s)) Primary"
    by (auto simp: init_postgresql_def bind_prog_def engine_op_def Let_def
             split: option.splits prod.splits sum.splits)
next
  fix x
  assume "prefix ''postgresql://'' (DATABASE_URL c)"
    and "faults s Primary (calls s Primary) = Some x"
  then show "fst (init_postgresql c s) = Inl x"
    by (simp add: init_postgresql_def bind_prog_def engine_op_def Let_def)
next
  assume a: "\<not> prefix ''postgresql://'' (DATABASE_URL c) \<and> \<not> USE_SQLITE c"
  let ?s0 = "s\<lparr>connection_pool := None, db_type := ''postgresql'', max_retries := 3,
               retry_delay := 5, sqlite_path := None\<rparr>"
  from a have b: "\<not> prefix ''postgresql://'' (DATABASE_URL c)" by simp
  from a show "init c s =
      bind_prog (init_sqlite c) (\<lambda>_. create_tables)
        ((sleep 5 (sleep 5 ?s0))\<lparr>db_type := ''sqlite''\<rparr>)"
    by (simp add: init_def initialize_database_def upt_3 bring_up_bad_scheme [OF b]
          sleep_fields unit_result_eta)
qed

theorem bad_scheme_handling_witness:
  "\<not> prefix ''postgresql://'' ''mysql://monitor@db/cocopan'' \<and>
   prefix ''postgresql://'' ''postgresql://monitor@db/cocopan'' \<and>
   faults primary_down_world Primary (calls primary_down_world Primary)
     = Some (OperationalError ''could not connect to server'') \<and>
   init_postgresql \<lparr>USE_SQLITE = False, DATABASE_URL = ''mysql://monitor@db/cocopan'',
                    SQLITE_PATH = ''data/store_status.db''\<rparr> fresh_world =
     (Inl (ValueError ''Invalid PostgreSQL URL format: mysql://monitor@db/cocopan''),
      fresh_world) \<and>
   fst (init_postgresql \<lparr>USE_SQLITE = False, DATABASE_URL = ''postgresql://monitor@db/cocopan'',
                    SQLITE_PATH = ''data/store_status.db''\<rparr> primary_down_world) =
     Inl (OperationalError ''could not connect to server'') \<and>
   init \<lparr>USE_SQLITE = False, DATABASE_URL = ''mysql://monitor@db/cocopan'',
         SQLITE_PATH = ''data/store_status.db''\<rparr> fresh_world =
     bind_prog (init_sqlite \<lparr>USE_SQLITE = False, DATABASE_URL = ''mysql://monitor@db/cocopan'',
         SQLITE_PATH = ''data/store_status.db''\<rparr>) (\<lambda>_. create_tables)
       ((sleep 5 (sleep 5 (fresh_world\<lparr>connection_pool := None, db_type := ''postgresql'',
           max_retries := 3, retry_delay := 5, sqlite_path := None\<rparr>)))
        \<lparr>db_type := ''sqlite''\<rparr>)"
proof -
  let ?bad = "\<lparr>USE_SQLITE = False, DATABASE_URL = ''mysql://monitor@db/cocopan'',
               SQLITE_PATH = ''data/store_status.db''\<rparr>"
  let ?good = "\<lparr>USE_SQLITE = False, DATABASE_URL = ''postgresql://monitor@db/cocopan'',
                SQLITE_PATH = ''data/store_status.db''\<rparr>"
  have a: "\<not> prefix ''postgresql://'' ''mysql://monitor@db/cocopan''"
    by simp
  have b: "prefix ''postgresql://'' ''postgresql://monitor@db/cocopan''"
    by simp
  have f: "faults primary_down_world Primary (calls primary_down_world Primary)
     = Some (OperationalError ''could not connect to server'')"
    by (simp add: primary_down_world_def)
  from bad_scheme_handling [of ?bad fresh_world] a
  have 1: "init_postgresql ?bad fresh_world =
     (Inl (ValueError ''Invalid PostgreSQL URL format: mysql://monitor@db/cocopan''),
      fresh_world)"
    and 3: "init ?bad fresh_world =
     bind_prog (init_sqlite ?bad) (\<lambda>_. create_tables)
       ((sleep 5 (sleep 5 (fresh_world\<lparr>connection_pool := None, db_type := ''postgresql'',
           max_retries := 3, retry_delay := 5, sqlite_path := None\<rparr>)))
        \<lparr>db_type := ''sqlite''\<rparr>)"
    by simp_all
  from bad_scheme_handling [of ?good primary_down_world] b f
  have 2: "fst (init_postgresql ?good primary_down_world) =
     Inl (OperationalError ''could not connect to server'')"
    by simp
  from a b f 1 2 3 show ?thesis by (intro conjI)
qed

text \<open>
  Claim C1 says that, when PostgreSQL cannot be brought up and the storage of SQLite is
  writable, \<^verbatim>\<open>__init__\<close> returns normally with the engine switched to SQLite, the schema
  created there and later writes succeeding. The code falls short of it when
  \<^verbatim>\<open>SQLITE_PATH\<close> names a file without a directory part: \<^verbatim>\<open>os.path.dirname\<close> is then
  empty and \<^verbatim>\<open>os.makedirs\<close> refuses the empty path, so the fallback raises
  \<^verbatim>\<open>FileNotFoundError\<close> out of \<^verbatim>\<open>__init__\<close> although no call to the storage of SQLite
  has failed (none was made). With a directory part in the path, and all else equal,
  initialisation does what the claim says.
\<close>

theorem fallback_raises_for_bare_file_name:
  "fst (init \<lparr>USE_SQLITE = False, DATABASE_URL = ''postgresql://monitor:secret@db:5432/cocopan'',
              SQLITE_PATH = ''store_status.db''\<rparr> primary_down_world)
     = Inl (FileNotFoundError ''[Errno 2] No such file or directory'') \<and>
   calls (snd (init \<lparr>USE_SQLITE = False,
              DATABASE_URL = ''postgresql://monitor:secret@db:5432/cocopan'',
              SQLITE_PATH = ''store_status.db''\<rparr> primary_down_world)) Embedded = 0 \<and>
   dirname ''store_status.db'' = [] \<and>
   fst (init \<lparr>USE_SQLITE = False, DATABASE_URL = ''postgresql://monitor:secret@db:5432/cocopan'',
              SQLITE_PATH = ''data/store_status.db''\<rparr> primary_down_world) = Inr () \<and>
   db_type (snd (init \<lparr>USE_SQLITE = False,
              DATABASE_URL = ''postgresql://monitor:secret@db:5432/cocopan'',
              SQLITE_PATH = ''data/store_status.db''\<rparr> primary_down_world)) = ''sqlite'' \<and>
   data (snd (init \<lparr>USE_SQLITE = False,
              DATABASE_URL = ''postgresql://monitor:secret@db:5432/cocopan'',
              SQLITE_PATH = ''data/store_status.db''\<rparr> primary_down_world)) Embedded
     = ready_database"
  by code_simp

text \<open>
  Claim C9 says that \<^verbatim>\<open>get_hourly_data\<close> finds the current local day by a fixed shift of
  eight hours, so that both engines draw the same day boundaries, and that on either
  engine two reports inserted in the same local hour make one group with two data points.
  The two branches of the method disagree. The SQLite branch shifts the stored reading
  and the clock by eight hours. The PostgreSQL branch names \<^verbatim>\<open>'Asia/Manila'\<close>, but its column
  has no time zone: \<^verbatim>\<open>AT TIME ZONE\<close> reads the stored reading as a wall clock in Manila, which
  moves a reading stored by a session in UTC eight hours back, and the day is compared
  with the \<^verbatim>\<open>CURRENT_DATE\<close> of the session. At 02:00 UTC (10:00 local time), with the same two
  reports inserted an hour before and the same clock, the SQLite branch returns one group
  with two data points (labelled with hour 1, the hour of the stored UTC readings), while
  the PostgreSQL branch of a session in UTC returns no group at all.
\<close>

theorem hourly_data_engines_disagree:
  "fst (get_hourly_data sqlite_morning)
     = Inr [\<lparr>h_hour = 1, h_online_pct = 75, h_offline_pct = 25, h_data_points = 2\<rparr>] \<and>
   fst (get_hourly_data postgres_morning) = Inr [] \<and>
   data postgres_morning Primary = data sqlite_morning Embedded \<and>
   clock postgres_morning = clock sqlite_morning"
proof -
  have s: "fst (get_hourly_data_try sqlite_morning) =
      Inr (hourly_rows_sqlite 93600 (summary_reports morning_database))"
    by (simp add: get_hourly_data_try_def get_connection_def connect_def engine_op_def
          read_sql_query_def bind_prog_def hourly_query_sqlite_def sqlite_morning_def
          morning_database_def)
  have p: "fst (get_hourly_data_try postgres_morning) =
      Inr (hourly_rows_pg 0 93600 (summary_reports morning_database))"
    by (simp add: get_hourly_data_try_def get_connection_def connect_def engine_op_def
          read_sql_query_def bind_prog_def hourly_query_pg_def postgres_morning_def
          morning_database_def)
  have 1: "hourly_rows_sqlite 93600 (summary_reports morning_database) =
      [\<lparr>h_hour = 1, h_online_pct = 75, h_offline_pct = 25, h_data_points = 2\<rparr>]"
    by (simp add: hourly_rows_sqlite_def hourly_groups_def sqlite_today_def day_of_def
          hour_of_def morning_database_def sql_avg_def sql_round_def)
  have 2: "hourly_rows_pg 0 93600 (summary_reports morning_database) = []"
    by (simp add: hourly_rows_pg_def hourly_groups_def pg_today_def pg_local_def
          at_time_zone_manila_def day_of_def morning_database_def)
  have 3: "data postgres_morning Primary = data sqlite_morning Embedded"
    "clock postgres_morning = clock sqlite_morning"
    by (simp_all add: postgres_morning_def sqlite_morning_def)
  from s p 1 2 3 show ?thesis
    by (simp add: get_hourly_data_def or_else_fst)
qed

text \<open>
  What the two queries compute. A successful \<^verbatim>\<open>get_hourly_data\<close> returns the groups of the
  query of the active engine over the committed summary reports. Each group carries the
  rounded average of the online percentage of its rows, the rounded average of 100 minus
  it, and the number of its rows, and no group is empty. On SQLite, whose stored readings
  are UTC, the rows are those whose reading shifted by eight hours falls on the day of the
  clock shifted by eight hours, and rows share a group exactly when they share a local
  hour: there are as many groups as local hours with a row, and the rows of one local
  hour make a group with their count and averages (two rows: two data points). On
  PostgreSQL day and hour are taken from \<^verbatim>\<open>report_time AT TIME ZONE 'Asia/Manila'\<close> in the
  session's time zone and compared with \<^verbatim>\<open>CURRENT_DATE\<close>; when the session is eight hours
  ahead of UTC, the stored readings are local wall-clock readings and the groups are
  those of the local day by local hour, labelled with it.
\<close>

theorem hourly_data_groups:
  "(get_hourly_data_try s = (Inr result, s') \<longrightarrow>
      result =
        (if db_type s = ''postgresql''
         then hourly_rows_pg (session_tz s) (clock s) (summary_reports (data s Primary))
         else hourly_rows_sqlite (clock s) (summary_reports (data s Embedded)))) \<and>
   current_timestamp Embedded s = clock s \<and>
   (session_tz s = 8 * 3600 \<longrightarrow>
      day_of (current_timestamp Primary s) = local_day (clock s) \<and>
      hour_of (current_timestamp Primary s) = local_hour (clock s)) \<and>
   length (hourly_rows_sqlite now rows) =
     card ((\<lambda>r. local_hour (sr_report_time r)) `
       set (filter (\<lambda>r. local_day (sr_report_time r) = local_day now) rows)) \<and>
   (filter (\<lambda>r. local_hour (sr_report_time r) = H)
      (filter (\<lambda>r. local_day (sr_report_time r) = local_day now) rows) \<noteq> [] \<longrightarrow>
    (\<exists>h \<in> set (hourly_rows_sqlite now rows).
       h_data_points h =
         length (filter (\<lambda>r. local_hour (sr_report_time r) = H)
           (filter (\<lambda>r. local_day (sr_report_time r) = local_day now) rows)) \<and>
       h_online_pct h =
         sql_round (sql_avg (map sr_online_percentage
           (filter (\<lambda>r. local_hour (sr_report_time r) = H)
             (filter (\<lambda>r. local_day (sr_report_time r) = local_day now) rows)))) \<and>
       h_offline_pct h =
         sql_round (sql_avg (map (\<lambda>r. 100 - sr_online_percentage r)
           (filter (\<lambda>r. local_hour (sr_report_time r) = H)
             (filter (\<lambda>r. local_day (sr_report_time r) = local_day now) rows)))))) \<and>
   hourly_rows_pg (8 * 3600) now rows =
     hourly_groups (\<lambda>r. hour_of (sr_report_time r))
       (filter (\<lambda>r. day_of (sr_report_time r) = local_day now) rows) \<and>
   map h_hour (hourly_groups key rows) = sort (remdups (map key rows)) \<and>
   (\<forall>h \<in> set (hourly_groups key rows).
      filter (\<lambda>r. key r = h_hour h) rows \<noteq> [] \<and>
      h_data_points h = length (filter (\<lambda>r. key r = h_hour h) rows) \<and>
      h_online_pct h =
        sql_round (sql_avg (map sr_online_percentage (filter (\<lambda>r. key r = h_hour h) rows))) \<and>
      h_offline_pct h =
        sql_round (sql_avg (map (\<lambda>r. 100 - sr_online_percentage r)
          (filter (\<lambda>r. key r = h_hour h) rows))))"
proof (intro conjI impI ballI)
  assume "get_hourly_data_try s = (Inr result, s')"
  then show "result =
        (if db_type s = ''postgresql''
         then hourly_rows_pg (session_tz s) (clock s) (summary_reports (data s Primary))
         else hourly_rows_sqlite (clock s) (summary_reports (data s Embedded)))"
    by (rule get_hourly_data_try_result)
next
  show "current_timestamp Embedded s = clock s"
    by (simp add: current_timestamp_def)
next
  assume "session_tz s = 8 * 3600"
  then show "day_of (current_timestamp Primary s) = local_day (clock s)"
    and "hour_of (current_timestamp Primary s) = local_hour (clock s)"
    by (simp_all add: current_timestamp_def local_day_def local_hour_def)
next
  show "length (hourly_rows_sqlite now rows) =
     card ((\<lambda>r. local_hour (sr_report_time r)) `
       set (filter (\<lambda>r. local_day (sr_report_time r) = local_day now) rows))"
    by (rule length_hourly_rows_sqlite)
next
  assume "filter (\<lambda>r. local_hour (sr_report_time r) = H)
      (filter (\<lambda>r. local_day (sr_report_time r) = local_day now) rows) \<noteq> []"
  from hourly_rows_sqlite_local_hour [OF this]
  show "\<exists>h \<in> set (hourly_rows_sqlite now rows).
       h_data_points h =
         length (filter (\<lambda>r. local_hour (sr_report_time r) = H)
           (filter (\<lambda>r. local_day (sr_report_time r) = local_day now) rows)) \<and>
       h_online_pct h =
         sql_round (sql_avg (map sr_online_percentage
           (filter (\<lambda>r. local_hour (sr_report_time r) = H)
             (filter (\<lambda>r. local_day (sr_report_time r) = local_day now) rows)))) \<and>
       h_offline_pct h =
         sql_round (sql_avg (map (\<lambda>r. 100 - sr_online_percentage r)
           (filter (\<lambda>r. local_hour (sr_report_time r) = H)
             (filter (\<lambda>r. local_day (sr_report_time r) = local_day now) rows))))" .
next
  show "hourly_rows_pg (8 * 3600) now rows =
     hourly_groups (\<lambda>r. hour_of (sr_report_time r))
       (filter (\<lambda>r. day_of (sr_report_time r) = local_day now) rows)"
    using hourly_rows_pg_manila [of now rows] by simp
next
  show "map h_hour (hourly_groups key rows) = sort (remdups (map key rows))"
    by (rule hourly_groups_labels)
next
  fix h assume h: "h \<in> set (hourly_groups key rows)"
  note m = hourly_groups_member [OF h]
  from m show "filter (\<lambda>r. key r = h_hour h) rows \<noteq> []" by simp
  from m show "h_data_points h = length (filter (\<lambda>r. key r = h_hour h) rows)" by simp
  from m show "h_online_pct h =
        sql_round (sql_avg (map sr_online_percentage (filter (\<lambda>r. key r = h_hour h) rows)))"
    by simp
  from m show "h_offline_pct h =
        sql_round (sql_avg (map (\<lambda>r. 100 - sr_online_percentage r)
          (filter (\<lambda>r. key r = h_hour h) rows)))"
    by simp
qed

theorem hourly_data_groups_witness:
  "fst (get_hourly_data_try sqlite_morning)
     = Inr (hourly_rows_sqlite (clock sqlite_morning)
              (summary_reports (data sqlite_morning Embedded))) \<and>
   filter (\<lambda>r. local_hour (sr_report_time r) = 9)
     (filter (\<lambda>r. local_day (sr_report_time r) = local_day 93600)
        (summary_reports morning_database)) \<noteq> [] \<and>
   (\<exists>h \<in> set (hourly_rows_sqlite 93600 (summary_reports morning_database)).
      h_data_points h = 2 \<and> h_online_pct h = 75 \<and> h_offline_pct h = 25) \<and>
   session_tz (postgres_morning\<lparr>session_tz := 8 * 3600\<rparr>) = 8 * 3600 \<and>
   hour_of (current_timestamp Primary (postgres_morning\<lparr>session_tz := 8 * 3600\<rparr>))
     = local_hour (clock postgres_morning) \<and>
   \<lparr>h_hour = 9, h_online_pct = 70, h_offline_pct = 30, h_data_points = 1\<rparr>
     \<in> set (hourly_groups (\<lambda>r. hour_of (sr_report_time r))
         [\<lparr>sr_id = 1, sr_total_stores = 10, sr_online_stores = 7, sr_offline_stores = 3,
           sr_online_percentage = 70, sr_report_time = 118800\<rparr>]) \<and>
   filter (\<lambda>r. hour_of (sr_report_time r) = 9)
     [\<lparr>sr_id = 1, sr_total_stores = 10, sr_online_stores = 7, sr_offline_stores = 3,
       sr_online_percentage = 70, sr_report_time = 118800\<rparr>] \<noteq> []"
proof -
  let ?rows = "summary_reports morning_database"
  let ?g = "filter (\<lambda>r. local_hour (sr_report_time r) = 9)
     (filter (\<lambda>r. local_day (sr_report_time r) = local_day 93600) ?rows)"
  let ?row = "\<lparr>sr_id = 1, sr_total_stores = 10, sr_online_stores = 7, sr_offline_stores = 3,
       sr_online_percentage = 70, sr_report_time = 118800\<rparr>"
  let ?h = "\<lparr>h_hour = 9, h_online_pct = 70, h_offline_pct = 30, h_data_points = 1\<rparr>"
  let ?pg = "postgres_morning\<lparr>session_tz := 8 * 3600\<rparr>"
  have run: "fst (get_hourly_data_try sqlite_morning) =
      Inr (hourly_rows_sqlite 93600 ?rows)"
    by (simp add: get_hourly_data_try_def get_connection_def connect_def engine_op_def
          read_sql_query_def bind_prog_def hourly_query_sqlite_def sqlite_morning_def
          morning_database_def)
  have st: "clock sqlite_morning = 93600" "data sqlite_morning Embedded = morning_database"
    "db_type sqlite_morning \<noteq> ''postgresql''"
    by (simp_all add: sqlite_morning_def)
  have g: "?g = ?rows"
    by (simp add: morning_database_def local_hour_def local_day_def hour_of_def day_of_def)
  then have ne: "?g \<noteq> []"
    by (simp add: morning_database_def)
  have agg: "length ?rows = 2" "sql_round (sql_avg (map sr_online_percentage ?rows)) = 75"
    "sql_round (sql_avg (map (\<lambda>r. 100 - sr_online_percentage r) ?rows)) = 25"
    by (simp_all add: morning_database_def sql_avg_def sql_round_def)
  note t = hourly_data_groups [where s = sqlite_morning and now = 93600 and rows = ?rows
      and H = 9 and result = "hourly_rows_sqlite 93600 ?rows"
      and s' = "snd (get_hourly_data_try sqlite_morning)"]
  from t ne have "\<exists>h \<in> set (hourly_rows_sqlite 93600 ?rows).
       h_data_points h = length ?g \<and>
       h_online_pct h = sql_round (sql_avg (map sr_online_percentage ?g)) \<and>
       h_offline_pct h = sql_round (sql_avg (map (\<lambda>r. 100 - sr_online_percentage r) ?g))"
    by blast
  then have two: "\<exists>h \<in> set (hourly_rows_sqlite 93600 ?rows).
      h_data_points h = 2 \<and> h_online_pct h = 75 \<and> h_offline_pct h = 25"
    by (simp only: g agg)
  have tz: "session_tz ?pg = 8 * 3600"
    by simp
  note u = hourly_data_groups [where s = ?pg and key = "\<lambda>r. hour_of (sr_report_time r)"
      and rows = "[?row]"]
  from u tz have hr: "hour_of (current_timestamp Primary ?pg) = local_hour (clock postgres_morning)"
    by simp
  have mem: "?h \<in> set (hourly_groups (\<lambda>r. hour_of (sr_report_time r)) [?row])"
    by (simp add: hourly_groups_def hour_of_def sql_avg_def sql_round_def)
  with u have "filter (\<lambda>r. hour_of (sr_report_time r) = h_hour ?h) [?row] \<noteq> []"
    by blast
  then have f: "filter (\<lambda>r. hour_of (sr_report_time r) = 9) [?row] \<noteq> []"
    by simp
  from run st ne two tz hr mem f show ?thesis
    by (simp only: simp_thms)
qed

end
